(* ===== verification/Go_Prelude.thy ===== *)
theory Go_Prelude
  imports Main "HOL-Library.Word" "HOL-Library.Char_ord" "HOL-Library.List_Lexorder"
begin

unbundle bit_operations_syntax

text \<open>
  What the components share: the Go types the source is written in (byte strings, 64-bit
  integers, IEEE 754 doubles, time instants), the parts of Go's standard library the source
  calls and that are small enough to be written out, and the generic lemmas and collections
  the component proofs use.

  A Go \<^verbatim>\<open>string\<close> is a sequence of bytes, modelled as HOL's \<open>string\<close> (a \<open>char\<close> has eight
  bits); a \<^verbatim>\<open>[]byte\<close> on which the source works bitwise is a list of \<open>8 word\<close>. \<^verbatim>\<open>int64\<close>,
  \<^verbatim>\<open>uint64\<close> and \<^verbatim>\<open>time.Duration\<close> are \<open>64 word\<close>, read by \<open>sint\<close> where signed. A \<^verbatim>\<open>float64\<close> is
  its bit pattern, with the IEEE comparison written out on the bits.

  The large parts of the standard library (regular expressions, the shortest printing of a
  double, layouts of \<^verbatim>\<open>time.Format\<close>, the Unicode case tables, HTML entities, JSON) are fields of
  the record \<open>golib\<close>, an argument of every definition that reaches them. No theorem assumes
  anything about them.
\<close>

section \<open>Collections and generic lemmas\<close>

named_theorems go_simps \<open>unfolding of the small Go-level helpers\<close>
named_theorems go_kind \<open>facts about the kind of a value\<close>

type_synonym bytes = "8 word list"
type_synonym i64 = "64 word"
type_synonym u64 = "64 word"
type_synonym f64 = "64 word"

text \<open>\<^verbatim>\<open>x, err := f(); if err != nil { return err }\<close>: the first error is the result.\<close>

type_synonym ('ok, 'err) fallible = "'err + 'ok"

definition try_then :: "('v, 'err) fallible \<Rightarrow> ('v \<Rightarrow> ('w, 'err) fallible) \<Rightarrow> ('w, 'err) fallible" where
  "try_then m f = (case m of Inl e \<Rightarrow> Inl e | Inr x \<Rightarrow> f x)"

lemma try_then_simps [simp]:
  "try_then (Inl e) f = Inl e"
  "try_then (Inr x) f = f x"
  by (simp_all add: try_then_def)

lemma try_then_Inr: "try_then m f = Inr y \<longleftrightarrow> (\<exists>v. m = Inr v \<and> f v = Inr y)"
  by (cases m) auto

lemma try_then_Inl: "try_then m f = Inl e \<longleftrightarrow> m = Inl e \<or> (\<exists>x. m = Inr x \<and> f x = Inl e)"
  by (cases m) auto

lemma try_then_cong [fundef_cong]:
  "m = m' \<Longrightarrow> (\<And>x. m' = Inr x \<Longrightarrow> f x = g x) \<Longrightarrow> try_then m f = try_then m' g"
  by (cases m') auto

text \<open>A guard: \<^verbatim>\<open>if cond { return err }\<close>.\<close>

definition fail_if :: "bool \<Rightarrow> 'e \<Rightarrow> 'e + 'a \<Rightarrow> 'e + 'a" where
  "fail_if b e m = (if b then Inl e else m)"

lemma fail_if_simps [simp]:
  "fail_if True e m = Inl e"
  "fail_if False e m = m"
  by (simp_all add: fail_if_def)

lemma fail_if_Inr: "fail_if b e m = Inr y \<longleftrightarrow> \<not> b \<and> m = Inr y"
  by (simp add: fail_if_def)

lemma fail_if_Inl: "fail_if b e m = Inl x \<longleftrightarrow> (if b then e = x else m = Inl x)"
  by (simp add: fail_if_def)

lemma fail_if_cong [fundef_cong]:
  "b = b' \<Longrightarrow> e = e' \<Longrightarrow> (\<not> b' \<Longrightarrow> m = m') \<Longrightarrow> fail_if b e m = fail_if b' e' m'"
  by (simp add: fail_if_def)

lemmas res_Inr = try_then_Inr fail_if_Inr
lemmas res_Inl = try_then_Inl fail_if_Inl

section \<open>Machine integers\<close>

lemma sint_le_uint: "sint (w :: i64) \<le> uint w"
proof -
  have "take_bit 64 (uint w) \<le> uint w" by (simp add: take_bit_int_less_eq_self_iff)
  then show ?thesis by (simp add: sint_uint signed_take_bit_eq_take_bit_minus)
qed

lemma sint_of_length: "sint (word_of_nat n :: i64) \<le> int n"
  by (rule order_trans [OF sint_le_uint]) (simp add: unsigned_of_nat take_bit_int_less_eq_self_iff)

lemma sint_of_small: "n < 2 ^ 63 \<Longrightarrow> sint (word_of_nat n :: i64) = int n"
  by (simp add: signed_of_nat signed_take_bit_int_eq_self_iff)

section \<open>Bytes and characters\<close>

definition ch :: "char \<Rightarrow> nat" where
  "ch c = of_char c"

lemma ch_less_256 [simp]: "ch c < 256"
  by (simp add: ch_def)

lemma ch_eq_iff [simp]: "ch c = ch d \<longleftrightarrow> c = d"
  by (simp add: ch_def)

lemma char_less_eq_ch: "c \<le> d \<longleftrightarrow> ch c \<le> ch d"
  by (simp add: ch_def less_eq_char_def)

definition byte_of :: "char \<Rightarrow> 8 word" where
  "byte_of c = word_of_nat (ch c)"

definition char_of_byte :: "8 word \<Rightarrow> char" where
  "char_of_byte w = char_of (unat w)"

lemma char_of_byte_of [simp]: "char_of_byte (byte_of c) = c"
  by (simp add: char_of_byte_def byte_of_def ch_def unat_of_nat)

lemma byte_of_char_of [simp]: "byte_of (char_of_byte w) = w"
proof -
  have "unat w < 256" using unsigned_less [of w] by simp
  then show ?thesis by (simp add: char_of_byte_def byte_of_def ch_def take_bit_eq_mod)
qed

definition bytes_of_string :: "string \<Rightarrow> bytes" where
  "bytes_of_string s = map byte_of s"

definition string_of_bytes :: "bytes \<Rightarrow> string" where
  "string_of_bytes b = map char_of_byte b"

lemma string_of_bytes_of_string [simp]: "string_of_bytes (bytes_of_string s) = s"
  by (simp add: string_of_bytes_def bytes_of_string_def o_def)

lemma bytes_of_string_of_bytes [simp]: "bytes_of_string (string_of_bytes b) = b"
  by (simp add: string_of_bytes_def bytes_of_string_def o_def)

section \<open>Package strings\<close>

definition HasPrefix :: "string \<Rightarrow> string \<Rightarrow> bool" where
  "HasPrefix s p = (take (length p) s = p)"

definition HasSuffix :: "string \<Rightarrow> string \<Rightarrow> bool" where
  "HasSuffix s p = (length p \<le> length s \<and> drop (length s - length p) s = p)"

fun str_contains :: "string \<Rightarrow> string \<Rightarrow> bool" where
  "str_contains [] p = (p = [])"
| "str_contains (c # s) p = (HasPrefix (c # s) p \<or> str_contains s p)"

lemma HasPrefix_iff: "HasPrefix s p \<longleftrightarrow> (\<exists>t. s = p @ t)"
  by (metis HasPrefix_def append_eq_conv_conj append_take_drop_id)

lemma HasSuffix_iff: "HasSuffix s p \<longleftrightarrow> (\<exists>t. s = t @ p)"
proof
  assume "HasSuffix s p"
  then have "s = take (length s - length p) s @ p"
    by (metis HasSuffix_def append_take_drop_id)
  then show "\<exists>t. s = t @ p" by blast
next
  assume "\<exists>t. s = t @ p"
  then show "HasSuffix s p" by (auto simp: HasSuffix_def)
qed

lemma str_contains_iff: "str_contains s p \<longleftrightarrow> (\<exists>t u. s = t @ p @ u)"
proof (induction s)
  case Nil
  then show ?case by auto
next
  case (Cons c s)
  show ?case
  proof
    assume "str_contains (c # s) p"
    then consider "HasPrefix (c # s) p" | "str_contains s p" by auto
    then show "\<exists>t u. c # s = t @ p @ u"
    proof cases
      case 1
      then obtain u where "c # s = [] @ p @ u" by (auto simp: HasPrefix_iff)
      then show ?thesis by blast
    next
      case 2
      then obtain t u where "s = t @ p @ u" using Cons.IH by blast
      then have "c # s = (c # t) @ p @ u" by simp
      then show ?thesis by blast
    qed
  next
    assume "\<exists>t u. c # s = t @ p @ u"
    then obtain t u where eq: "c # s = t @ p @ u" by blast
    show "str_contains (c # s) p"
    proof (cases t)
      case Nil
      then have "HasPrefix (c # s) p" using eq by (auto simp: HasPrefix_iff)
      then show ?thesis by simp
    next
      case (Cons d t')
      then have "\<exists>t u. s = t @ p @ u" using eq by auto
      then show ?thesis using Cons.IH by simp
    qed
  qed
qed

text \<open>\<^verbatim>\<open>strings.ToLower\<close> and \<^verbatim>\<open>strings.ToUpper\<close> on a byte below 0x80.\<close>

definition ascii_lower :: "char \<Rightarrow> char" where
  "ascii_lower c = (if 65 \<le> ch c \<and> ch c \<le> 90 then char_of (ch c + 32) else c)"

definition ascii_upper :: "char \<Rightarrow> char" where
  "ascii_upper c = (if 97 \<le> ch c \<and> ch c \<le> 122 then char_of (ch c - 32) else c)"

definition is_ascii :: "string \<Rightarrow> bool" where
  "is_ascii s = list_all (\<lambda>c. ch c < 128) s"

lemma ascii_lower_idem [simp]: "ascii_lower (ascii_lower c) = ascii_lower c"
proof (cases "65 \<le> ch c \<and> ch c \<le> 90")
  case True
  then have "ch (char_of (ch c + 32)) = ch c + 32" by (simp add: ch_def)
  with True show ?thesis by (simp add: ascii_lower_def)
next
  case False
  then have "ascii_lower c = c" by (auto simp: ascii_lower_def)
  then show ?thesis by simp
qed

lemma ascii_lower_ascii: "ch c < 128 \<Longrightarrow> ch (ascii_lower c) < 128"
  by (auto simp: ascii_lower_def ch_def)

section \<open>Package strconv: decimal integers\<close>

definition is_digit :: "char \<Rightarrow> bool" where
  "is_digit c = (48 \<le> ch c \<and> ch c \<le> 57)"

definition digit_char :: "nat \<Rightarrow> char" where
  "digit_char d = char_of (48 + d)"

fun dec_value :: "nat \<Rightarrow> string \<Rightarrow> nat" where
  "dec_value acc [] = acc"
| "dec_value acc (c # s) = dec_value (10 * acc + (ch c - 48)) s"

fun nat_string :: "nat \<Rightarrow> string" where
  "nat_string n = (if n < 10 then [digit_char n] else nat_string (n div 10) @ [digit_char (n mod 10)])"

declare nat_string.simps [simp del]

definition FormatInt :: "int \<Rightarrow> string" where
  "FormatInt i = (if i < 0 then CHR ''-'' # nat_string (nat (- i)) else nat_string (nat i))"

definition min_int64 :: int where "min_int64 = - (2 ^ 63)"
definition max_int64 :: int where "max_int64 = 2 ^ 63 - 1"

text \<open>
  \<^verbatim>\<open>strconv.ParseInt(s, 10, 64)\<close>: an optional sign and at least one decimal digit; \<open>None\<close> is
  \<^verbatim>\<open>ErrSyntax\<close> or \<^verbatim>\<open>ErrRange\<close>.
\<close>

definition ParseInt :: "string \<Rightarrow> i64 option" where
  "ParseInt s =
     (let neg = (s \<noteq> [] \<and> hd s = CHR ''-'');
          body = (if s \<noteq> [] \<and> (hd s = CHR ''-'' \<or> hd s = CHR ''+'') then tl s else s)
      in if body = [] \<or> \<not> list_all is_digit body then None
         else let v = (if neg then - int (dec_value 0 body) else int (dec_value 0 body))
              in if min_int64 \<le> v \<and> v \<le> max_int64 then Some (word_of_int v) else None)"

lemma ch_digit_char [simp]: "d < 10 \<Longrightarrow> ch (digit_char d) = 48 + d"
  by (simp add: digit_char_def ch_def)

lemma is_digit_digit_char [simp]: "d < 10 \<Longrightarrow> is_digit (digit_char d)"
  by (simp add: is_digit_def)

lemma dec_value_append: "dec_value acc (s @ t) = dec_value (dec_value acc s) t"
  by (induction s arbitrary: acc) auto

lemma dec_value_nat_string [simp]: "dec_value 0 (nat_string n) = n"
proof (induction n rule: nat_string.induct)
  case (1 n)
  show ?case
  proof (cases "n < 10")
    case True
    then show ?thesis by (simp add: nat_string.simps [of n])
  next
    case False
    have "ch (digit_char (n mod 10)) = 48 + n mod 10" by simp
    with "1"[OF False] False show ?thesis
      by (simp add: nat_string.simps [of n] dec_value_append)
  qed
qed

lemma nat_string_digits [simp]: "list_all is_digit (nat_string n)"
proof (induction n rule: nat_string.induct)
  case (1 n)
  then show ?case by (cases "n < 10") (auto simp: nat_string.simps [of n])
qed

lemma nat_string_nonempty [simp]: "nat_string n \<noteq> []"
  by (subst nat_string.simps) simp

lemma hd_nat_string: "is_digit (hd (nat_string n))"
  using nat_string_digits [of n] nat_string_nonempty [of n] by (cases "nat_string n") auto

lemma is_digit_not_sign: "is_digit c \<Longrightarrow> c \<noteq> CHR ''-'' \<and> c \<noteq> CHR ''+''"
  by (auto simp: is_digit_def ch_def)

lemma ParseInt_FormatInt_sint: "ParseInt (FormatInt (sint w)) = Some w"
proof (cases "sint w < 0")
  case True
  have "min_int64 \<le> sint w" using sint_greater_eq [of w] by (simp add: min_int64_def)
  moreover have "sint w \<le> max_int64" using sint_less [of w] by (simp add: max_int64_def)
  ultimately show ?thesis using True by (simp add: FormatInt_def ParseInt_def)
next
  case False
  have "sint w \<le> max_int64" using sint_less [of w] by (simp add: max_int64_def)
  moreover have "min_int64 \<le> sint w" using False by (simp add: min_int64_def)
  moreover have "hd (nat_string (nat (sint w))) \<noteq> CHR ''-''"
    and "hd (nat_string (nat (sint w))) \<noteq> CHR ''+''"
    using is_digit_not_sign [OF hd_nat_string] by blast+
  ultimately show ?thesis using False by (simp add: FormatInt_def ParseInt_def)
qed

section \<open>Doubles\<close>

definition f_exp :: "f64 \<Rightarrow> nat" where
  "f_exp x = unat (drop_bit 52 x AND 2047)"

definition f_man :: "f64 \<Rightarrow> nat" where
  "f_man x = unat (x AND 4503599627370495)"

definition f_mag :: "f64 \<Rightarrow> nat" where
  "f_mag x = unat (x AND 9223372036854775807)"

definition IsNaN :: "f64 \<Rightarrow> bool" where
  "IsNaN x = (f_exp x = 2047 \<and> f_man x \<noteq> 0)"

definition IsInf :: "f64 \<Rightarrow> bool" where
  "IsInf x = (f_exp x = 2047 \<and> f_man x = 0)"

text \<open>
  The sign-magnitude reading orders the doubles that are not NaN as IEEE 754 does, and reads
  both zeroes as 0.
\<close>

definition f_key :: "f64 \<Rightarrow> int" where
  "f_key x = (if bit x 63 then - int (f_mag x) else int (f_mag x))"

definition f_eq :: "f64 \<Rightarrow> f64 \<Rightarrow> bool" where
  "f_eq x y = (\<not> IsNaN x \<and> \<not> IsNaN y \<and> f_key x = f_key y)"

definition f_lt :: "f64 \<Rightarrow> f64 \<Rightarrow> bool" where
  "f_lt x y = (\<not> IsNaN x \<and> \<not> IsNaN y \<and> f_key x < f_key y)"

lemma f_eq_sym: "f_eq x y = f_eq y x"
  by (auto simp: f_eq_def)

lemma f_eq_trans: "f_eq x y \<Longrightarrow> f_eq y z \<Longrightarrow> f_eq x z"
  by (simp add: f_eq_def)

lemma f_eq_refl: "f_eq x x \<longleftrightarrow> \<not> IsNaN x"
  by (simp add: f_eq_def)

text \<open>The integer part of a finite double, rounded towards zero.\<close>

definition f_trunc :: "f64 \<Rightarrow> int" where
  "f_trunc x =
     (let m = (if f_exp x = 0 then f_man x else f_man x + 2 ^ 52);
          e = (if f_exp x = 0 then 1 else f_exp x);
          v = (if e \<le> 1075 then m div 2 ^ (1075 - e) else m * 2 ^ (e - 1075))
      in if bit x 63 then - int v else int v)"

text \<open>\<^verbatim>\<open>float64(n)\<close> for an integer: round to nearest, ties to even.\<close>

fun bit_length :: "nat \<Rightarrow> nat" where
  "bit_length n = (if n = 0 then 0 else Suc (bit_length (n div 2)))"

declare bit_length.simps [simp del]

definition round_shift :: "nat \<Rightarrow> nat \<Rightarrow> nat" where
  "round_shift n s =
     (let q = n div 2 ^ s; r = n mod 2 ^ s; half = 2 ^ (s - 1)
      in if r > half \<or> (r = half \<and> odd q) then q + 1 else q)"

definition f_of_nat :: "nat \<Rightarrow> f64" where
  "f_of_nat n =
     (let l = bit_length n
      in if n = 0 then 0
         else if l \<le> 53 then word_of_nat ((l + 1022) * 2 ^ 52 + (n * 2 ^ (53 - l) - 2 ^ 52))
         else word_of_nat ((l + 1022) * 2 ^ 52 + (round_shift n (l - 53) - 2 ^ 52)))"

definition f_of_int :: "int \<Rightarrow> f64" where
  "f_of_int i = (if i < 0 then f_of_nat (nat (- i)) OR push_bit 63 1 else f_of_nat (nat i))"

section \<open>Time\<close>

text \<open>
  A \<^verbatim>\<open>time.Time\<close>: the instant in nanoseconds since the Unix epoch and the offset of its
  location in seconds, which only its formatting reads.
\<close>

record gotime =
  t_ns :: int
  t_off :: int

definition time_Equal :: "gotime \<Rightarrow> gotime \<Rightarrow> bool" where
  "time_Equal a b = (t_ns a = t_ns b)"

definition time_Before :: "gotime \<Rightarrow> gotime \<Rightarrow> bool" where
  "time_Before a b = (t_ns a < t_ns b)"

definition time_After :: "gotime \<Rightarrow> gotime \<Rightarrow> bool" where
  "time_After a b = (t_ns b < t_ns a)"

definition time_Add :: "gotime \<Rightarrow> i64 \<Rightarrow> gotime" where
  "time_Add a d = a\<lparr>t_ns := t_ns a + sint d\<rparr>"

definition time_Unix :: "gotime \<Rightarrow> i64" where
  "time_Unix a = word_of_int (t_ns a div 1000000000)"

section \<open>The parts of the standard library that stay parameters\<close>

text \<open>
  A compiled regular expression is its source text: \<open>lib_re_compile\<close> says whether
  \<^verbatim>\<open>regexp.Compile\<close> accepts a text, \<open>lib_re_match\<close> and \<open>lib_re_replace\<close> are \<^verbatim>\<open>MatchString\<close> and
  \<^verbatim>\<open>ReplaceAllString\<close> of the expression compiled from it. \<open>lib_json\<close> is \<^verbatim>\<open>json.Unmarshal\<close> into a
  \<^verbatim>\<open>map[string]any\<close>: each key with its string (\<open>Inl\<close>) or with the \<^verbatim>\<open>fmt.Sprint\<close> text of its
  value (\<open>Inr\<close>). \<open>lib_f2i\<close> is the conversion of a double outside the range of \<^verbatim>\<open>int64\<close>, which the
  language leaves to the implementation.
\<close>

record golib =
  lib_parse_float :: "string \<Rightarrow> f64 option"
  lib_format_float :: "f64 \<Rightarrow> string"
  lib_parse_duration :: "string \<Rightarrow> i64 option"
  lib_format_duration :: "i64 \<Rightarrow> string"
  lib_parse_time :: "string \<Rightarrow> string \<Rightarrow> gotime option"
  lib_format_time :: "string \<Rightarrow> gotime \<Rightarrow> string"
  lib_ip_string :: "bytes \<Rightarrow> string"
  lib_re_compile :: "string \<Rightarrow> bool"
  lib_re_match :: "string \<Rightarrow> string \<Rightarrow> bool"
  lib_re_replace :: "string \<Rightarrow> string \<Rightarrow> string \<Rightarrow> string"
  lib_unicode_lower :: "string \<Rightarrow> string"
  lib_unicode_upper :: "string \<Rightarrow> string"
  lib_html_unescape :: "string \<Rightarrow> string"
  lib_json :: "string \<Rightarrow> (string \<times> (string + string)) list option"
  lib_now :: gotime
  lib_f2i :: "f64 \<Rightarrow> i64"

definition ToLower :: "golib \<Rightarrow> string \<Rightarrow> string" where
  "ToLower L s = (if is_ascii s then map ascii_lower s else lib_unicode_lower L s)"

definition ToUpper :: "golib \<Rightarrow> string \<Rightarrow> string" where
  "ToUpper L s = (if is_ascii s then map ascii_upper s else lib_unicode_upper L s)"

text \<open>
  A concrete library for evaluation on examples: every text compiles as a regular expression,
  which matches the subjects that contain it, and the printers and parsers are trivial.
\<close>

definition golib0 :: golib where
  "golib0 = \<lparr>
     lib_parse_float = (\<lambda>s. Some 0), lib_format_float = (\<lambda>x. ''0''),
     lib_parse_duration = (\<lambda>s. Some 0), lib_format_duration = (\<lambda>d. ''0s''),
     lib_parse_time = (\<lambda>l s. Some \<lparr>t_ns = 0, t_off = 0\<rparr>), lib_format_time = (\<lambda>l t. []),
     lib_ip_string = (\<lambda>b. []), lib_re_compile = (\<lambda>p. True),
     lib_re_match = (\<lambda>p s. str_contains s p), lib_re_replace = (\<lambda>p s r. s),
     lib_unicode_lower = (\<lambda>s. s), lib_unicode_upper = (\<lambda>s. s),
     lib_html_unescape = (\<lambda>s. s), lib_json = (\<lambda>s. None),
     lib_now = \<lparr>t_ns = 0, t_off = 0\<rparr>, lib_f2i = (\<lambda>x. 0)\<rparr>"

end
