(* ===== verification/Go_Net.thy ===== *)
theory Go_Net
  imports Go_Prelude
begin

unbundle bit_operations_syntax

text \<open>
  Package \<^verbatim>\<open>net\<close> of Go's standard library, as far as the rule engine uses it: addresses
  (\<^verbatim>\<open>net.IP\<close>, a byte slice of length 4 or 16), \<^verbatim>\<open>ParseIP\<close>, \<^verbatim>\<open>ParseCIDR\<close>, \<^verbatim>\<open>IP.To4\<close>,
  \<^verbatim>\<open>IP.Equal\<close>, \<^verbatim>\<open>IP.Mask\<close> and \<^verbatim>\<open>IPNet.Contains\<close>, and what membership in a network means for the
  bits of an address.
\<close>

section \<open>Addresses\<close>

type_synonym IP = bytes

definition v4InV6Prefix :: bytes where
  "v4InV6Prefix = [0, 0, 0, 0, 0, 0, 0, 0, 0, 0, 255, 255]"

definition To4 :: "IP \<Rightarrow> IP option" where
  "To4 ip = (if length ip = 4 then Some ip
             else if length ip = 16 \<and> take 12 ip = v4InV6Prefix then Some (drop 12 ip)
             else None)"

definition IP_Equal :: "IP \<Rightarrow> IP \<Rightarrow> bool" where
  "IP_Equal ip x =
     (if length ip = length x then ip = x
      else if length ip = 4 \<and> length x = 16 then take 12 x = v4InV6Prefix \<and> ip = drop 12 x
      else if length ip = 16 \<and> length x = 4 then take 12 ip = v4InV6Prefix \<and> drop 12 ip = x
      else False)"

record IPNet =
  net_ip :: bytes
  net_mask :: bytes

definition bytes_and :: "bytes \<Rightarrow> bytes \<Rightarrow> bytes" where
  "bytes_and a b = map2 (AND) a b"

definition IP_Mask :: "IP \<Rightarrow> bytes \<Rightarrow> IP option" where
  "IP_Mask ip0 mask0 =
     (let mask = (if length mask0 = 16 \<and> length ip0 = 4 \<and> list_all (\<lambda>b. b = 255) (take 12 mask0)
                  then drop 12 mask0 else mask0);
          ip = (if length mask = 4 \<and> length ip0 = 16 \<and> take 12 ip0 = v4InV6Prefix
                then drop 12 ip0 else ip0)
      in if length ip \<noteq> length mask then None else Some (bytes_and ip mask))"

text \<open>The mask byte with the \<open>n\<close> highest bits set.\<close>

definition mask_byte :: "nat \<Rightarrow> 8 word" where
  "mask_byte n = (if n \<ge> 8 then 255 else NOT (drop_bit n 255))"

fun mask_bytes :: "nat \<Rightarrow> nat \<Rightarrow> bytes" where
  "mask_bytes n 0 = []"
| "mask_bytes n (Suc k) = mask_byte n # mask_bytes (n - 8) k"

definition CIDRMask :: "nat \<Rightarrow> nat \<Rightarrow> bytes" where
  "CIDRMask ones bits = mask_bytes ones (bits div 8)"

text \<open>\<^verbatim>\<open>IPMask.Size\<close>: the number of leading ones of a mask.\<close>

definition byte_bits :: "8 word \<Rightarrow> bool list" where
  "byte_bits b = map (bit b) [7, 6, 5, 4, 3, 2, 1, 0]"

definition ip_bits :: "bytes \<Rightarrow> bool list" where
  "ip_bits b = concat (map byte_bits b)"

definition mask_ones :: "bytes \<Rightarrow> nat" where
  "mask_ones m = length (takeWhile (\<lambda>b. b) (ip_bits m))"

definition networkNumberAndMask :: "IPNet \<Rightarrow> (bytes \<times> bytes) option" where
  "networkNumberAndMask n =
     (let ip = (case To4 (net_ip n) of Some x \<Rightarrow> x | None \<Rightarrow> net_ip n)
      in if To4 (net_ip n) = None \<and> length ip \<noteq> 16 then None
         else if length (net_mask n) = 4 then
           (if length ip \<noteq> 4 then None else Some (ip, net_mask n))
         else if length (net_mask n) = 16 then
           Some (ip, if length ip = 4 then drop 12 (net_mask n) else net_mask n)
         else None)"

definition Contains :: "IPNet \<Rightarrow> IP \<Rightarrow> bool" where
  "Contains n ip0 =
     (let ip = (case To4 ip0 of Some x \<Rightarrow> x | None \<Rightarrow> ip0)
      in case networkNumberAndMask n of
           None \<Rightarrow> ip = []
         | Some (nn, m) \<Rightarrow> length ip = length nn \<and> bytes_and nn m = bytes_and ip m)"

section \<open>Parsing\<close>

text \<open>\<open>split_on c s\<close>: the parts of \<open>s\<close> between the occurrences of \<open>c\<close>.\<close>

fun split_on :: "char \<Rightarrow> string \<Rightarrow> string list" where
  "split_on c [] = [[]]"
| "split_on c (x # s) =
     (if x = c then [] # split_on c s
      else case split_on c s of [] \<Rightarrow> [[x]] | w # ws \<Rightarrow> (x # w) # ws)"

definition v4_octet :: "string \<Rightarrow> 8 word option" where
  "v4_octet s =
     (if s = [] \<or> \<not> list_all is_digit s then None
      else if length s > 1 \<and> hd s = CHR ''0'' then None
      else if dec_value 0 s > 255 then None
      else Some (word_of_nat (dec_value 0 s)))"

definition parseIPv4 :: "string \<Rightarrow> bytes option" where
  "parseIPv4 s =
     (case map v4_octet (split_on CHR ''.'' s) of
        [Some a, Some b, Some c, Some d] \<Rightarrow> Some [a, b, c, d]
      | _ \<Rightarrow> None)"

definition is_hex :: "char \<Rightarrow> bool" where
  "is_hex c = (is_digit c \<or> (97 \<le> ch c \<and> ch c \<le> 102) \<or> (65 \<le> ch c \<and> ch c \<le> 70))"

definition hex_val :: "char \<Rightarrow> nat" where
  "hex_val c = (if is_digit c then ch c - 48 else if 97 \<le> ch c then ch c - 87 else ch c - 55)"

definition hex_number :: "string \<Rightarrow> nat" where
  "hex_number s = foldl (\<lambda>a c. 16 * a + hex_val c) 0 s"

text \<open>
  The loop of \<^verbatim>\<open>parseIPv6\<close> over the colon-separated groups: \<open>k\<close> groups may still follow, \<open>acc\<close>
  holds the bytes read and \<open>ell\<close> the position of a \<^verbatim>\<open>::\<close>.
\<close>

fun v6_groups :: "nat \<Rightarrow> string \<Rightarrow> bytes \<Rightarrow> nat option \<Rightarrow> (bytes \<times> nat option \<times> string) option" where
  "v6_groups 0 s acc ell = Some (acc, ell, s)"
| "v6_groups (Suc k) s acc ell =
     (let g = takeWhile is_hex s; r = dropWhile is_hex s
      in if g = [] \<or> length g > 4 then None
         else if r \<noteq> [] \<and> hd r = CHR ''.'' then
           (if ell = None \<and> length acc \<noteq> 12 then None
            else if length acc + 4 > 16 then None
            else case parseIPv4 s of None \<Rightarrow> None | Some q \<Rightarrow> Some (acc @ q, ell, []))
         else
           let acc' = acc @ [word_of_nat (hex_number g div 256), word_of_nat (hex_number g)]
           in case r of
                [] \<Rightarrow> Some (acc', ell, [])
              | c # r' \<Rightarrow>
                  if c \<noteq> CHR '':'' \<or> r' = [] then None
                  else if hd r' = CHR '':'' then
                    (if ell \<noteq> None then None
                     else if tl r' = [] then Some (acc', Some (length acc'), [])
                     else v6_groups k (tl r') acc' (Some (length acc')))
                  else v6_groups k r' acc' ell)"

definition v6_expand :: "bytes \<Rightarrow> nat option \<Rightarrow> string \<Rightarrow> bytes option" where
  "v6_expand b ell rest =
     (if rest \<noteq> [] then None
      else case ell of
             None \<Rightarrow> if length b < 16 then None else Some b
           | Some e \<Rightarrow> if length b < 16 then Some (take e b @ replicate (16 - length b) 0 @ drop e b)
                       else None)"

definition parseIPv6 :: "string \<Rightarrow> bytes option" where
  "parseIPv6 s =
     (if take 2 s = ''::'' then
        (if drop 2 s = [] then Some (replicate 16 0)
         else case v6_groups 8 (drop 2 s) [] (Some 0) of
                None \<Rightarrow> None | Some (b, ell, rest) \<Rightarrow> v6_expand b ell rest)
      else case v6_groups 8 s [] None of
             None \<Rightarrow> None | Some (b, ell, rest) \<Rightarrow> v6_expand b ell rest)"

text \<open>
  \<^verbatim>\<open>netip.ParseAddr\<close> of an address without zone, as 4 or 16 bytes; both callers below refuse
  an address with a zone.
\<close>

definition ParseAddr :: "string \<Rightarrow> bytes option" where
  "ParseAddr s =
     (case dropWhile (\<lambda>c. c \<noteq> CHR ''.'' \<and> c \<noteq> CHR '':'' \<and> c \<noteq> CHR ''%'') s of
        [] \<Rightarrow> None
      | c # _ \<Rightarrow> if c = CHR ''.'' then parseIPv4 s
                 else if c = CHR '':'' then (if CHR ''%'' \<in> set s then None else parseIPv6 s)
                 else None)"

definition As16 :: "bytes \<Rightarrow> bytes" where
  "As16 b = (if length b = 4 then v4InV6Prefix @ b else b)"

definition ParseIP :: "string \<Rightarrow> IP option" where
  "ParseIP s = map_option As16 (ParseAddr s)"

definition ParseCIDR :: "string \<Rightarrow> (IP \<times> IPNet) option" where
  "ParseCIDR s =
     (if CHR ''/'' \<notin> set s then None
      else let addr = takeWhile (\<lambda>c. c \<noteq> CHR ''/'') s;
               mask = tl (dropWhile (\<lambda>c. c \<noteq> CHR ''/'') s)
           in case ParseAddr addr of
                None \<Rightarrow> None
              | Some a \<Rightarrow>
                  if mask = [] \<or> \<not> list_all is_digit mask then None
                  else let n = dec_value 0 mask; bits = 8 * length a
                       in if n > bits then None
                          else let m = CIDRMask n bits
                               in case IP_Mask (As16 a) m of
                                    None \<Rightarrow> None
                                  | Some b \<Rightarrow> Some (As16 a, \<lparr>net_ip = b, net_mask = m\<rparr>))"

section \<open>Facts\<close>

lemma length_mask_bytes [simp]: "length (mask_bytes n k) = k"
  by (induction n k rule: mask_bytes.induct) auto

lemma length_bytes_and [simp]: "length (bytes_and a b) = min (length a) (length b)"
  by (simp add: bytes_and_def)

lemma length_byte_bits [simp]: "length (byte_bits b) = 8"
  by (simp add: byte_bits_def)

lemma To4_length: "To4 ip = Some x \<Longrightarrow> length x = 4"
  by (auto simp: To4_def split: if_splits)

lemma byte_bits_inj: "byte_bits a = byte_bits b \<longleftrightarrow> a = b"
proof
  assume eq: "byte_bits a = byte_bits b"
  have "bit a n = bit b n" for n
  proof (cases "n < 8")
    case True
    then have "n \<in> {0, 1, 2, 3, 4, 5, 6, 7}" by auto
    then show ?thesis using eq by (auto simp: byte_bits_def)
  next
    case False
    then show ?thesis using bit_imp_le_length [of a n] bit_imp_le_length [of b n] by auto
  qed
  then show "a = b" by (rule bit_eqI)
qed simp

lemma mask_byte_and_iff:
  assumes "n \<le> 8"
  shows "a AND mask_byte n = b AND mask_byte n \<longleftrightarrow> take n (byte_bits a) = take n (byte_bits b)"
proof -
  have bit_mask: "bit (mask_byte n) i \<longleftrightarrow> 8 - n \<le> i \<and> i < 8" for i
  proof -
    have m: "mask_byte n = (if n \<ge> 8 then mask 8 else NOT (drop_bit n (mask 8)))"
      by (simp add: mask_byte_def mask_eq_exp_minus_1)
    show ?thesis unfolding m using assms
      by (auto simp: bit_not_iff bit_drop_bit_eq bit_mask_iff simp del: mask_numeral)
  qed
  have "a AND mask_byte n = b AND mask_byte n \<longleftrightarrow>
        (\<forall>i. 8 - n \<le> i \<and> i < 8 \<longrightarrow> bit a i = bit b i)"
    by (auto simp: bit_eq_iff bit_and_iff bit_mask)
  also have "\<dots> \<longleftrightarrow> (\<forall>j < n. bit a (7 - j) = bit b (7 - j))" (is "?L \<longleftrightarrow> ?R")
  proof
    assume L: ?L
    show ?R
    proof (intro allI impI)
      fix j assume "j < n"
      then have "8 - n \<le> 7 - j \<and> 7 - j < 8" using assms by auto
      then show "bit a (7 - j) = bit b (7 - j)" using L by blast
    qed
  next
    assume R: ?R
    show ?L
    proof (intro allI impI)
      fix i assume i: "8 - n \<le> i \<and> i < 8"
      then have "7 - i < n" and "7 - (7 - i) = i" using assms by auto
      then show "bit a i = bit b i" using R by metis
    qed
  qed
  also have "\<dots> \<longleftrightarrow> take n (byte_bits a) = take n (byte_bits b)"
  proof -
    have nth: "byte_bits x ! j = bit x (7 - j)" if "j < 8" for x :: "8 word" and j
    proof -
      from that have "j \<in> {0, 1, 2, 3, 4, 5, 6, 7}" by auto
      then show ?thesis by (auto simp: byte_bits_def)
    qed
    show ?thesis using assms by (auto simp: list_eq_iff_nth_eq nth)
  qed
  finally show ?thesis .
qed

lemma masked_eq_iff_prefix:
  assumes "length a = k" "length b = k"
  shows "bytes_and a (mask_bytes n k) = bytes_and b (mask_bytes n k) \<longleftrightarrow>
         take n (ip_bits a) = take n (ip_bits b)"
  using assms
proof (induction n k arbitrary: a b rule: mask_bytes.induct)
  case (1 n)
  then show ?case by (simp add: bytes_and_def ip_bits_def)
next
  case (2 n k)
  from "2.prems" obtain x xs y ys where a: "a = x # xs" and b: "b = y # ys"
    and l: "length xs = k" "length ys = k"
    by (metis length_Suc_conv)
  have IH: "bytes_and xs (mask_bytes (n - 8) k) = bytes_and ys (mask_bytes (n - 8) k) \<longleftrightarrow>
            take (n - 8) (ip_bits xs) = take (n - 8) (ip_bits ys)"
    using "2.IH" l by blast
  have first: "x AND mask_byte n = y AND mask_byte n \<longleftrightarrow>
               take n (byte_bits x) = take n (byte_bits y)"
  proof (cases "n \<le> 8")
    case True
    then show ?thesis by (rule mask_byte_and_iff)
  next
    case False
    then have "mask_byte n = mask_byte 8" by (simp add: mask_byte_def)
    then show ?thesis using mask_byte_and_iff [of 8 x y] False by simp
  qed
  have "bytes_and a (mask_bytes n (Suc k)) = bytes_and b (mask_bytes n (Suc k)) \<longleftrightarrow>
        take n (byte_bits x) = take n (byte_bits y) \<and>
        take (n - 8) (ip_bits xs) = take (n - 8) (ip_bits ys)"
    using first IH by (simp add: a b bytes_and_def)
  also have "\<dots> \<longleftrightarrow> take n (ip_bits a) = take n (ip_bits b)"
    by (simp add: a b ip_bits_def)
  finally show ?case .
qed

lemma parseIPv4_length: "parseIPv4 s = Some b \<Longrightarrow> length b = 4"
  by (auto simp: parseIPv4_def split: list.splits option.splits)

definition ell_ok :: "nat option \<Rightarrow> nat \<Rightarrow> bool" where
  "ell_ok ell n = (\<forall>e. ell = Some e \<longrightarrow> e \<le> n)"

lemma v6_groups_length:
  "v6_groups k s acc ell = Some (b, ell', rest) \<Longrightarrow> length acc + 2 * k \<le> 16 \<Longrightarrow>
   ell_ok ell (length acc) \<Longrightarrow> length b \<le> 16 \<and> ell_ok ell' (length b)"
proof (induction k arbitrary: s acc ell)
  case 0
  then show ?case by simp
next
  case (Suc k)
  let ?acc = "acc @ [word_of_nat (hex_number (takeWhile is_hex s) div 256),
                     word_of_nat (hex_number (takeWhile is_hex s))]"
  have mono: "ell_ok ell (length acc + m)" for m
    using Suc.prems(3) by (auto simp: ell_ok_def intro: trans_le_add1)
  have rec: "length b \<le> 16 \<and> ell_ok ell' (length b)"
    if "v6_groups k t ?acc e = Some (b, ell', rest)" "ell_ok e (length ?acc)" for t e
    using Suc.IH [OF that(1)] Suc.prems(2) that(2) by simp
  have new: "ell_ok (Some (length ?acc)) (length ?acc)" by (simp add: ell_ok_def)
  have old: "ell_ok ell (length ?acc)" using mono [of 2] by simp
  show ?case
    using Suc.prems(1,2) mono [of 4] rec [OF _ new] rec [OF _ old] old new
    by (auto simp: Let_def dest!: parseIPv4_length split: if_splits option.splits list.splits)
qed

lemma v6_expand_length:
  "v6_expand b ell rest = Some c \<Longrightarrow> length b \<le> 16 \<Longrightarrow>
   ell_ok ell (length b) \<Longrightarrow> length c = 16"
  by (auto simp: v6_expand_def ell_ok_def split: if_splits option.splits)

lemma parseIPv6_length: "parseIPv6 s = Some b \<Longrightarrow> length b = 16"
  by (auto simp: parseIPv6_def ell_ok_def split: if_splits option.splits
      dest!: v6_groups_length intro: v6_expand_length)

lemma ParseAddr_length: "ParseAddr s = Some b \<Longrightarrow> length b = 4 \<or> length b = 16"
  by (auto simp: ParseAddr_def split: list.splits if_splits
      dest: parseIPv4_length parseIPv6_length)

lemma ParseIP_length: "ParseIP s = Some ip \<Longrightarrow> length ip = 16"
  by (auto simp: ParseIP_def As16_def v4InV6Prefix_def dest: ParseAddr_length)

section \<open>Membership in a range is agreement on the prefix\<close>

text \<open>The address and the prefix length a CIDR text denotes.\<close>

definition cidr_addr :: "string \<Rightarrow> bytes option" where
  "cidr_addr s = ParseAddr (takeWhile (\<lambda>c. c \<noteq> CHR ''/'') s)"

definition cidr_len :: "string \<Rightarrow> nat" where
  "cidr_len s = dec_value 0 (tl (dropWhile (\<lambda>c. c \<noteq> CHR ''/'') s))"

lemma bytes_and_idem: "length a = length m \<Longrightarrow> bytes_and (bytes_and a m) m = bytes_and a m"
  by (induction a m rule: list_induct2) (auto simp: bytes_and_def and.assoc)

lemma ParseCIDR_cases:
  assumes "ParseCIDR s = Some (ip, net)"
  obtains a where "cidr_addr s = Some a" "ip = As16 a" "net_mask net = mask_bytes (cidr_len s) (length a)"
    "IP_Mask (As16 a) (net_mask net) = Some (net_ip net)" "length a = 4 \<or> length a = 16"
    "cidr_len s \<le> 8 * length a"
  using assms that ParseAddr_length
  by (auto simp: ParseCIDR_def Let_def cidr_addr_def cidr_len_def CIDRMask_def split: if_splits option.splits)

lemma Contains_v4:
  assumes "ParseCIDR s = Some (ip, net)" "cidr_addr s = Some a" "length a = 4"
  shows "Go_Net.Contains net x \<longleftrightarrow>
    (\<exists>y. To4 x = Some y \<and> take (cidr_len s) (ip_bits y) = take (cidr_len s) (ip_bits a))"
proof -
  let ?m = "mask_bytes (cidr_len s) 4"
  from assms have m: "net_mask net = ?m" and ip: "IP_Mask (As16 a) ?m = Some (net_ip net)"
    by (auto elim!: ParseCIDR_cases)
  from ip assms(3) have b: "net_ip net = bytes_and a ?m"
    by (simp add: IP_Mask_def As16_def v4InV6Prefix_def Let_def)
  with m assms(3) have nm: "networkNumberAndMask net = Some (bytes_and a ?m, ?m)"
    by (simp add: networkNumberAndMask_def To4_def)
  have idem: "bytes_and (bytes_and a ?m) ?m = bytes_and a ?m" using assms(3) by (simp add: bytes_and_idem)
  show ?thesis
  proof (cases "To4 x")
    case None
    then have "length x \<noteq> 4" by (auto simp: To4_def)
    with None nm assms(3) show ?thesis by (simp add: Go_Net.Contains_def)
  next
    case (Some y)
    then have y: "length y = 4" by (rule To4_length)
    with Some nm idem assms(3) masked_eq_iff_prefix [of y 4 a "cidr_len s"] show ?thesis
      by (auto simp: Go_Net.Contains_def)
  qed
qed

lemma Contains_v6:
  assumes "ParseCIDR s = Some (ip, net)" "cidr_addr s = Some a" "length a = 16" "To4 (net_ip net) = None"
  shows "Go_Net.Contains net x \<longleftrightarrow>
    To4 x = None \<and> length x = 16 \<and> take (cidr_len s) (ip_bits x) = take (cidr_len s) (ip_bits a)"
proof -
  let ?m = "mask_bytes (cidr_len s) 16"
  from assms have m: "net_mask net = ?m" and ip: "IP_Mask (As16 a) ?m = Some (net_ip net)"
    by (auto elim!: ParseCIDR_cases)
  from ip assms(3) have b: "net_ip net = bytes_and a ?m"
    by (simp add: IP_Mask_def As16_def Let_def)
  with m assms(3,4) have nm: "networkNumberAndMask net = Some (bytes_and a ?m, ?m)"
    by (simp add: networkNumberAndMask_def)
  have idem: "bytes_and (bytes_and a ?m) ?m = bytes_and a ?m" using assms(3) by (simp add: bytes_and_idem)
  show ?thesis
  proof (cases "To4 x")
    case None
    with nm idem assms(3) masked_eq_iff_prefix [of x 16 a "cidr_len s"] show ?thesis
      by (auto simp: Go_Net.Contains_def)
  next
    case (Some y)
    then have "length y = 4" by (rule To4_length)
    with Some nm assms(3) show ?thesis by (simp add: Go_Net.Contains_def)
  qed
qed
end
