(* ===== verification/Rule_Types.thy ===== *)
theory Rule_Types
  imports Go_Net
begin

text \<open>
  The value model of the rule language, \<^verbatim>\<open>pkg/rule/types.go\<close>, and the envelope resolver of
  \<^verbatim>\<open>pkg/rule/resolver.go\<close>. The tagged struct \<^verbatim>\<open>Value\<close> is a datatype with one constructor per
  kind: the constructors of the source set the payload of their kind and no other, and every
  accessor reads the payload after it has tested the tag. A Go map is an association list with
  distinct keys (\<open>wf_value\<close>); the source never depends on its order.

  The lemmas show that \<^verbatim>\<open>Equal\<close> is symmetric and transitive on well-formed values, that it is
  reflexive exactly on the values with no NaN and no invalid value inside, and that it only
  relates values of one kind.
\<close>

section \<open>Kinds\<close>

datatype Kind =
    KindInvalid | KindString | KindInt | KindFloat | KindBool | KindIP | KindBytes
  | KindTimestamp | KindDuration | KindArray | KindMap

fun Kind_String :: "Kind \<Rightarrow> string" where
  "Kind_String KindInvalid = ''invalid''"
| "Kind_String KindString = ''string''"
| "Kind_String KindInt = ''int''"
| "Kind_String KindFloat = ''float''"
| "Kind_String KindBool = ''bool''"
| "Kind_String KindIP = ''ip''"
| "Kind_String KindBytes = ''bytes''"
| "Kind_String KindTimestamp = ''timestamp''"
| "Kind_String KindDuration = ''duration''"
| "Kind_String KindArray = ''array''"
| "Kind_String KindMap = ''map''"

section \<open>Values\<close>

datatype Value =
    VInvalid
  | VString string
  | VInt i64
  | VFloat f64
  | VBool bool
  | VIP IP
  | VBytes bytes
  | VTimestamp gotime
  | VDuration i64
  | VArray "Value list"
  | VMap "(string \<times> Value) list"

fun Kind_of :: "Value \<Rightarrow> Kind" where
  "Kind_of VInvalid = KindInvalid"
| "Kind_of (VString _) = KindString"
| "Kind_of (VInt _) = KindInt"
| "Kind_of (VFloat _) = KindFloat"
| "Kind_of (VBool _) = KindBool"
| "Kind_of (VIP _) = KindIP"
| "Kind_of (VBytes _) = KindBytes"
| "Kind_of (VTimestamp _) = KindTimestamp"
| "Kind_of (VDuration _) = KindDuration"
| "Kind_of (VArray _) = KindArray"
| "Kind_of (VMap _) = KindMap"

definition IsZero :: "Value \<Rightarrow> bool" where
  "IsZero v = (Kind_of v = KindInvalid)"

subsection \<open>Accessors: the payload and whether the kind is right\<close>

definition AsString :: "Value \<Rightarrow> string \<times> bool" where
  "AsString v = (case v of VString s \<Rightarrow> (s, True) | _ \<Rightarrow> ([], False))"

definition AsInt :: "Value \<Rightarrow> i64 \<times> bool" where
  "AsInt v = (case v of VInt i \<Rightarrow> (i, True) | _ \<Rightarrow> (0, False))"

definition AsFloat :: "Value \<Rightarrow> f64 \<times> bool" where
  "AsFloat v = (case v of VFloat f \<Rightarrow> (f, True) | _ \<Rightarrow> (0, False))"

definition AsBool :: "Value \<Rightarrow> bool \<times> bool" where
  "AsBool v = (case v of VBool b \<Rightarrow> (b, True) | _ \<Rightarrow> (False, False))"

definition AsIP :: "Value \<Rightarrow> IP \<times> bool" where
  "AsIP v = (case v of VIP b \<Rightarrow> (b, True) | _ \<Rightarrow> ([], False))"

definition AsBytes :: "Value \<Rightarrow> bytes \<times> bool" where
  "AsBytes v = (case v of VBytes b \<Rightarrow> (b, True) | _ \<Rightarrow> ([], False))"

text \<open>The zero \<^verbatim>\<open>time.Time\<close> is the first of January of the year 1, in UTC.\<close>

definition zero_time :: gotime where
  "zero_time = \<lparr>t_ns = - 62135596800000000000, t_off = 0\<rparr>"

definition AsTimestamp :: "Value \<Rightarrow> gotime \<times> bool" where
  "AsTimestamp v = (case v of VTimestamp t \<Rightarrow> (t, True) | _ \<Rightarrow> (zero_time, False))"

definition AsDuration :: "Value \<Rightarrow> i64 \<times> bool" where
  "AsDuration v = (case v of VDuration d \<Rightarrow> (d, True) | _ \<Rightarrow> (0, False))"

definition AsArray :: "Value \<Rightarrow> Value list \<times> bool" where
  "AsArray v = (case v of VArray a \<Rightarrow> (a, True) | _ \<Rightarrow> ([], False))"

definition AsMap :: "Value \<Rightarrow> (string \<times> Value) list \<times> bool" where
  "AsMap v = (case v of VMap m \<Rightarrow> (m, True) | _ \<Rightarrow> ([], False))"

lemmas As_defs [go_simps] = AsString_def AsInt_def AsFloat_def AsBool_def AsIP_def AsBytes_def
  AsTimestamp_def AsDuration_def AsArray_def AsMap_def

subsection \<open>Constructors\<close>

definition NewString :: "string \<Rightarrow> Value" where [go_simps]: "NewString s = VString s"
definition NewInt :: "i64 \<Rightarrow> Value" where [go_simps]: "NewInt i = VInt i"
definition NewFloat :: "f64 \<Rightarrow> Value" where [go_simps]: "NewFloat f = VFloat f"
definition NewBool :: "bool \<Rightarrow> Value" where [go_simps]: "NewBool b = VBool b"
definition NewIP :: "IP \<Rightarrow> Value" where [go_simps]: "NewIP ip = VIP ip"
definition NewBytes :: "bytes \<Rightarrow> Value" where [go_simps]: "NewBytes b = VBytes b"
definition NewTimestamp :: "gotime \<Rightarrow> Value" where [go_simps]: "NewTimestamp t = VTimestamp t"
definition NewDuration :: "i64 \<Rightarrow> Value" where [go_simps]: "NewDuration d = VDuration d"
definition NewArray :: "Value list \<Rightarrow> Value" where [go_simps]: "NewArray a = VArray a"

text \<open>\<^verbatim>\<open>mapsClone\<close>: a nil map becomes an empty one.\<close>

definition mapsClone :: "(string \<times> Value) list option \<Rightarrow> (string \<times> Value) list" where
  "mapsClone m = (case m of None \<Rightarrow> [] | Some kvs \<Rightarrow> kvs)"

definition NewMap :: "(string \<times> Value) list option \<Rightarrow> Value" where
  "NewMap m = VMap (mapsClone m)"

subsection \<open>Equality\<close>

fun Equal :: "Value \<Rightarrow> Value \<Rightarrow> bool"
  and arrayEqual :: "Value list \<Rightarrow> Value list \<Rightarrow> bool"
  and mapEqual_from :: "(string \<times> Value) list \<Rightarrow> (string \<times> Value) list \<Rightarrow> bool" where
  "Equal VInvalid w = False"
| "Equal (VString a) w = (case w of VString b \<Rightarrow> a = b | _ \<Rightarrow> False)"
| "Equal (VInt a) w = (case w of VInt b \<Rightarrow> a = b | _ \<Rightarrow> False)"
| "Equal (VFloat a) w = (case w of VFloat b \<Rightarrow> f_eq a b | _ \<Rightarrow> False)"
| "Equal (VBool a) w = (case w of VBool b \<Rightarrow> a = b | _ \<Rightarrow> False)"
| "Equal (VIP a) w = (case w of VIP b \<Rightarrow> IP_Equal a b | _ \<Rightarrow> False)"
| "Equal (VBytes a) w = (case w of VBytes b \<Rightarrow> a = b | _ \<Rightarrow> False)"
| "Equal (VTimestamp a) w = (case w of VTimestamp b \<Rightarrow> time_Equal a b | _ \<Rightarrow> False)"
| "Equal (VDuration a) w = (case w of VDuration b \<Rightarrow> a = b | _ \<Rightarrow> False)"
| "Equal (VArray a) w = (case w of VArray b \<Rightarrow> arrayEqual a b | _ \<Rightarrow> False)"
| "Equal (VMap a) w = (case w of VMap b \<Rightarrow> length a = length b \<and> mapEqual_from a b | _ \<Rightarrow> False)"
| "arrayEqual [] ys = (ys = [])"
| "arrayEqual (x # xs) ys = (case ys of [] \<Rightarrow> False | y # ys' \<Rightarrow> Equal x y \<and> arrayEqual xs ys')"
| "mapEqual_from [] b = True"
| "mapEqual_from (kv # a) b =
     ((case map_of b (fst kv) of None \<Rightarrow> False | Some vb \<Rightarrow> Equal (snd kv) vb) \<and> mapEqual_from a b)"

definition mapEqual :: "(string \<times> Value) list \<Rightarrow> (string \<times> Value) list \<Rightarrow> bool" where
  "mapEqual a b = (length a = length b \<and> mapEqual_from a b)"

text \<open>Maps as Go has them: no key twice, at any depth.\<close>

fun wf_value :: "Value \<Rightarrow> bool" where
  "wf_value (VArray a) = list_all wf_value a"
| "wf_value (VMap m) = (distinct (map fst m) \<and> list_all (\<lambda>kv. wf_value (snd kv)) m)"
| "wf_value _ = True"

text \<open>No NaN and no invalid value, at any depth.\<close>

fun self_equal :: "Value \<Rightarrow> bool" where
  "self_equal VInvalid = False"
| "self_equal (VFloat f) = (\<not> IsNaN f)"
| "self_equal (VArray a) = list_all self_equal a"
| "self_equal (VMap m) = list_all (\<lambda>kv. self_equal (snd kv)) m"
| "self_equal _ = True"

subsection \<open>Printing\<close>

fun join :: "string \<Rightarrow> string list \<Rightarrow> string" where
  "join sep [] = []"
| "join sep [s] = s"
| "join sep (s # t # ss) = s @ sep @ join sep (t # ss)"

definition hex_digit :: "nat \<Rightarrow> char" where
  "hex_digit d = char_of (if d < 10 then 48 + d else 87 + d)"

definition hex_EncodeToString :: "bytes \<Rightarrow> string" where
  "hex_EncodeToString b =
     concat (map (\<lambda>w. [hex_digit (unat (drop_bit 4 w)), hex_digit (unat (w AND 15))]) b)"

definition RFC3339 :: string where "RFC3339 = ''2006-01-02T15:04:05Z07:00''"
definition RFC3339Nano :: string where "RFC3339Nano = ''2006-01-02T15:04:05.999999999Z07:00''"

text \<open>The text between the brackets, from the printed elements.\<close>

definition arrayString :: "string list \<Rightarrow> string" where
  "arrayString ss = (if ss = [] then ''[]'' else ''['' @ join '', '' ss @ '']'')"

definition mapString :: "(string \<times> string) list \<Rightarrow> string" where
  "mapString kvs =
     (if kvs = [] then ''map[]''
      else ''map['' @ join '' '' (map (\<lambda>(k, s). k @ '':'' @ s) (sort_key fst kvs)) @ '']'')"

fun Value_String :: "golib \<Rightarrow> Value \<Rightarrow> string" where
  "Value_String L VInvalid = ''<invalid>''"
| "Value_String L (VString s) = s"
| "Value_String L (VInt i) = FormatInt (sint i)"
| "Value_String L (VFloat f) = lib_format_float L f"
| "Value_String L (VBool b) = (if b then ''true'' else ''false'')"
| "Value_String L (VIP ip) = lib_ip_string L ip"
| "Value_String L (VBytes b) = hex_EncodeToString b"
| "Value_String L (VTimestamp t) = lib_format_time L RFC3339Nano t"
| "Value_String L (VDuration d) = lib_format_duration L d"
| "Value_String L (VArray a) = arrayString (map (Value_String L) a)"
| "Value_String L (VMap m) = mapString (map (\<lambda>kv. (fst kv, Value_String L (snd kv))) m)"

section \<open>Events and the envelope resolver\<close>

record Envelope =
  Timestamp :: gotime
  Stream :: string
  Source :: string
  SourceType :: string
  Level :: string

record 'p Event = Envelope +
  Payload :: 'p

definition NewEnvelope :: "string \<Rightarrow> string \<Rightarrow> string \<Rightarrow> string \<Rightarrow> gotime \<Rightarrow> Envelope" where
  "NewEnvelope stream source sourceType level ts =
     \<lparr>Timestamp = ts, Stream = stream, Source = source, SourceType = sourceType, Level = level\<rparr>"

text \<open>A resolver: the field's value for an event, or none. The event may be nil.\<close>

type_synonym 'p resolver = "string \<Rightarrow> 'p Event option \<Rightarrow> Value option"

definition corePrefix :: string where "corePrefix = ''core.''"

definition CutPrefix :: "string \<Rightarrow> string \<Rightarrow> string option" where
  "CutPrefix s p = (if HasPrefix s p then Some (drop (length p) s) else None)"

definition resolveCore :: "string \<Rightarrow> 'p Event \<Rightarrow> Value option" where
  "resolveCore name event =
     (if name = ''timestamp'' then Some (NewTimestamp (Timestamp event))
      else if name = ''stream'' then Some (NewString (Stream event))
      else if name = ''source'' then Some (NewString (Source event))
      else if name = ''source_type'' then Some (NewString (SourceType event))
      else if name = ''level'' then Some (NewString (Level event))
      else None)"

definition EnvelopeResolver :: "'p resolver" where
  "EnvelopeResolver field event =
     (case event of
        None \<Rightarrow> None
      | Some e \<Rightarrow> (case CutPrefix field corePrefix of None \<Rightarrow> None | Some rest \<Rightarrow> resolveCore rest e))"

definition isCoreField :: "string \<Rightarrow> bool" where
  "isCoreField field = HasPrefix field corePrefix"

section \<open>Lemmas\<close>

lemma Kind_of_String: "Kind_of v = KindString \<longleftrightarrow> (\<exists>s. v = VString s)"
  by (cases v) auto

lemma Kind_of_Int: "Kind_of v = KindInt \<longleftrightarrow> (\<exists>s. v = VInt s)"
  by (cases v) auto

lemma Kind_of_Float: "Kind_of v = KindFloat \<longleftrightarrow> (\<exists>s. v = VFloat s)"
  by (cases v) auto

lemma Kind_of_Bool: "Kind_of v = KindBool \<longleftrightarrow> (\<exists>s. v = VBool s)"
  by (cases v) auto

lemma Kind_of_IP: "Kind_of v = KindIP \<longleftrightarrow> (\<exists>s. v = VIP s)"
  by (cases v) auto

lemma Kind_of_Bytes: "Kind_of v = KindBytes \<longleftrightarrow> (\<exists>s. v = VBytes s)"
  by (cases v) auto

lemma Kind_of_Timestamp: "Kind_of v = KindTimestamp \<longleftrightarrow> (\<exists>s. v = VTimestamp s)"
  by (cases v) auto

lemma Kind_of_Duration: "Kind_of v = KindDuration \<longleftrightarrow> (\<exists>s. v = VDuration s)"
  by (cases v) auto

lemma Kind_of_Map: "Kind_of v = KindMap \<longleftrightarrow> (\<exists>s. v = VMap s)"
  by (cases v) auto

lemmas Kind_of_iff [go_kind] = Kind_of_String Kind_of_Int Kind_of_Float Kind_of_Bool Kind_of_IP
  Kind_of_Bytes Kind_of_Timestamp Kind_of_Duration Kind_of_Map

lemma IP_Equal_sym: "IP_Equal a b = IP_Equal b a"
  by (auto simp: IP_Equal_def)

lemma Equal_Kind_of: "Equal v w \<Longrightarrow> Kind_of v = Kind_of w"
  by (cases v; cases w) auto

lemma arrayEqual_iff: "arrayEqual xs ys \<longleftrightarrow> list_all2 Equal xs ys"
  by (induction xs arbitrary: ys) (auto split: list.splits)

lemma mapEqual_from_iff:
  "mapEqual_from a b \<longleftrightarrow> (\<forall>(k, v) \<in> set a. \<exists>w. map_of b k = Some w \<and> Equal v w)"
  by (induction a) (auto split: option.splits)

lemma mapEqual_from_dom:
  assumes "mapEqual a b" "distinct (map fst a)" "distinct (map fst b)"
  shows "fst ` set a = fst ` set b"
proof (rule card_subset_eq)
  show "finite (fst ` set b)" by simp
  show "fst ` set a \<subseteq> fst ` set b"
    using assms(1) by (fastforce simp: mapEqual_def mapEqual_from_iff dest: map_of_SomeD intro: rev_image_eqI)
  have "card (fst ` set a) = length a" and "card (fst ` set b) = length b"
    using assms(2,3) distinct_card [of "map fst a"] distinct_card [of "map fst b"] by simp_all
  with assms(1) show "card (fst ` set a) = card (fst ` set b)" by (simp add: mapEqual_def)
qed

lemma mapEqual_iff_lookup:
  assumes "distinct (map fst a)" "distinct (map fst b)"
  shows "mapEqual a b \<longleftrightarrow>
    fst ` set a = fst ` set b \<and>
    (\<forall>k v w. map_of a k = Some v \<longrightarrow> map_of b k = Some w \<longrightarrow> Equal v w)" (is "_ \<longleftrightarrow> ?R")
proof
  assume eq: "mapEqual a b"
  have "Equal v w" if "map_of a k = Some v" "map_of b k = Some w" for k v w
    using eq that by (fastforce simp: mapEqual_def mapEqual_from_iff dest: map_of_SomeD)
  with mapEqual_from_dom [OF eq assms] show ?R by blast
next
  assume R: ?R
  have "length a = card (fst ` set a)" and "length b = card (fst ` set b)"
    using assms distinct_card [of "map fst a"] distinct_card [of "map fst b"] by simp_all
  with R have len: "length a = length b" by simp
  have "\<exists>w. map_of b k = Some w \<and> Equal v w" if "(k, v) \<in> set a" for k v
  proof -
    from that have v: "map_of a k = Some v" using assms(1) by simp
    from that R have "k \<in> fst ` set b" by force
    then obtain w where "map_of b k = Some w" by (metis map_of_eq_None_iff not_None_eq)
    with v R show ?thesis by blast
  qed
  with len show "mapEqual a b" by (auto simp: mapEqual_def mapEqual_from_iff)
qed

lemma Equal_sym_imp: "wf_value v \<Longrightarrow> wf_value w \<Longrightarrow> Equal v w \<Longrightarrow> Equal w v"
proof (induction v arbitrary: w)
  case (VArray a)
  then obtain b where w: "w = VArray b" by (cases w) auto
  have "list_all2 Equal b a"
    using VArray w
    by (fastforce simp: list_all2_conv_all_nth list_all_length arrayEqual_iff)
  then show ?case by (simp add: w arrayEqual_iff)
next
  case (VMap a)
  then obtain b where w: "w = VMap b" by (cases w) auto
  from VMap.prems w have da: "distinct (map fst a)" and db: "distinct (map fst b)"
    and eq: "mapEqual a b" by (auto simp: mapEqual_def)
  have "Equal x y" if "map_of b k = Some x" "map_of a k = Some y" for k x y
  proof -
    have m: "(k, y) \<in> set a" "(k, x) \<in> set b" using that by (auto dest: map_of_SomeD)
    have "Equal y x" using eq that by (simp add: mapEqual_iff_lookup [OF da db])
    moreover have "wf_value y" "wf_value x"
      using VMap.prems w m by (fastforce simp: list_all_iff)+
    ultimately show ?thesis using VMap.IH [of "(k, y)" y x] m(1) by simp
  qed
  with eq have "mapEqual b a"
    by (simp add: mapEqual_iff_lookup [OF da db] mapEqual_iff_lookup [OF db da])
  then show ?case by (simp add: w mapEqual_def)
qed (auto simp: IP_Equal_sym time_Equal_def f_eq_sym split: Value.splits)

lemma Equal_refl_iff: "wf_value v \<Longrightarrow> Equal v v \<longleftrightarrow> self_equal v"
proof (induction v)
  case (VArray a)
  then show ?case by (auto simp: arrayEqual_iff list_all2_conv_all_nth list_all_length)
next
  case (VMap m)
  then have d: "distinct (map fst m)" by simp
  have "mapEqual m m \<longleftrightarrow> (\<forall>k v. map_of m k = Some v \<longrightarrow> Equal v v)"
    by (auto simp: mapEqual_iff_lookup [OF d d])
  also have "\<dots> \<longleftrightarrow> (\<forall>(k, v) \<in> set m. Equal v v)"
    by (auto simp: map_of_eq_Some_iff [OF d])
  also have "\<dots> \<longleftrightarrow> self_equal (VMap m)"
    using VMap by (fastforce simp: list_all_iff)
  finally show ?case by (simp add: mapEqual_def)
qed (auto simp: f_eq_refl IP_Equal_def time_Equal_def)

definition ip_canon :: "IP \<Rightarrow> IP" where
  "ip_canon ip = (if length ip = 16 \<and> take 12 ip = v4InV6Prefix then drop 12 ip else ip)"

lemma mapped_eqI: "take 12 a = v4InV6Prefix \<Longrightarrow> take 12 b = v4InV6Prefix \<Longrightarrow> drop 12 a = drop 12 b \<Longrightarrow> a = b"
  by (metis append_take_drop_id)

lemma length_drop_16: "length a = 16 \<Longrightarrow> length (drop 12 a) = 4"
  by simp

lemma IP_Equal_canon: "IP_Equal a b \<longleftrightarrow> ip_canon a = ip_canon b"
proof (cases "length a = 16 \<and> take 12 a = v4InV6Prefix")
  case A: True
  show ?thesis
  proof (cases "length b = 16 \<and> take 12 b = v4InV6Prefix")
    case True
    with A show ?thesis using mapped_eqI [of a b] by (auto simp: IP_Equal_def ip_canon_def)
  next
    case False
    with A show ?thesis using length_drop_16 [of a] by (auto simp: IP_Equal_def ip_canon_def)
  qed
next
  case A: False
  show ?thesis
  proof (cases "length b = 16 \<and> take 12 b = v4InV6Prefix")
    case True
    with A show ?thesis using length_drop_16 [of b] by (auto simp: IP_Equal_def ip_canon_def)
  next
    case False
    with A show ?thesis by (auto simp: IP_Equal_def ip_canon_def)
  qed
qed

lemma IP_Equal_trans: "IP_Equal a b \<Longrightarrow> IP_Equal b c \<Longrightarrow> IP_Equal a c"
  by (simp add: IP_Equal_canon)

lemma Equal_trans_imp:
  "wf_value u \<Longrightarrow> wf_value v \<Longrightarrow> wf_value w \<Longrightarrow> Equal u v \<Longrightarrow> Equal v w \<Longrightarrow> Equal u w"
proof (induction u arbitrary: v w)
  case (VArray a)
  then obtain b c where w: "v = VArray b" "w = VArray c" by (auto split: Value.splits)
  have len: "length a = length b" "length b = length c"
    using VArray.prems w by (auto simp: arrayEqual_iff dest: list_all2_lengthD)
  have "Equal (a ! i) (c ! i)" if i: "i < length a" for i
  proof (rule VArray.IH [of "a ! i" "b ! i" "c ! i"])
    show "Equal (a ! i) (b ! i)" "Equal (b ! i) (c ! i)"
      using VArray.prems(4,5) w len i by (auto simp: arrayEqual_iff list_all2_conv_all_nth)
    show "wf_value (a ! i)" "wf_value (b ! i)" "wf_value (c ! i)"
      using VArray.prems(1-3) w len i by (simp_all add: list_all_length)
  qed (use i in simp)
  then have "list_all2 Equal a c" using len by (simp add: list_all2_conv_all_nth)
  then show ?case by (simp add: w arrayEqual_iff)
next
  case (VMap a)
  then obtain b c where w: "v = VMap b" "w = VMap c" by (auto split: Value.splits)
  from VMap.prems w have d: "distinct (map fst a)" "distinct (map fst b)" "distinct (map fst c)"
    and eq: "mapEqual a b" "mapEqual b c" by (auto simp: mapEqual_def)
  have dom: "fst ` set a = fst ` set b" "fst ` set b = fst ` set c"
    using mapEqual_from_dom [OF eq(1) d(1,2)] mapEqual_from_dom [OF eq(2) d(2,3)] by simp_all
  have "Equal x z" if "map_of a k = Some x" "map_of c k = Some z" for k x z
  proof -
    from that dom obtain y where y: "map_of b k = Some y"
      by (metis map_of_eq_None_iff not_None_eq)
    have e: "Equal x y" "Equal y z"
      using eq that y by (simp_all add: mapEqual_iff_lookup d)
    have "(k, x) \<in> set a" "(k, y) \<in> set b" "(k, z) \<in> set c"
      using that y by (auto dest: map_of_SomeD)
    moreover from this have "wf_value x" "wf_value y" "wf_value z"
      using VMap.prems w by (fastforce simp: list_all_iff)+
    ultimately show ?thesis using e VMap.IH [of "(k, x)" x y z] by simp
  qed
  with dom have "mapEqual a c" by (simp add: mapEqual_iff_lookup d)
  then show ?case by (simp add: w mapEqual_def)
qed (auto simp: time_Equal_def intro: f_eq_trans IP_Equal_trans split: Value.splits)

end
