(* ===== verification/Rule_Scheme.thy ===== *)
theory Rule_Scheme
  imports Rule_Types "HOL-Library.Multiset"
begin

text \<open>
  The field catalog and its projections, \<^verbatim>\<open>pkg/rule/scheme.go\<close>. A catalog is the map from full
  field names to their description and the revision counter; the map is an association list, its
  order standing for the iteration order of the Go map. \<^verbatim>\<open>Register\<close> returns the error, or the
  catalog after the registration (it leaves the catalog alone on every error).

  The lemmas show that every reachable catalog is well formed (each key is the full name of its
  entry, names are valid, no name twice, the revision counts the registrations), that the sort of
  the source orders any slice, and that a projection does not depend on the iteration order.
\<close>

section \<open>Field types and names\<close>

type_synonym FieldType = string

definition TypeString :: FieldType where "TypeString = ''string''"
definition TypeInt :: FieldType where "TypeInt = ''int''"
definition TypeFloat :: FieldType where "TypeFloat = ''float''"
definition TypeBool :: FieldType where "TypeBool = ''bool''"
definition TypeIP :: FieldType where "TypeIP = ''ip''"
definition TypeBytes :: FieldType where "TypeBytes = ''bytes''"
definition TypeTimestamp :: FieldType where "TypeTimestamp = ''timestamp''"
definition TypeDuration :: FieldType where "TypeDuration = ''duration''"
definition TypeArray :: FieldType where "TypeArray = ''array''"
definition TypeMap :: FieldType where "TypeMap = ''map''"

lemmas FieldType_defs = TypeString_def TypeInt_def TypeFloat_def TypeBool_def TypeIP_def
  TypeBytes_def TypeTimestamp_def TypeDuration_def TypeArray_def TypeMap_def

record FieldInfo =
  Namespace :: string
  Name :: string
  Type :: FieldType

definition FullName :: "FieldInfo \<Rightarrow> string" where
  "FullName f = Namespace f @ ''.'' @ Name f"

definition FieldInfo_Equal :: "FieldInfo \<Rightarrow> FieldInfo \<Rightarrow> bool" where
  "FieldInfo_Equal f g = (Namespace f = Namespace g \<and> Name f = Name g \<and> Type f = Type g)"

datatype SchemeError =
    ErrEmptyNamespace | ErrInvalidNamespace | ErrInvalidName | ErrFieldExists
  | ErrFieldTypeMismatch | ErrUnknownFieldType

definition validIdentByte :: "char \<Rightarrow> bool" where
  "validIdentByte c =
     ((97 \<le> ch c \<and> ch c \<le> 122) \<or> (48 \<le> ch c \<and> ch c \<le> 57) \<or> c = CHR ''_'' \<or> c = CHR ''-'')"

definition validNamespace :: "string \<Rightarrow> bool" where
  "validNamespace ns = (ns \<noteq> [] \<and> list_all validIdentByte ns)"

definition validName :: "string \<Rightarrow> bool" where
  "validName n = (n \<noteq> [] \<and> list_all validIdentByte n)"

definition isKnownFieldType :: "FieldType \<Rightarrow> bool" where
  "isKnownFieldType t =
     (t \<in> set [TypeString, TypeInt, TypeFloat, TypeBool, TypeIP, TypeBytes, TypeTimestamp,
               TypeDuration, TypeArray, TypeMap])"

section \<open>Sorting\<close>

text \<open>
  The inner loop: the element at index \<open>j\<close> moves down while its left neighbour is greater. The
  outer loop does so for every index from 1.
\<close>

fun sift_down :: "FieldInfo list \<Rightarrow> nat \<Rightarrow> FieldInfo list" where
  "sift_down s 0 = s"
| "sift_down s (Suc j) =
     (if FullName (s ! j) > FullName (s ! Suc j)
      then sift_down (s[j := s ! Suc j, Suc j := s ! j]) j
      else s)"

definition insertion_sort :: "FieldInfo list \<Rightarrow> FieldInfo list" where
  "insertion_sort s = foldl sift_down s [1..<length s]"

text \<open>
  From 32 elements on the source calls \<^verbatim>\<open>sort.Slice\<close>, which is not stable; where no full name
  occurs twice its result is the sorted list.
\<close>

definition sortFieldInfos :: "FieldInfo list \<Rightarrow> FieldInfo list" where
  "sortFieldInfos s = (if length s < 32 then insertion_sort s else sort_key FullName s)"

section \<open>Catalog and Scheme\<close>

record Catalog =
  cat_rev :: u64
  cat_fields :: "(string \<times> FieldInfo) list"

definition NewCatalog :: Catalog where
  "NewCatalog = \<lparr>cat_rev = 0, cat_fields = []\<rparr>"

definition Register :: "Catalog \<Rightarrow> string \<Rightarrow> string \<Rightarrow> FieldType \<Rightarrow> SchemeError + Catalog" where
  "Register c namespace name typ =
     (if \<not> validNamespace namespace then
        (if namespace = [] then Inl ErrEmptyNamespace else Inl ErrInvalidNamespace)
      else if \<not> validName name then Inl ErrInvalidName
      else if \<not> isKnownFieldType typ then Inl ErrUnknownFieldType
      else let full = namespace @ ''.'' @ name
           in case map_of (cat_fields c) full of
                Some existing \<Rightarrow>
                  if Type existing = typ then Inl ErrFieldExists else Inl ErrFieldTypeMismatch
              | None \<Rightarrow>
                  Inr (c\<lparr>cat_fields := (full, \<lparr>Namespace = namespace, Name = name, Type = typ\<rparr>)
                                       # cat_fields c,
                         cat_rev := cat_rev c + 1\<rparr>))"

definition Fields :: "Catalog \<Rightarrow> FieldInfo list" where
  "Fields c = sortFieldInfos (map snd (cat_fields c))"

definition Has :: "Catalog \<Rightarrow> string \<Rightarrow> bool" where
  "Has c fullName = (map_of (cat_fields c) fullName \<noteq> None)"

definition Revision :: "Catalog \<Rightarrow> u64" where
  "Revision c = cat_rev c"

record Scheme =
  sch_fields :: "FieldInfo list"
  sch_rev :: u64

definition Project :: "Catalog \<Rightarrow> string list \<Rightarrow> Scheme" where
  "Project c namespaces =
     (let nsSet = filter validNamespace namespaces;
          snap = (if nsSet = [] then []
                  else filter (\<lambda>fi. Namespace fi \<in> set nsSet) (map snd (cat_fields c)))
      in \<lparr>sch_fields = sortFieldInfos snap, sch_rev = cat_rev c\<rparr>)"

text \<open>A nil scheme is \<open>None\<close>.\<close>

definition Scheme_Fields :: "Scheme option \<Rightarrow> FieldInfo list" where
  "Scheme_Fields s = (case s of None \<Rightarrow> [] | Some sch \<Rightarrow> sch_fields sch)"

definition Scheme_Revision :: "Scheme option \<Rightarrow> u64" where
  "Scheme_Revision s = (case s of None \<Rightarrow> 0 | Some sch \<Rightarrow> sch_rev sch)"

definition Scheme_Has :: "Scheme option \<Rightarrow> string \<Rightarrow> bool" where
  "Scheme_Has s fullName =
     (case s of None \<Rightarrow> False | Some sch \<Rightarrow> list_ex (\<lambda>f. FullName f = fullName) (sch_fields sch))"

section \<open>Well-formed catalogs\<close>

definition valid_info :: "FieldInfo \<Rightarrow> bool" where
  "valid_info f = (validNamespace (Namespace f) \<and> validName (Name f) \<and> isKnownFieldType (Type f))"

definition wf_catalog :: "Catalog \<Rightarrow> bool" where
  "wf_catalog c =
     (distinct (map fst (cat_fields c)) \<and>
      list_all (\<lambda>(k, f). k = FullName f \<and> valid_info f) (cat_fields c) \<and>
      cat_rev c = of_nat (length (cat_fields c)))"

text \<open>The catalogs a program can build.\<close>

inductive catalog_reachable :: "Catalog \<Rightarrow> bool" where
  new: "catalog_reachable NewCatalog"
| register: "catalog_reachable c \<Longrightarrow> Register c ns n t = Inr c' \<Longrightarrow> catalog_reachable c'"

lemma Register_Inr_iff:
  "Register c ns n t = Inr c' \<longleftrightarrow>
     validNamespace ns \<and> validName n \<and> isKnownFieldType t \<and>
     map_of (cat_fields c) (ns @ ''.'' @ n) = None \<and>
     c' = c\<lparr>cat_fields := (ns @ ''.'' @ n, \<lparr>Namespace = ns, Name = n, Type = t\<rparr>) # cat_fields c,
            cat_rev := cat_rev c + 1\<rparr>"
  by (auto simp: Register_def Let_def split: option.splits if_splits)

lemma Register_wf: "wf_catalog c \<Longrightarrow> Register c ns n t = Inr c' \<Longrightarrow> wf_catalog c'"
  by (auto simp: Register_Inr_iff wf_catalog_def valid_info_def FullName_def map_of_eq_None_iff)

lemma catalog_reachable_wf: "catalog_reachable c \<Longrightarrow> wf_catalog c"
proof (induction rule: catalog_reachable.induct)
  case new
  show ?case by (simp add: wf_catalog_def NewCatalog_def)
next
  case (register c ns n t c')
  then show ?case by (blast intro: Register_wf)
qed

section \<open>The sort is a sort\<close>

text \<open>\<open>ins_right x p\<close>: insertion of \<open>x\<close> into \<open>p\<close> from the right, as the inner loop moves it.\<close>

function ins_right :: "FieldInfo \<Rightarrow> FieldInfo list \<Rightarrow> FieldInfo list" where
  "ins_right x p =
     (if p \<noteq> [] \<and> FullName (last p) > FullName x then ins_right x (butlast p) @ [last p]
      else p @ [x])"
  by pat_completeness auto
termination by (relation "measure (\<lambda>(x, p). length p)") auto

declare ins_right.simps [simp del]

lemma ins_right_Nil [simp]: "ins_right x [] = [x]"
  by (subst ins_right.simps) simp

lemma ins_right_snoc:
  "ins_right x (p @ [y]) =
     (if FullName y > FullName x then ins_right x p @ [y] else p @ [y, x])"
  by (subst ins_right.simps) simp

lemma sift_down_ins_right: "sift_down (p @ x # q) (length p) = ins_right x p @ q"
proof (induction p arbitrary: q rule: rev_induct)
  case Nil
  then show ?case by simp
next
  case (snoc y p)
  have "(p @ y # x # q)[length p := x, Suc (length p) := y] = p @ x # y # q"
    by (simp add: list_update_append)
  with snoc.IH [of "y # q"] show ?case
    by (simp add: nth_append ins_right_snoc)
qed

lemma mset_ins_right [simp]: "mset (ins_right x p) = add_mset x (mset p)"
  by (induction p rule: rev_induct) (auto simp: ins_right_snoc)

lemma set_ins_right [simp]: "set (ins_right x p) = insert x (set p)"
  by (metis mset_ins_right set_mset_add_mset_insert set_mset_mset)

lemma length_ins_right [simp]: "length (ins_right x p) = Suc (length p)"
  by (metis mset_ins_right size_add_mset size_mset)

definition sorted_names :: "FieldInfo list \<Rightarrow> bool" where
  "sorted_names s = sorted (map FullName s)"

lemma sorted_names_snoc:
  "sorted_names (p @ [y]) \<longleftrightarrow> sorted_names p \<and> (\<forall>z \<in> set p. FullName z \<le> FullName y)"
  by (auto simp: sorted_names_def sorted_append)

lemma sorted_ins_right: "sorted_names p \<Longrightarrow> sorted_names (ins_right x p)"
proof (induction p rule: rev_induct)
  case Nil
  then show ?case by (simp add: sorted_names_def)
next
  case (snoc y p)
  from snoc.prems have p: "sorted_names p" and le: "\<forall>z \<in> set p. FullName z \<le> FullName y"
    by (auto simp: sorted_names_snoc)
  show ?case
  proof (cases "FullName y > FullName x")
    case True
    then show ?thesis using snoc.IH [OF p] le
      by (auto simp: ins_right_snoc sorted_names_snoc)
  next
    case False
    then have "FullName y \<le> FullName x" by simp
    moreover have "\<forall>z \<in> set p. FullName z \<le> FullName x"
      using le \<open>FullName y \<le> FullName x\<close> by (meson order_trans)
    ultimately have "sorted_names ((p @ [y]) @ [x])"
      using p le by (simp only: sorted_names_snoc) simp
    with False show ?thesis by (simp add: ins_right_snoc)
  qed
qed

lemma foldl_sift_down:
  assumes "sorted_names p"
  shows "\<exists>r. foldl sift_down (p @ q) [length p..<length p + length q] = r \<and>
             mset r = mset (p @ q) \<and> sorted_names r"
  using assms
proof (induction q arbitrary: p)
  case Nil
  then show ?case by simp
next
  case (Cons x q)
  have upt: "[length p..<length p + length (x # q)] =
             length p # [length (ins_right x p)..<length (ins_right x p) + length q]"
    by (simp add: upt_conv_Cons del: upt_Suc)
  obtain r where "foldl sift_down (ins_right x p @ q)
                    [length (ins_right x p)..<length (ins_right x p) + length q] = r"
    "mset r = mset (ins_right x p @ q)" "sorted_names r"
    using Cons.IH [OF sorted_ins_right [OF Cons.prems, of x]] by blast
  then show ?case by (simp only: upt foldl_Cons sift_down_ins_right) simp
qed

lemma insertion_sort_ok:
  "mset (insertion_sort s) = mset s" "sorted_names (insertion_sort s)"
proof -
  have "\<exists>r. insertion_sort s = r \<and> mset r = mset s \<and> sorted_names r"
  proof (cases s)
    case Nil
    then show ?thesis by (simp add: insertion_sort_def sorted_names_def)
  next
    case (Cons x q)
    then show ?thesis
      using foldl_sift_down [of "[x]" q] by (simp add: insertion_sort_def sorted_names_def)
  qed
  then show "mset (insertion_sort s) = mset s" "sorted_names (insertion_sort s)" by auto
qed

lemma mset_sortFieldInfos [simp]: "mset (sortFieldInfos s) = mset s"
  by (simp add: sortFieldInfos_def insertion_sort_ok)

lemma sorted_sortFieldInfos: "sorted_names (sortFieldInfos s)"
  by (simp add: sortFieldInfos_def insertion_sort_ok) (simp add: sorted_names_def)

lemma set_sortFieldInfos [simp]: "set (sortFieldInfos s) = set s"
  by (metis mset_sortFieldInfos set_mset_mset)

lemma sortFieldInfos_unique:
  assumes "mset s = mset t" "distinct (map FullName s)"
  shows "sortFieldInfos s = sortFieldInfos t"
proof (rule map_inj_on [where f = FullName])
  have dist: "distinct (map FullName (sortFieldInfos s))" "distinct (map FullName (sortFieldInfos t))"
    using assms(2) mset_eq_imp_distinct_iff [of "map FullName (sortFieldInfos s)" "map FullName s"]
      mset_eq_imp_distinct_iff [of "map FullName (sortFieldInfos t)" "map FullName s"] assms(1)
    by simp_all
  have st: "set s = set t" using assms(1) by (rule mset_eq_setD)
  show "map FullName (sortFieldInfos s) = map FullName (sortFieldInfos t)"
  proof (rule sorted_distinct_set_unique)
    show "set (map FullName (sortFieldInfos s)) = set (map FullName (sortFieldInfos t))"
      using st by simp
  qed (use dist sorted_sortFieldInfos in \<open>simp_all add: sorted_names_def\<close>)
  have "inj_on FullName (set s)" using assms(2) by (simp add: distinct_map)
  then show "inj_on FullName (set (sortFieldInfos s) \<union> set (sortFieldInfos t))"
    using st by simp
qed

section \<open>Projections\<close>

lemma validIdentByte_not_dot: "validIdentByte c \<Longrightarrow> c \<noteq> CHR ''.''"
  by (auto simp: validIdentByte_def ch_def)

lemma FullName_inj:
  assumes "valid_info f" "valid_info g" "FullName f = FullName g"
  shows "Namespace f = Namespace g \<and> Name f = Name g"
proof -
  have no_dot: "CHR ''.'' \<notin> set (Namespace f)" "CHR ''.'' \<notin> set (Namespace g)"
    using assms(1,2) validIdentByte_not_dot
    by (auto simp: valid_info_def validNamespace_def list_all_iff)
  have "takeWhile (\<lambda>c. c \<noteq> CHR ''.'') (FullName x) = Namespace x"
    if "CHR ''.'' \<notin> set (Namespace x)" for x
    using that by (subst FullName_def, subst takeWhile_append2) auto
  then have "Namespace f = Namespace g" using no_dot assms(3) by metis
  with assms(3) show ?thesis by (simp add: FullName_def)
qed

lemma wf_catalog_distinct:
  assumes "wf_catalog c"
  shows "distinct (map FullName (map snd (cat_fields c)))"
proof -
  have "map FullName (map snd (cat_fields c)) = map fst (cat_fields c)"
    using assms by (auto simp: wf_catalog_def list_all_iff)
  with assms show ?thesis unfolding wf_catalog_def by metis
qed

definition in_namespaces :: "Catalog \<Rightarrow> string list \<Rightarrow> FieldInfo list" where
  "in_namespaces c nss =
     filter (\<lambda>fi. Namespace fi \<in> set (filter validNamespace nss)) (map snd (cat_fields c))"

lemma Project_eq: "Project c nss = \<lparr>sch_fields = sortFieldInfos (in_namespaces c nss), sch_rev = cat_rev c\<rparr>"
proof (cases "filter validNamespace nss = []")
  case True
  then show ?thesis by (simp add: Project_def in_namespaces_def del: set_filter)
next
  case False
  then show ?thesis by (simp add: Project_def in_namespaces_def Let_def del: set_filter)
qed

lemma distinct_in_namespaces:
  assumes "wf_catalog c"
  shows "distinct (map FullName (in_namespaces c nss))"
  using wf_catalog_distinct [OF assms] distinct_map_filter unfolding in_namespaces_def by blast

lemma wf_catalog_lookup:
  assumes "wf_catalog c"
  shows "map_of (cat_fields c) k = Some f \<longleftrightarrow> f \<in> snd ` set (cat_fields c) \<and> FullName f = k"
  using assms
  by (force simp: wf_catalog_def map_of_eq_Some_iff list_all_iff image_iff split: prod.splits)

lemma set_Project:
  assumes "wf_catalog c"
  shows "set (sch_fields (Project c nss)) =
         {f. map_of (cat_fields c) (FullName f) = Some f \<and> Namespace f \<in> set nss}"
  using assms
  by (auto simp: Project_eq in_namespaces_def wf_catalog_lookup)
     (auto simp: wf_catalog_def list_all_iff valid_info_def)

end
