(* ===== verification/Rule_Lexer.thy ===== *)
theory Rule_Lexer
  imports Rule_Types
begin

text \<open>
  The lexer, \<^verbatim>\<open>pkg/rule/lexer/token.go\<close> and \<^verbatim>\<open>pkg/rule/lexer/lexer.go\<close>. The lexer struct is a
  record with the source bytes, the offset, the line and column counters and the pending error;
  every scanner maps a state to a token and the state after it. A read past the end of the source
  panics in Go: the model's \<open>advance\<close> then sets the ghost flag \<open>l_panic\<close>, and \<open>Lex\<close> returns \<open>None\<close>.

  The lemmas show that every scanner keeps the offset inside the source and never panics, that
  every token consumes at least one byte (so \<open>Lex\<close> terminates), that the line counter is exact, and
  what the literals of the language denote.
\<close>

section \<open>Tokens\<close>

datatype TokenKind =
    TEOF | TError | TIdent | TString | TInt | TFloat | TDuration | TTimestamp | TIP | TBytes
  | TBool | TKeyword | TLParen | TRParen | TLBrack | TRBrack | TComma | TAmpersand

fun TokenKind_String :: "TokenKind \<Rightarrow> string" where
  "TokenKind_String TEOF = ''eof''"
| "TokenKind_String TError = ''error''"
| "TokenKind_String TIdent = ''ident''"
| "TokenKind_String TString = ''string''"
| "TokenKind_String TInt = ''int''"
| "TokenKind_String TFloat = ''float''"
| "TokenKind_String TDuration = ''duration''"
| "TokenKind_String TTimestamp = ''timestamp''"
| "TokenKind_String TIP = ''ip''"
| "TokenKind_String TBytes = ''bytes''"
| "TokenKind_String TBool = ''bool''"
| "TokenKind_String TKeyword = ''keyword''"
| "TokenKind_String TLParen = ''lparen''"
| "TokenKind_String TRParen = ''rparen''"
| "TokenKind_String TLBrack = ''lbrack''"
| "TokenKind_String TRBrack = ''rbrack''"
| "TokenKind_String TComma = ''comma''"
| "TokenKind_String TAmpersand = ''ampersand''"

record Token =
  tok_Kind :: TokenKind
  tok_Value :: string
  tok_Bytes :: bytes
  tok_Bool :: bool
  tok_Line :: nat
  tok_Column :: nat

definition keyword_list :: "string list" where
  "keyword_list = [''and'', ''or'', ''not'', ''in'', ''eq'', ''ne'', ''lt'', ''le'', ''gt'', ''ge'',
     ''contains'', ''starts_with'', ''ends_with'', ''matches'', ''wildcard'', ''strict'']"

definition IsReserved :: "string \<Rightarrow> bool" where
  "IsReserved s = (s \<in> set keyword_list)"

text \<open>A token with its kind and position, and the zero value in its other fields.\<close>

definition mk_tok :: "TokenKind \<Rightarrow> nat \<Rightarrow> nat \<Rightarrow> Token" where
  "mk_tok k line col =
     \<lparr>tok_Kind = k, tok_Value = [], tok_Bytes = [], tok_Bool = False, tok_Line = line, tok_Column = col\<rparr>"

definition val_tok :: "TokenKind \<Rightarrow> string \<Rightarrow> nat \<Rightarrow> nat \<Rightarrow> Token" where
  "val_tok k v line col = (mk_tok k line col)\<lparr>tok_Value := v\<rparr>"

definition lex_Error :: "nat \<Rightarrow> nat \<Rightarrow> string \<Rightarrow> Token" where
  "lex_Error line col msg = val_tok TError msg line col"

lemma tok_sel [simp]:
  "tok_Kind (mk_tok k line col) = k" "tok_Line (mk_tok k line col) = line"
  "tok_Kind (val_tok k v line col) = k" "tok_Line (val_tok k v line col) = line"
  "tok_Kind (lex_Error line col msg) = TError" "tok_Line (lex_Error line col msg) = line"
  "tok_Value (val_tok k v line col) = v"
  by (simp_all add: mk_tok_def val_tok_def lex_Error_def)

section \<open>The texts of the error tokens\<close>

text \<open>\<^verbatim>\<open>%c\<close>, \<^verbatim>\<open>%q\<close> and \<^verbatim>\<open>%#U\<close> of a rune below 256, and the em dash of the messages.\<close>

definition utf8_byte :: "char \<Rightarrow> string" where
  "utf8_byte c = (if ch c < 128 then [c] else [char_of (192 + ch c div 64), char_of (128 + ch c mod 64)])"

definition IsPrint :: "char \<Rightarrow> bool" where
  "IsPrint c = ((32 \<le> ch c \<and> ch c < 127) \<or> (161 \<le> ch c \<and> ch c \<noteq> 173))"

definition hex_upper :: "nat \<Rightarrow> char" where
  "hex_upper d = char_of (if d < 10 then 48 + d else 55 + d)"

definition quote_rune :: "char \<Rightarrow> string" where
  "quote_rune c =
     (let q = [char_of (39 :: nat)]; bs = [char_of (92 :: nat)];
          hex2 = [hex_digit (ch c div 16), hex_digit (ch c mod 16)];
          body = (if ch c = 39 \<or> ch c = 92 then bs @ [c]
                  else if IsPrint c then utf8_byte c
                  else if ch c = 7 then bs @ ''a'' else if ch c = 8 then bs @ ''b''
                  else if ch c = 12 then bs @ ''f'' else if ch c = 10 then bs @ ''n''
                  else if ch c = 13 then bs @ ''r'' else if ch c = 9 then bs @ ''t''
                  else if ch c = 11 then bs @ ''v''
                  else if ch c < 32 \<or> ch c = 127 then bs @ ''x'' @ hex2
                  else bs @ ''u00'' @ hex2)
      in q @ body @ q)"

definition em_dash :: string where
  "em_dash = [CHR 0xE2, CHR 0x80, CHR 0x94]"

definition nl :: char where "nl = CHR 0x0A"
definition cr :: char where "cr = CHR 0x0D"
definition tab :: char where "tab = CHR 0x09"
definition dquote :: char where "dquote = CHR 0x22"
definition backslash :: char where "backslash = CHR 0x5C"

lemmas char_defs = nl_def cr_def tab_def dquote_def backslash_def

lemma char_distinct [simp]:
  "nl \<noteq> cr" "nl \<noteq> tab" "nl \<noteq> dquote" "nl \<noteq> backslash" "cr \<noteq> nl" "tab \<noteq> nl" "dquote \<noteq> nl"
  "backslash \<noteq> nl" "dquote \<noteq> backslash" "backslash \<noteq> dquote" "cr \<noteq> dquote" "tab \<noteq> dquote"
  "dquote \<noteq> cr" "dquote \<noteq> tab" "cr \<noteq> backslash" "tab \<noteq> backslash" "backslash \<noteq> cr" "backslash \<noteq> tab"
  "cr \<noteq> tab" "tab \<noteq> cr"
  by (simp_all add: char_defs)

text \<open>\<^verbatim>\<open>hex.DecodeString\<close>, with the text of its error.\<close>

definition hex_invalid :: "char \<Rightarrow> string" where
  "hex_invalid c =
     ''encoding/hex: invalid byte: U+00'' @ [hex_upper (ch c div 16), hex_upper (ch c mod 16)] @
     (if IsPrint c then [CHR '' '', char_of (39 :: nat)] @ utf8_byte c @ [char_of (39 :: nat)] else [])"

fun hex_DecodeString :: "string \<Rightarrow> string + bytes" where
  "hex_DecodeString [] = Inr []"
| "hex_DecodeString [p] =
     (if is_hex p then Inl ''encoding/hex: odd length hex string'' else Inl (hex_invalid p))"
| "hex_DecodeString (p # q # s) =
     (if \<not> is_hex p then Inl (hex_invalid p)
      else if \<not> is_hex q then Inl (hex_invalid q)
      else try_then (hex_DecodeString s)
             (\<lambda>b. Inr (word_of_nat (16 * hex_val p + hex_val q) # b)))"

section \<open>The lexer state\<close>

record lexer =
  l_src :: string
  l_pos :: nat
  l_line :: nat
  l_col :: nat
  l_pending :: "Token option"
  l_panic :: bool

definition in_src :: "lexer \<Rightarrow> bool" where
  "in_src l = (l_pos l < length (l_src l))"

text \<open>\<open>cur l\<close> is \<^verbatim>\<open>l.src[l.pos]\<close>; the source reads it behind the test \<open>in_src\<close>.\<close>

definition cur :: "lexer \<Rightarrow> char" where
  "cur l = l_src l ! l_pos l"

text \<open>The byte \<open>k\<close> places ahead, where there is one.\<close>

definition ahead :: "lexer \<Rightarrow> nat \<Rightarrow> char \<Rightarrow> bool" where
  "ahead l k c = (l_pos l + k < length (l_src l) \<and> l_src l ! (l_pos l + k) = c)"

definition advance1 :: "lexer \<Rightarrow> lexer" where
  "advance1 l =
     (if \<not> in_src l then l\<lparr>l_panic := True\<rparr>
      else if cur l = nl then l\<lparr>l_line := l_line l + 1, l_col := 1, l_pos := l_pos l + 1\<rparr>
      else l\<lparr>l_col := l_col l + 1, l_pos := l_pos l + 1\<rparr>)"

fun advance :: "nat \<Rightarrow> lexer \<Rightarrow> lexer" where
  "advance 0 l = l"
| "advance (Suc n) l = advance n (advance1 l)"

text \<open>\<^verbatim>\<open>l.src[start:l.pos]\<close>\<close>

definition text_from :: "nat \<Rightarrow> lexer \<Rightarrow> string" where
  "text_from start l = drop start (take (l_pos l) (l_src l))"

lemma advance1_src [simp]: "l_src (advance1 l) = l_src l"
  by (simp add: advance1_def)

lemma advance1_pending [simp]: "l_pending (advance1 l) = l_pending l"
  by (simp add: advance1_def)

lemma advance1_pos: "in_src l \<Longrightarrow> l_pos (advance1 l) = Suc (l_pos l)"
  by (simp add: advance1_def)

lemma advance_src [simp]: "l_src (advance n l) = l_src l"
  by (induction n arbitrary: l) auto

lemma advance_pending [simp]: "l_pending (advance n l) = l_pending l"
  by (induction n arbitrary: l) auto

lemma advance_pos: "l_pos l + n \<le> length (l_src l) \<Longrightarrow> l_pos (advance n l) = l_pos l + n"
  by (induction n arbitrary: l) (auto simp: advance1_pos in_src_def)

lemma advance_pos_ge: "l_pos l \<le> l_pos (advance n l)"
proof (induction n arbitrary: l)
  case (Suc n)
  have "l_pos l \<le> l_pos (advance1 l)" by (simp add: advance1_def)
  also have "\<dots> \<le> l_pos (advance n (advance1 l))" by (rule Suc.IH)
  finally show ?case by simp
qed simp

text \<open>The loops \<^verbatim>\<open>for l.pos < len(l.src) && p(l.src[l.pos]) { l.advance(1) }\<close>.\<close>

function advance_while :: "(char \<Rightarrow> bool) \<Rightarrow> lexer \<Rightarrow> lexer" where
  "advance_while p l = (if in_src l \<and> p (cur l) then advance_while p (advance1 l) else l)"
  by pat_completeness auto
termination
  by (relation "measure (\<lambda>(p, l). length (l_src l) - l_pos l)") (auto simp: advance1_pos in_src_def)

declare advance_while.simps [simp del]

section \<open>Scanners\<close>

definition isLowerLetter :: "char \<Rightarrow> bool" where
  "isLowerLetter c = (97 \<le> ch c \<and> ch c \<le> 122)"

definition isDigit :: "char \<Rightarrow> bool" where
  "isDigit c = (48 \<le> ch c \<and> ch c \<le> 57)"

definition isIdentCont :: "char \<Rightarrow> bool" where
  "isIdentCont c = ((97 \<le> ch c \<and> ch c \<le> 122) \<or> (48 \<le> ch c \<and> ch c \<le> 57) \<or> c = CHR ''_'')"

definition matchDurationUnit :: "lexer \<Rightarrow> nat" where
  "matchDurationUnit l =
     (if \<not> in_src l then 0
      else if cur l = CHR ''n'' then (if ahead l 1 CHR ''s'' then 2 else 0)
      else if cur l = CHR ''u'' then (if ahead l 1 CHR ''s'' then 2 else 0)
      else if cur l = CHR ''m'' then (if ahead l 1 CHR ''s'' then 2 else 1)
      else if cur l = CHR ''s'' then 1
      else if cur l = CHR ''h'' then 1
      else if cur l = CHR 0xC2 \<and> ahead l 1 CHR 0xB5 \<and> ahead l 2 CHR ''s'' then 3
      else 0)"

lemma advance_while_src [simp]: "l_src (advance_while p l) = l_src l"
  by (induction p l rule: advance_while.induct) (subst advance_while.simps, simp)

lemma advance_while_pos_ge: "l_pos l \<le> l_pos (advance_while p l)"
proof (induction p l rule: advance_while.induct)
  case (1 p l)
  show ?case
  proof (cases "in_src l \<and> p (cur l)")
    case True
    then show ?thesis using "1" by (subst advance_while.simps) (simp add: advance1_pos)
  next
    case False
    then show ?thesis by (subst advance_while.simps) auto
  qed
qed

definition scanDigits :: "lexer \<Rightarrow> lexer" where
  "scanDigits l = advance_while isDigit l"

lemma scanDigits_src [simp]: "l_src (scanDigits l) = l_src l"
  by (simp add: scanDigits_def)

lemma scanDigits_pos:
  assumes "in_src l" "isDigit (cur l)"
  shows "l_pos l < l_pos (scanDigits l)"
proof -
  have "l_pos (advance1 l) \<le> l_pos (scanDigits l)"
    using assms by (simp add: scanDigits_def advance_while.simps [of _ l] advance_while_pos_ge)
  with assms show ?thesis by (simp add: advance1_pos)
qed

text \<open>The further dot-separated segments of an identifier.\<close>

function ident_segments :: "lexer \<Rightarrow> lexer" where
  "ident_segments l =
     (if l_pos l + 1 < length (l_src l) \<and> cur l = CHR ''.'' \<and> isLowerLetter (l_src l ! (l_pos l + 1))
      then ident_segments (advance_while isIdentCont (advance1 (advance1 l)))
      else l)"
  by pat_completeness auto
termination
proof (relation "measure (\<lambda>l. length (l_src l) - l_pos l)", goal_cases)
  case (2 l)
  have "l_pos (advance1 (advance1 l)) = l_pos l + 2"
    using 2 by (simp add: advance1_pos in_src_def)
  moreover have "l_pos (advance1 (advance1 l)) \<le> l_pos (advance_while isIdentCont (advance1 (advance1 l)))"
    by (rule advance_while_pos_ge)
  ultimately show ?case using 2 by auto
qed simp

declare ident_segments.simps [simp del]

definition scanIdentOrKeyword :: "nat \<Rightarrow> nat \<Rightarrow> lexer \<Rightarrow> Token \<times> lexer" where
  "scanIdentOrKeyword line col l =
     (let start = l_pos l;
          l' = ident_segments (advance_while isIdentCont (advance1 l));
          txt = text_from start l';
          hasDot = CHR ''.'' \<in> set txt
      in if \<not> hasDot \<and> txt = ''true'' then ((mk_tok TBool line col)\<lparr>tok_Bool := True\<rparr>, l')
         else if \<not> hasDot \<and> txt = ''false'' then ((mk_tok TBool line col)\<lparr>tok_Bool := False\<rparr>, l')
         else if \<not> hasDot \<and> IsReserved txt then (val_tok TKeyword txt line col, l')
         else (val_tok TIdent txt line col, l'))"

text \<open>The second component of the result: the exponent is malformed.\<close>

definition scanOptionalExponent :: "lexer \<Rightarrow> lexer \<times> bool" where
  "scanOptionalExponent l =
     (if \<not> in_src l \<or> (cur l \<noteq> CHR ''e'' \<and> cur l \<noteq> CHR ''E'') then (l, False)
      else let l1 = advance1 l;
               l2 = (if in_src l1 \<and> (cur l1 = CHR ''+'' \<or> cur l1 = CHR ''-'') then advance1 l1 else l1)
           in if \<not> in_src l2 \<or> \<not> isDigit (cur l2) then (l2, True)
              else (scanDigits l2, False))"

text \<open>The \<open>digits unit\<close> pairs after the first unit of a duration.\<close>

function duration_chain :: "lexer \<Rightarrow> lexer" where
  "duration_chain l =
     (if \<not> in_src l \<or> \<not> isDigit (cur l) then l
      else let l1 = scanDigits l; n = matchDurationUnit l1
           in if n = 0 then l1 else duration_chain (advance n l1))"
  by pat_completeness auto
termination
proof (relation "measure (\<lambda>l. length (l_src l) - l_pos l)", simp, simp)
  fix l :: lexer
  assume *: "in_src l \<and> isDigit (cur l)"
  have "l_pos l < l_pos (scanDigits l)" using * by (blast intro: scanDigits_pos)
  also have "\<dots> \<le> l_pos (advance (matchDurationUnit (scanDigits l)) (scanDigits l))"
    by (rule advance_pos_ge)
  finally show "length (l_src l) - l_pos (advance (matchDurationUnit (scanDigits l)) (scanDigits l))
                < length (l_src l) - l_pos l"
    using * by (auto simp: in_src_def)
qed

declare duration_chain.simps [simp del]

text \<open>The branches of \<^verbatim>\<open>scanNumber\<close> after the integer digits, which end at \<open>l\<close>.\<close>

definition number_fraction :: "nat \<Rightarrow> nat \<Rightarrow> nat \<Rightarrow> lexer \<Rightarrow> Token \<times> lexer" where
  "number_fraction start line col l =
     (if l_pos l + 1 < length (l_src l) \<and> isDigit (l_src l ! (l_pos l + 1)) then
        (case scanOptionalExponent (scanDigits (advance1 l)) of
           (l', bad) \<Rightarrow>
             if bad then
               (lex_Error line col ''malformed float literal: digits required after exponent'', l')
             else (val_tok TFloat (text_from start l') line col, l'))
      else
        (lex_Error line col
           (''malformed float literal: digits required after '' @ quote_rune CHR ''.''),
         advance1 l))"

definition number_unit :: "nat \<Rightarrow> nat \<Rightarrow> nat \<Rightarrow> lexer \<Rightarrow> Token \<times> lexer" where
  "number_unit start line col l =
     (if matchDurationUnit l > 0 then
        let l' = duration_chain (advance (matchDurationUnit l) l)
        in (val_tok TDuration (text_from start l') line col, l')
      else (val_tok TInt (text_from start l) line col, l))"

text \<open>
  A malformed exponent puts the offset back to the \<open>e\<close>, and only the offset: the column counter
  has moved on.
\<close>

definition number_exponent :: "nat \<Rightarrow> nat \<Rightarrow> nat \<Rightarrow> lexer \<Rightarrow> Token \<times> lexer" where
  "number_exponent start line col l =
     (let saved = l_pos l; l1 = advance1 l;
          l2 = (if in_src l1 \<and> (cur l1 = CHR ''+'' \<or> cur l1 = CHR ''-'') then advance1 l1 else l1)
      in if in_src l2 \<and> isDigit (cur l2) then
           let l' = scanDigits l2 in (val_tok TFloat (text_from start l') line col, l')
         else number_unit start line col (l2\<lparr>l_pos := saved\<rparr>))"

definition scanNumber :: "nat \<Rightarrow> nat \<Rightarrow> lexer \<Rightarrow> Token \<times> lexer" where
  "scanNumber line col l0 =
     (let start = l_pos l0; l = scanDigits l0
      in if in_src l \<and> cur l = CHR ''.'' then number_fraction start line col l
         else if in_src l \<and> (cur l = CHR ''e'' \<or> cur l = CHR ''E'') then
           number_exponent start line col l
         else number_unit start line col l)"

text \<open>
  The bodies of \<^verbatim>\<open>scanString\<close> and \<^verbatim>\<open>scanPrefixString\<close> after the opening quote; they differ in the
  kind of the token and in the word for the literal in the messages.
\<close>

definition skip_bad_string :: "lexer \<Rightarrow> lexer" where
  "skip_bad_string l =
     (let l' = advance_while (\<lambda>c. c \<noteq> dquote \<and> c \<noteq> nl) l
      in if in_src l' \<and> cur l' = dquote then advance1 l' else l')"

definition unescape :: "char \<Rightarrow> char option" where
  "unescape esc =
     (if esc = CHR ''n'' then Some nl
      else if esc = CHR ''t'' then Some tab
      else if esc = CHR ''r'' then Some cr
      else if esc = dquote then Some dquote
      else if esc = backslash then Some backslash
      else None)"

function string_loop ::
  "TokenKind \<Rightarrow> string \<Rightarrow> nat \<Rightarrow> nat \<Rightarrow> string \<Rightarrow> lexer \<Rightarrow> Token \<times> lexer" where
  "string_loop kind what line col buf l =
     (if \<not> in_src l then (lex_Error line col (''unterminated '' @ what), l)
      else if cur l = dquote then (val_tok kind buf line col, advance1 l)
      else if cur l = nl then (lex_Error line col (''newline inside '' @ what), l)
      else if cur l = backslash then
        (if l_pos l + 1 \<ge> length (l_src l) then
           (lex_Error line col (''unterminated '' @ what @ '' (escape at EOF)''), l)
         else let esc = l_src l ! (l_pos l + 1)
              in case unescape esc of
                   None \<Rightarrow> (lex_Error line col (''unknown escape sequence: '' @ [backslash] @ utf8_byte esc),
                            skip_bad_string l)
                 | Some c \<Rightarrow> string_loop kind what line col (buf @ [c]) (advance 2 l))
      else string_loop kind what line col (buf @ [cur l]) (advance1 l))"
  by pat_completeness auto
termination
  by (relation "measure (\<lambda>(kind, what, line, col, buf, l). length (l_src l) - l_pos l)")
     (auto simp: advance_pos in_src_def numeral_2_eq_2 advance1_pos)

declare string_loop.simps [simp del]

definition scanString :: "nat \<Rightarrow> nat \<Rightarrow> lexer \<Rightarrow> Token \<times> lexer" where
  "scanString line col l = string_loop TString ''string literal'' line col [] (advance1 l)"

definition scanPrefixString :: "nat \<Rightarrow> nat \<Rightarrow> TokenKind \<Rightarrow> lexer \<Rightarrow> Token \<times> lexer" where
  "scanPrefixString line col kind l =
     string_loop kind ''prefix-string literal'' line col [] (advance 3 l)"

definition scanTimestamp :: "nat \<Rightarrow> nat \<Rightarrow> lexer \<Rightarrow> Token \<times> lexer" where
  "scanTimestamp line col l = scanPrefixString line col TTimestamp l"

definition scanIP :: "nat \<Rightarrow> nat \<Rightarrow> lexer \<Rightarrow> Token \<times> lexer" where
  "scanIP line col l = scanPrefixString line col TIP l"

definition scanBytes :: "nat \<Rightarrow> nat \<Rightarrow> lexer \<Rightarrow> Token \<times> lexer" where
  "scanBytes line col l =
     (let l1 = advance 3 l; hexStart = l_pos l1;
          l2 = advance_while (\<lambda>c. c \<noteq> dquote \<and> c \<noteq> nl) l1
      in if \<not> in_src l2 then (lex_Error line col ''unterminated bytes literal'', l2)
         else if cur l2 = nl then (lex_Error line col ''newline inside bytes literal'', l2)
         else case hex_DecodeString (text_from hexStart l2) of
                Inl e \<Rightarrow> (lex_Error line col (''invalid hex in bytes literal: '' @ e), advance1 l2)
              | Inr decoded \<Rightarrow> ((mk_tok TBytes line col)\<lparr>tok_Bytes := decoded\<rparr>, advance1 l2))"

definition punct :: "TokenKind \<Rightarrow> nat \<Rightarrow> nat \<Rightarrow> lexer \<Rightarrow> Token \<times> lexer" where
  "punct kind line col l = (mk_tok kind line col, advance1 l)"

definition scanToken :: "lexer \<Rightarrow> Token \<times> lexer" where
  "scanToken l =
     (let line = l_line l; col = l_col l; c = cur l
      in if c = dquote then scanString line col l
         else if c = CHR ''0'' then
           (if ahead l 1 CHR ''x'' \<and> ahead l 2 dquote then scanBytes line col l
            else scanNumber line col l)
         else if 49 \<le> ch c \<and> ch c \<le> 57 then scanNumber line col l
         else if c = CHR ''t'' then
           (if ahead l 1 CHR ''s'' \<and> ahead l 2 dquote then scanTimestamp line col l
            else scanIdentOrKeyword line col l)
         else if c = CHR ''i'' then
           (if ahead l 1 CHR ''p'' \<and> ahead l 2 dquote then scanIP line col l
            else scanIdentOrKeyword line col l)
         else if isLowerLetter c then scanIdentOrKeyword line col l
         else if 65 \<le> ch c \<and> ch c \<le> 90 then
           (lex_Error line col (''uppercase letter in identifier '' @ em_dash @
              '' rule language is lowercase-only''), advance1 l)
         else if c = CHR ''('' then punct TLParen line col l
         else if c = CHR '')'' then punct TRParen line col l
         else if c = CHR ''['' then punct TLBrack line col l
         else if c = CHR '']'' then punct TRBrack line col l
         else if c = CHR '','' then punct TComma line col l
         else if c = CHR ''&'' then punct TAmpersand line col l
         else (lex_Error line col (''unexpected character '' @ quote_rune c), advance1 l))"

function skipTrivia :: "lexer \<Rightarrow> lexer" where
  "skipTrivia l =
     (if \<not> in_src l then l
      else if cur l = CHR '' '' \<or> cur l = tab then skipTrivia (advance1 l)
      else if cur l = nl then skipTrivia (advance1 l)
      else if cur l = cr then
        (if ahead l 1 nl then skipTrivia (advance 2 l)
         else skipTrivia ((advance1 l)\<lparr>l_pending :=
                Some (lex_Error (l_line l) (l_col l)
                   (''bare carriage return ('' @ [backslash] @ ''r) '' @ em_dash @ '' use '' @
                    [backslash] @ ''n or '' @ [backslash] @ ''r'' @ [backslash] @ ''n''))\<rparr>))
      else if cur l = CHR ''#'' then skipTrivia (advance_while (\<lambda>c. c \<noteq> nl) l)
      else l)"
  by pat_completeness auto
termination
proof (relation "measure (\<lambda>l. length (l_src l) - l_pos l)", goal_cases)
  case (6 l)
  have "cur l \<noteq> nl" using 6 by simp
  then have "advance_while (\<lambda>c. c \<noteq> nl) l = advance_while (\<lambda>c. c \<noteq> nl) (advance1 l)"
    using 6 by (simp add: advance_while.simps [of _ l])
  then have "l_pos (advance1 l) \<le> l_pos (advance_while (\<lambda>c. c \<noteq> nl) l)"
    by (simp add: advance_while_pos_ge)
  with 6 show ?case by (simp add: advance1_pos in_src_def)
qed (auto simp: advance_pos in_src_def ahead_def numeral_2_eq_2 advance1_pos)

declare skipTrivia.simps [simp del]

section \<open>Scanners stay inside the source\<close>

text \<open>
  \<open>wf_lexer\<close>: the offset is inside the source, nothing was read past its end, and the line is one
  more than the number of newlines before the offset. \<open>reach l l'\<close>: \<open>l'\<close> is further on in the same
  source, with the same pending error, and well formed if \<open>l\<close> is.
\<close>

definition wf_lexer :: "lexer \<Rightarrow> bool" where
  "wf_lexer l =
     (l_pos l \<le> length (l_src l) \<and> \<not> l_panic l \<and>
      l_line l = Suc (count_list (take (l_pos l) (l_src l)) nl))"

definition reach :: "lexer \<Rightarrow> lexer \<Rightarrow> bool" where
  "reach l l' = (l_src l' = l_src l \<and> l_pos l \<le> l_pos l' \<and> l_pending l' = l_pending l \<and>
                 (wf_lexer l \<longrightarrow> wf_lexer l'))"

named_theorems lex_reach \<open>the scanners reach a later state\<close>

lemma reach_refl [simp, lex_reach]: "reach l l"
  by (simp add: reach_def)

lemma reach_trans [trans]: "reach a b \<Longrightarrow> reach b c \<Longrightarrow> reach a c"
  by (auto simp: reach_def)

lemma reach_src: "reach l l' \<Longrightarrow> l_src l' = l_src l"
  by (simp add: reach_def)

lemma reach_pos: "reach l l' \<Longrightarrow> l_pos l \<le> l_pos l'"
  by (simp add: reach_def)

lemma reach_wf: "reach l l' \<Longrightarrow> wf_lexer l \<Longrightarrow> wf_lexer l'"
  by (simp add: reach_def)

lemma wf_lexer_pending [simp]: "wf_lexer (l\<lparr>l_pending := t\<rparr>) = wf_lexer l"
  by (simp add: wf_lexer_def)

lemma reach_pending: "reach l l' \<Longrightarrow> l_pending l' = l_pending l"
  by (simp add: reach_def)

lemma reach_line: "reach l l' \<Longrightarrow> wf_lexer l \<Longrightarrow> l_line l \<le> l_line l'"
proof -
  assume "reach l l'" "wf_lexer l"
  moreover have "count_list (take m s) c \<le> count_list (take n s) c" if "m \<le> n" for m n and s :: string and c
    using that by (metis count_list_append le_add1 le_add_diff_inverse take_add)
  ultimately show ?thesis by (auto simp: reach_def wf_lexer_def)
qed

lemma reach_advance1: "in_src l \<Longrightarrow> reach l (advance1 l)"
  by (auto simp: reach_def wf_lexer_def advance1_def in_src_def cur_def take_Suc_conv_app_nth)

lemma reach_advance: "l_pos l + n \<le> length (l_src l) \<Longrightarrow> reach l (advance n l)"
proof (induction n arbitrary: l)
  case (Suc n)
  then have m: "in_src l" by (simp add: in_src_def)
  with Suc.prems have "l_pos (advance1 l) + n \<le> length (l_src (advance1 l))"
    by (simp add: advance1_pos)
  then have "reach (advance1 l) (advance n (advance1 l))" by (rule Suc.IH)
  with reach_advance1 [OF m] show ?case using reach_trans by simp
qed simp

lemma reach_advance_while: "reach l (advance_while p l)"
proof (induction p l rule: advance_while.induct)
  case (1 p l)
  show ?case
  proof (cases "in_src l \<and> p (cur l)")
    case True
    then have "reach l (advance1 l)" by (simp add: reach_advance1)
    also have "reach (advance1 l) (advance_while p (advance1 l))" using "1" True by blast
    finally show ?thesis using True by (simp add: advance_while.simps [of p l])
  next
    case False
    then have "advance_while p l = l" by (subst advance_while.simps) auto
    then show ?thesis by simp
  qed
qed

lemma reach_scanDigits: "reach l (scanDigits l)"
  by (simp add: scanDigits_def reach_advance_while)

lemma reach_ident_segments: "reach l (ident_segments l)"
proof (induction l rule: ident_segments.induct)
  case (1 l)
  show ?case
  proof (cases "l_pos l + 1 < length (l_src l) \<and> cur l = CHR ''.'' \<and> isLowerLetter (l_src l ! (l_pos l + 1))")
    case True
    then have "reach l (advance 2 l)" by (intro reach_advance) simp
    also have "reach (advance 2 l) (advance_while isIdentCont (advance 2 l))"
      by (rule reach_advance_while)
    also have "reach \<dots> (ident_segments (advance_while isIdentCont (advance 2 l)))"
      using "1" True by (simp add: numeral_2_eq_2)
    finally show ?thesis using True by (simp add: ident_segments.simps [of l] numeral_2_eq_2)
  next
    case False
    then have "ident_segments l = l" by (subst ident_segments.simps) auto
    then show ?thesis by simp
  qed
qed

lemma matchDurationUnit_bound: "l_pos l \<le> length (l_src l) \<Longrightarrow> l_pos l + matchDurationUnit l \<le> length (l_src l)"
  by (auto simp: matchDurationUnit_def in_src_def ahead_def)

text \<open>Past the end nothing matches, so the bound holds for every state.\<close>

lemma reach_unit: "reach l (advance (matchDurationUnit l) l)"
proof (cases "in_src l")
  case True
  then show ?thesis by (intro reach_advance matchDurationUnit_bound) (simp add: in_src_def)
next
  case False
  then show ?thesis by (simp add: matchDurationUnit_def)
qed

lemma reach_duration_chain: "reach l (duration_chain l)"
proof (induction l rule: duration_chain.induct)
  case (1 l)
  let ?l1 = "scanDigits l"
  let ?l2 = "advance (matchDurationUnit ?l1) ?l1"
  show ?case
  proof (cases "in_src l \<and> isDigit (cur l) \<and> matchDurationUnit ?l1 \<noteq> 0")
    case True
    have "reach l ?l1" by (rule reach_scanDigits)
    also have "reach ?l1 ?l2" by (rule reach_unit)
    also have "reach ?l2 (duration_chain ?l2)" using "1" True by (simp add: Let_def)
    finally show ?thesis using True by (subst duration_chain.simps) (simp add: Let_def)
  next
    case False
    then show ?thesis
      by (subst duration_chain.simps) (auto simp: Let_def reach_scanDigits)
  qed
qed

lemma reach_scanOptionalExponent: "reach l (fst (scanOptionalExponent l))"
proof (cases "in_src l \<and> (cur l = CHR ''e'' \<or> cur l = CHR ''E'')")
  case True
  let ?l1 = "advance1 l"
  let ?l2 = "if in_src ?l1 \<and> (cur ?l1 = CHR ''+'' \<or> cur ?l1 = CHR ''-'') then advance1 ?l1 else ?l1"
  have "reach l ?l1" using True by (simp add: reach_advance1)
  also have "reach ?l1 ?l2" by (simp add: reach_advance1)
  finally have "reach l ?l2" .
  moreover from this have "reach l (scanDigits ?l2)" using reach_scanDigits by (rule reach_trans)
  ultimately show ?thesis using True unfolding scanOptionalExponent_def Let_def by auto
next
  case False
  then show ?thesis unfolding scanOptionalExponent_def by auto
qed

text \<open>Going back over bytes that are no newlines.\<close>

lemma reach_rewind:
  assumes "reach l m" "l_line m = l_line l"
  shows "reach l (m\<lparr>l_pos := l_pos l\<rparr>)"
  using assms by (auto simp: reach_def wf_lexer_def)

lemma advance1_line: "cur l \<noteq> nl \<Longrightarrow> l_line (advance1 l) = l_line l"
  by (simp add: advance1_def)

lemma reach_number_fraction:
  assumes "in_src l" shows "reach l (snd (number_fraction start line col l))"
proof -
  have dot: "reach l (advance1 l)" using assms by (rule reach_advance1)
  have "reach l (fst (scanOptionalExponent (scanDigits (advance1 l))))"
    using dot reach_trans reach_scanDigits reach_scanOptionalExponent by blast
  with dot show ?thesis by (auto simp: number_fraction_def split: prod.splits)
qed

lemma reach_number_unit: "reach l (snd (number_unit start line col l))"
  using reach_trans [OF reach_unit reach_duration_chain]
  by (simp add: number_unit_def Let_def)

lemma reach_number_exponent:
  assumes "in_src l" "cur l \<noteq> nl" shows "reach l (snd (number_exponent start line col l))"
proof -
  let ?l1 = "advance1 l"
  let ?l2 = "if in_src ?l1 \<and> (cur ?l1 = CHR ''+'' \<or> cur ?l1 = CHR ''-'') then advance1 ?l1 else ?l1"
  have "reach l ?l1" using assms(1) by (rule reach_advance1)
  also have "reach ?l1 ?l2" by (simp add: reach_advance1)
  finally have l2: "reach l ?l2" .
  have "l_line ?l2 = l_line l" using assms(2) by (auto simp: advance1_line char_defs)
  with l2 have "reach l (?l2\<lparr>l_pos := l_pos l\<rparr>)" by (rule reach_rewind)
  then have "reach l (snd (number_unit start line col (?l2\<lparr>l_pos := l_pos l\<rparr>)))"
    using reach_number_unit by (rule reach_trans)
  moreover have "reach l (scanDigits ?l2)" using l2 reach_scanDigits by (rule reach_trans)
  ultimately show ?thesis unfolding number_exponent_def Let_def by auto
qed

lemma reach_scanNumber: "reach l (snd (scanNumber line col l))"
proof -
  let ?d = "scanDigits l"
  have e: "cur ?d \<noteq> nl" if "cur ?d = CHR ''e'' \<or> cur ?d = CHR ''E''"
    using that by (auto simp: char_defs)
  have "reach ?d (snd (scanNumber line col l))"
    unfolding scanNumber_def Let_def
    by (simp add: reach_number_fraction reach_number_unit reach_number_exponent e)
  with reach_scanDigits show ?thesis by (rule reach_trans)
qed

lemma string_loop_unfold:
  "\<not> in_src l \<Longrightarrow> string_loop kind what line col buf l = (lex_Error line col (''unterminated '' @ what), l)"
  "in_src l \<Longrightarrow> cur l = dquote \<Longrightarrow>
     string_loop kind what line col buf l = (val_tok kind buf line col, advance1 l)"
  "in_src l \<Longrightarrow> cur l = nl \<Longrightarrow>
     string_loop kind what line col buf l = (lex_Error line col (''newline inside '' @ what), l)"
  "in_src l \<Longrightarrow> cur l = backslash \<Longrightarrow> l_pos l + 1 \<ge> length (l_src l) \<Longrightarrow>
     string_loop kind what line col buf l =
       (lex_Error line col (''unterminated '' @ what @ '' (escape at EOF)''), l)"
  "in_src l \<Longrightarrow> cur l = backslash \<Longrightarrow> l_pos l + 1 < length (l_src l) \<Longrightarrow>
     unescape (l_src l ! (l_pos l + 1)) = None \<Longrightarrow>
     string_loop kind what line col buf l =
       (lex_Error line col (''unknown escape sequence: '' @ [backslash] @ utf8_byte (l_src l ! (l_pos l + 1))),
        skip_bad_string l)"
  "in_src l \<Longrightarrow> cur l = backslash \<Longrightarrow> l_pos l + 1 < length (l_src l) \<Longrightarrow>
     unescape (l_src l ! (l_pos l + 1)) = Some c \<Longrightarrow>
     string_loop kind what line col buf l = string_loop kind what line col (buf @ [c]) (advance 2 l)"
  "in_src l \<Longrightarrow> cur l \<noteq> dquote \<Longrightarrow> cur l \<noteq> nl \<Longrightarrow> cur l \<noteq> backslash \<Longrightarrow>
     string_loop kind what line col buf l = string_loop kind what line col (buf @ [cur l]) (advance1 l)"
  by (simp_all add: string_loop.simps [of kind what line col buf l])

lemma reach_skip_bad_string: "reach l (skip_bad_string l)"
  using reach_trans [OF reach_advance_while reach_advance1]
  by (simp add: skip_bad_string_def Let_def reach_advance_while)

text \<open>Induction over a string literal: one case per way the loop goes on or ends.\<close>

lemma string_loop_induct [case_names fin esc plain]:
  assumes fin: "\<And>buf l. reach l (snd (string_loop kind what line col buf l)) \<Longrightarrow>
      fst (string_loop kind what line col buf l) = val_tok kind buf line col \<or>
      (\<exists>msg. fst (string_loop kind what line col buf l) = lex_Error line col msg) \<Longrightarrow> P buf l"
    and esc: "\<And>buf l c. in_src l \<Longrightarrow> cur l = backslash \<Longrightarrow> l_pos l + 1 < length (l_src l) \<Longrightarrow>
      unescape (l_src l ! (l_pos l + 1)) = Some c \<Longrightarrow> P (buf @ [c]) (advance 2 l) \<Longrightarrow>
      string_loop kind what line col buf l = string_loop kind what line col (buf @ [c]) (advance 2 l) \<Longrightarrow> P buf l"
    and plain: "\<And>buf l. in_src l \<Longrightarrow> cur l \<noteq> dquote \<Longrightarrow> cur l \<noteq> nl \<Longrightarrow> cur l \<noteq> backslash \<Longrightarrow>
      P (buf @ [cur l]) (advance1 l) \<Longrightarrow>
      string_loop kind what line col buf l = string_loop kind what line col (buf @ [cur l]) (advance1 l) \<Longrightarrow> P buf l"
  shows "P buf l"
proof (induction "length (l_src l) - l_pos l" arbitrary: buf l rule: less_induct)
  case less
  show ?case
  proof (cases "in_src l \<and> cur l \<noteq> dquote \<and> cur l \<noteq> nl")
    case False
    then consider "\<not> in_src l" | "in_src l" "cur l = dquote" | "in_src l" "cur l = nl" by blast
    then show ?thesis by cases (auto intro!: fin simp: string_loop_unfold reach_advance1)
  next
    case in_l: True
    show ?thesis
    proof (cases "cur l = backslash")
      case False
      have "length (l_src (advance1 l)) - l_pos (advance1 l) < length (l_src l) - l_pos l"
        using in_l by (auto simp: advance1_pos in_src_def)
      then have "P (buf @ [cur l]) (advance1 l)" by (rule less)
      with in_l False show ?thesis by (auto simp: string_loop_unfold intro!: plain)
    next
      case bs: True
      show ?thesis
      proof (cases "l_pos l + 1 < length (l_src l) \<and> unescape (l_src l ! (l_pos l + 1)) \<noteq> None")
        case True
        then obtain c where c: "unescape (l_src l ! (l_pos l + 1)) = Some c" by auto
        have "length (l_src (advance 2 l)) - l_pos (advance 2 l) < length (l_src l) - l_pos l"
          using True by (auto simp: advance_pos)
        then have P: "P (buf @ [c]) (advance 2 l)" by (rule less)
        have here: "in_src l" "l_pos l + 1 < length (l_src l)" using in_l True by blast+
        show ?thesis by (rule esc [OF here(1) bs here(2) c P string_loop_unfold(6) [OF here(1) bs here(2) c]])
      next
        case False
        show ?thesis
        proof (cases "l_pos l + 1 < length (l_src l)")
          case True
          with False in_l bs show ?thesis
            by (intro fin) (auto simp: string_loop_unfold(5) reach_skip_bad_string)
        next
          case False
          with in_l bs show ?thesis by (intro fin) (auto simp: string_loop_unfold(4))
        qed
      qed
    qed
  qed
qed

lemma reach_string_loop: "reach l (snd (string_loop kind what line col buf l))"
proof (induction buf l rule: string_loop_induct [of kind what line col])
  case (fin buf l)
  then show ?case by simp
next
  case (esc buf l c)
  have "reach l (advance 2 l)" using esc by (intro reach_advance) simp
  with esc show ?case using reach_trans by simp
next
  case (plain buf l)
  have "reach l (advance1 l)" using plain by (simp add: reach_advance1)
  with plain show ?case using reach_trans by simp
qed

lemma reach_scanIdentOrKeyword:
  assumes "in_src l" shows "reach (advance1 l) (snd (scanIdentOrKeyword line col l))"
  using reach_trans [OF reach_advance_while reach_ident_segments]
  by (simp add: scanIdentOrKeyword_def Let_def)

lemma reach_scanBytes:
  assumes "l_pos l + 3 \<le> length (l_src l)" shows "reach (advance 3 l) (snd (scanBytes line col l))"
proof -
  let ?l2 = "advance_while (\<lambda>c. c \<noteq> dquote \<and> c \<noteq> nl) (advance 3 l)"
  have "reach (advance 3 l) ?l2" by (rule reach_advance_while)
  moreover from this have "reach (advance 3 l) (advance1 ?l2)" if "in_src ?l2"
    using reach_trans reach_advance1 that by blast
  ultimately show ?thesis by (auto simp: scanBytes_def Let_def split: sum.split)
qed

section \<open>Progress\<close>

text \<open>A scanner called inside the source consumes at least one byte.\<close>

definition consumes :: "lexer \<Rightarrow> lexer \<Rightarrow> bool" where
  "consumes l l' = (reach l l' \<and> l_pos l < l_pos l')"

lemma consumes_advance: "0 < n \<Longrightarrow> l_pos l + n \<le> length (l_src l) \<Longrightarrow> reach (advance n l) l' \<Longrightarrow> consumes l l'"
  using reach_trans [OF reach_advance, of l n l'] reach_pos [of "advance n l" l']
  by (simp add: consumes_def advance_pos)

lemma consumes_advance1: "in_src l \<Longrightarrow> reach (advance1 l) l' \<Longrightarrow> consumes l l'"
  using consumes_advance [of 1 l l'] by (simp add: in_src_def)

lemma number_exponent_pos:
  assumes "in_src l" shows "l_pos l \<le> l_pos (snd (number_exponent start line col l))"
proof (cases "cur l = nl")
  case False
  then show ?thesis using reach_number_exponent [OF assms] reach_pos by blast
next
  case True
  have unit: "l_pos l \<le> l_pos (snd (number_unit start line col (m\<lparr>l_pos := l_pos l\<rparr>)))" for m
    using reach_pos [OF reach_number_unit [of "m\<lparr>l_pos := l_pos l\<rparr>"]] by simp
  have "l_pos l \<le> l_pos (advance1 l)" using assms by (simp add: advance1_pos)
  moreover have "l_pos m \<le> l_pos (advance1 m)" for m by (simp add: advance1_def)
  moreover have "l_pos m \<le> l_pos (scanDigits m)" for m by (simp add: reach_pos reach_scanDigits)
  ultimately show ?thesis using unit unfolding number_exponent_def Let_def
    by (smt (verit, best) order_trans snd_conv)
qed

lemma consumes_scanNumber:
  assumes "in_src l" "isDigit (cur l)" shows "consumes l (snd (scanNumber line col l))"
proof -
  let ?d = "scanDigits l"
  have "l_pos l < l_pos ?d" using assms by (rule scanDigits_pos)
  also have "l_pos ?d \<le> l_pos (snd (scanNumber line col l))"
    unfolding scanNumber_def Let_def
    using reach_pos [OF reach_number_fraction [of ?d]] reach_pos [OF reach_number_unit [of ?d]]
      number_exponent_pos [of ?d]
    by simp
  finally show ?thesis by (simp add: consumes_def reach_scanNumber)
qed

lemma isDigit_0: "isDigit (CHR ''0'')"
  by (simp add: isDigit_def ch_def)

lemma consumes_scanToken:
  assumes "in_src l" shows "consumes l (snd (scanToken l))"
proof -
  have str: "consumes l (snd (scanString line col l))" for line col
    using consumes_advance1 [OF assms] reach_string_loop by (simp add: scanString_def)
  have pre: "consumes l (snd (scanPrefixString line col kind l))"
    if "l_pos l + 2 < length (l_src l)" for line col kind
    using that consumes_advance [of 3 l] reach_string_loop by (simp add: scanPrefixString_def)
  have byt: "consumes l (snd (scanBytes line col l))" if "l_pos l + 2 < length (l_src l)" for line col
    using that consumes_advance [of 3 l] reach_scanBytes [of l] by simp
  have idn: "consumes l (snd (scanIdentOrKeyword line col l))" for line col
    using consumes_advance1 [OF assms] reach_scanIdentOrKeyword [OF assms] by blast
  have num: "consumes l (snd (scanNumber line col l))" if "cur l = CHR ''0'' \<or> 49 \<le> ch (cur l) \<and> ch (cur l) \<le> 57" for line col
    using that consumes_scanNumber [OF assms] isDigit_0 by (auto simp: isDigit_def)
  have one: "consumes l (advance1 l)" using consumes_advance1 [OF assms reach_refl] .
  show ?thesis
    unfolding scanToken_def Let_def scanTimestamp_def scanIP_def punct_def
    by (simp add: str pre byt idn num one ahead_def)
qed

text \<open>
  Trivia may leave a pending error; \<open>onward\<close> is \<open>reach\<close> but for that. The pending error of a
  round of \<open>Lex\<close> stands between the line where the round starts and the line it gets to.
\<close>

definition onward :: "lexer \<Rightarrow> lexer \<Rightarrow> bool" where
  "onward l l' = reach l (l'\<lparr>l_pending := l_pending l\<rparr>)"

definition pend_ok :: "nat \<Rightarrow> lexer \<Rightarrow> bool" where
  "pend_ok b l = (\<forall>t. l_pending l = Some t \<longrightarrow> tok_Kind t = TError \<and> b \<le> tok_Line t \<and> tok_Line t \<le> l_line l)"

lemma reach_onward: "reach l l' \<Longrightarrow> onward l l'"
  by (simp add: onward_def reach_def)

lemma onward_trans [trans]: "onward a b \<Longrightarrow> onward b c \<Longrightarrow> onward a c"
  by (simp add: onward_def reach_def)

lemma onward_pending [simp]: "onward l (l'\<lparr>l_pending := t\<rparr>) = onward l l'"
  by (simp add: onward_def)

lemma pend_ok_reach: "wf_lexer l \<Longrightarrow> reach l l' \<Longrightarrow> pend_ok b l \<Longrightarrow> pend_ok b l'"
  using reach_line [of l l'] reach_pending [of l l'] by (fastforce simp: pend_ok_def)

lemma skipTrivia_unfold:
  "\<not> in_src l \<or> cur l \<notin> {CHR '' '', tab, nl, cr, CHR ''#''} \<Longrightarrow> skipTrivia l = l"
  "in_src l \<Longrightarrow> cur l = CHR '' '' \<or> cur l = tab \<or> cur l = nl \<Longrightarrow> skipTrivia l = skipTrivia (advance1 l)"
  "in_src l \<Longrightarrow> cur l = cr \<Longrightarrow> ahead l 1 nl \<Longrightarrow> skipTrivia l = skipTrivia (advance 2 l)"
  "in_src l \<Longrightarrow> cur l = cr \<Longrightarrow> \<not> ahead l 1 nl \<Longrightarrow>
     \<exists>msg. skipTrivia l =
       skipTrivia ((advance1 l)\<lparr>l_pending := Some (lex_Error (l_line l) (l_col l) msg)\<rparr>)"
  "in_src l \<Longrightarrow> cur l = CHR ''#'' \<Longrightarrow> skipTrivia l = skipTrivia (advance_while (\<lambda>c. c \<noteq> nl) l)"
  by (auto simp: skipTrivia.simps [of l] char_defs)

lemma skipTrivia_ok:
  "onward l (skipTrivia l) \<and>
   (wf_lexer l \<and> b \<le> l_line l \<and> pend_ok b l \<longrightarrow> pend_ok b (skipTrivia l))"
proof (induction "length (l_src l) - l_pos l" arbitrary: l rule: less_induct)
  case less
  let ?ok = "wf_lexer l \<and> b \<le> l_line l \<and> pend_ok b l"
  have step: "onward l (skipTrivia l') \<and> (?ok \<longrightarrow> pend_ok b (skipTrivia l'))"
    if "reach l m" "l_pos l < l_pos m" "l_pos l < length (l_src l)"
      "l' = m \<or> (\<exists>msg. l' = m\<lparr>l_pending := Some (lex_Error (l_line l) (l_col l) msg)\<rparr>)" for l' m
  proof -
    have ok: "wf_lexer l' \<and> b \<le> l_line l' \<and> pend_ok b l'" if ?ok
    proof -
      have "wf_lexer m" using \<open>reach l m\<close> that by (blast intro: reach_wf)
      moreover have "l_line l \<le> l_line m" using \<open>reach l m\<close> that by (blast intro: reach_line)
      moreover have "pend_ok b m" using \<open>reach l m\<close> that by (blast intro: pend_ok_reach)
      ultimately show ?thesis using \<open>l' = m \<or> _\<close> that by (auto simp: pend_ok_def)
    qed
    have "length (l_src l') - l_pos l' < length (l_src l) - l_pos l"
      using that reach_src [OF that(1)] by auto
    then have IH: "onward l' (skipTrivia l') \<and>
        (wf_lexer l' \<and> b \<le> l_line l' \<and> pend_ok b l' \<longrightarrow> pend_ok b (skipTrivia l'))"
      by (rule less.hyps)
    have "onward l l'" using that(1,4) by (auto simp: reach_onward)
    with IH ok show ?thesis using onward_trans by blast
  qed
  have cm: "l_pos l < l_pos (advance_while (\<lambda>c. c \<noteq> nl) l)" if "in_src l" "cur l \<noteq> nl"
    using that advance_while_pos_ge [of "advance1 l" "\<lambda>c. c \<noteq> nl"]
    by (simp add: advance_while.simps [of _ l] advance1_pos)
  consider (fin) "\<not> in_src l \<or> cur l \<notin> {CHR '' '', tab, nl, cr, CHR ''#''}"
    | (blank) "in_src l" "cur l = CHR '' '' \<or> cur l = tab \<or> cur l = nl"
    | (crlf) "in_src l" "cur l = cr" "ahead l 1 nl"
    | (bare) "in_src l" "cur l = cr" "\<not> ahead l 1 nl"
    | (comment) "in_src l" "cur l = CHR ''#''"
    by blast
  then show ?case
  proof cases
    case fin
    then show ?thesis by (simp add: skipTrivia_unfold reach_onward)
  next
    case blank
    have "onward l (skipTrivia (advance1 l)) \<and> (?ok \<longrightarrow> pend_ok b (skipTrivia (advance1 l)))"
      by (rule step [of "advance1 l"]) (use blank(1) in \<open>auto simp: reach_advance1 advance1_pos in_src_def\<close>)
    then show ?thesis by (simp add: skipTrivia_unfold(2) [OF blank])
  next
    case crlf
    have "onward l (skipTrivia (advance 2 l)) \<and> (?ok \<longrightarrow> pend_ok b (skipTrivia (advance 2 l)))"
      by (rule step [of "advance 2 l"])
         (use crlf in \<open>auto simp: advance_pos in_src_def ahead_def intro!: reach_advance\<close>)
    then show ?thesis by (simp add: skipTrivia_unfold(3) [OF crlf])
  next
    case bare
    obtain msg where "skipTrivia l =
        skipTrivia ((advance1 l)\<lparr>l_pending := Some (lex_Error (l_line l) (l_col l) msg)\<rparr>)"
      using skipTrivia_unfold(4) [OF bare] by blast
    then show ?thesis using step [of "advance1 l"] bare(1)
      by (auto simp: reach_advance1 advance1_pos in_src_def)
  next
    case comment
    then have "cur l \<noteq> nl" by (simp add: char_defs)
    have "onward l (skipTrivia (advance_while (\<lambda>c. c \<noteq> nl) l)) \<and>
          (?ok \<longrightarrow> pend_ok b (skipTrivia (advance_while (\<lambda>c. c \<noteq> nl) l)))"
      by (rule step [of "advance_while (\<lambda>c. c \<noteq> nl) l"])
         (use comment cm \<open>cur l \<noteq> nl\<close> in \<open>auto simp: reach_advance_while in_src_def\<close>)
    then show ?thesis by (simp add: skipTrivia_unfold(5) [OF comment])
  qed
qed

lemma reach_skipTrivia: "reach l ((skipTrivia l)\<lparr>l_pending := l_pending l\<rparr>)"
  using skipTrivia_ok [of l] by (simp add: onward_def)

section \<open>The whole lexer\<close>

definition new_lexer :: "string \<Rightarrow> lexer" where
  "new_lexer src =
     \<lparr>l_src = src, l_pos = 0, l_line = 1, l_col = 1, l_pending = None, l_panic = False\<rparr>"

definition pending_tokens :: "lexer \<Rightarrow> Token list" where
  "pending_tokens l = (case l_pending l of None \<Rightarrow> [] | Some t \<Rightarrow> [t])"

text \<open>The loop of \<^verbatim>\<open>Lex\<close>, with the tokens of the rest of the source.\<close>

function lex_loop :: "lexer \<Rightarrow> Token list \<times> lexer" where
  "lex_loop l =
     (let l1 = skipTrivia l; pend = pending_tokens l1; l2 = l1\<lparr>l_pending := None\<rparr>
      in if \<not> in_src l2 then (pend @ [mk_tok TEOF (l_line l2) (l_col l2)], l2)
         else let (tok, l3) = scanToken l2
              in if tok_Kind tok = TEOF then (pend @ [tok], l3)
                 else let (toks, l4) = lex_loop l3 in (pend @ [tok] @ toks, l4))"
  by pat_completeness auto
termination
proof (relation "measure (\<lambda>l. length (l_src l) - l_pos l)", goal_cases)
  case (2 l l1 pend l2 p tok l3)
  have r: "l_src l2 = l_src l" "l_pos l \<le> l_pos l2"
    using reach_src [OF reach_skipTrivia, of l] reach_pos [OF reach_skipTrivia, of l] 2 by simp_all
  have c: "consumes l2 l3" using consumes_scanToken [of l2] 2 by (metis snd_conv)
  have "l_pos l < l_pos l3" using r c by (simp add: consumes_def)
  moreover have "l_src l3 = l_src l" using r c by (simp add: consumes_def reach_def)
  moreover have "l_pos l < length (l_src l)" using 2 r by (simp add: in_src_def)
  ultimately show ?case by simp
qed simp

declare lex_loop.simps [simp del]

definition Lex :: "string \<Rightarrow> Token list option" where
  "Lex src = (case lex_loop (new_lexer src) of (toks, l) \<Rightarrow> if l_panic l then None else Some toks)"

definition LexSingle :: "string \<Rightarrow> (Token \<times> (nat \<times> nat \<times> string) option) option" where
  "LexSingle src =
     map_option
       (\<lambda>toks. if toks = [] then (mk_tok TEOF 0 0, Some (0, 0, ''lexer: empty token stream''))
        else case dropWhile (\<lambda>t. tok_Kind t = TEOF) toks of
          [] \<Rightarrow> (mk_tok TEOF 0 0, None)
        | t # _ \<Rightarrow> (t, if tok_Kind t = TError then Some (tok_Line t, tok_Column t, tok_Value t) else None))
       (Lex src)"

section \<open>What the token stream looks like\<close>

lemma string_loop_tok:
  "tok_Kind (fst (string_loop kind what line col buf l)) \<in> {kind, TError}
   \<and> tok_Line (fst (string_loop kind what line col buf l)) = line"
  by (induction buf l rule: string_loop_induct [of kind what line col]) auto

lemma scanNumber_tok:
  "tok_Kind (fst (scanNumber line col l)) \<in> {TInt, TFloat, TDuration, TError}
   \<and> tok_Line (fst (scanNumber line col l)) = line"
  by (auto simp: scanNumber_def number_fraction_def number_unit_def number_exponent_def Let_def
      split: prod.splits)

lemma scanIdentOrKeyword_tok:
  "tok_Kind (fst (scanIdentOrKeyword line col l)) \<in> {TIdent, TKeyword, TBool}
   \<and> tok_Line (fst (scanIdentOrKeyword line col l)) = line"
  by (auto simp: scanIdentOrKeyword_def Let_def)

lemma scanBytes_tok:
  "tok_Kind (fst (scanBytes line col l)) \<in> {TBytes, TError}
   \<and> tok_Line (fst (scanBytes line col l)) = line"
  by (auto simp: scanBytes_def Let_def split: sum.splits)

lemma scanToken_tok:
  "tok_Kind (fst (scanToken l)) \<noteq> TEOF \<and> tok_Line (fst (scanToken l)) = l_line l"
proof -
  have str: "tok_Kind (fst (scanString line col l)) \<noteq> TEOF \<and> tok_Line (fst (scanString line col l)) = line" for line col
    using string_loop_tok [of TString "''string literal''" line col "[]" "advance1 l"]
    by (auto simp: scanString_def)
  have pre: "k \<noteq> TEOF \<Longrightarrow> tok_Kind (fst (scanPrefixString line col k l)) \<noteq> TEOF \<and> tok_Line (fst (scanPrefixString line col k l)) = line" for line col k
    using string_loop_tok [of k "''prefix-string literal''" line col "[]" "advance 3 l"]
    by (auto simp: scanPrefixString_def)
  have num: "tok_Kind (fst (scanNumber line col l)) \<noteq> TEOF \<and> tok_Line (fst (scanNumber line col l)) = line" for line col
    using scanNumber_tok [of line col l] by auto
  have idn: "tok_Kind (fst (scanIdentOrKeyword line col l)) \<noteq> TEOF \<and> tok_Line (fst (scanIdentOrKeyword line col l)) = line" for line col
    using scanIdentOrKeyword_tok [of line col l] by auto
  have byt: "tok_Kind (fst (scanBytes line col l)) \<noteq> TEOF \<and> tok_Line (fst (scanBytes line col l)) = line" for line col
    using scanBytes_tok [of line col l] by auto
  show ?thesis
    unfolding scanToken_def Let_def scanTimestamp_def scanIP_def punct_def
    by (simp add: str pre num idn byt)
qed

text \<open>
  One round of the loop: the end of the source, or a token that is no end marker and a rest
  that starts further on.
\<close>

lemma lex_loop_cases:
  obtains (eof) l2 where "onward l l2" "l_pending l2 = None" "\<not> in_src l2"
      "lex_loop l = (pending_tokens (skipTrivia l) @ [mk_tok TEOF (l_line l2) (l_col l2)], l2)"
      "l_line l2 = l_line (skipTrivia l)"
    | (tok) l2 tok l3 toks l4 where "onward l l2" "l_pending l2 = None" "in_src l2" "scanToken l2 = (tok, l3)"
      "consumes l2 l3" "tok_Kind tok \<noteq> TEOF" "tok_Line tok = l_line l2" "lex_loop l3 = (toks, l4)"
      "lex_loop l = (pending_tokens (skipTrivia l) @ tok # toks, l4)"
      "l_line l2 = l_line (skipTrivia l)"
proof -
  define l2 where "l2 = (skipTrivia l)\<lparr>l_pending := None\<rparr>"
  have r: "onward l l2" "l_pending l2 = None" using skipTrivia_ok [of l] by (simp_all add: l2_def)
  show thesis
  proof (cases "in_src l2")
    case False
    then show thesis
      using r by (intro eof [of l2]) (auto simp: lex_loop.simps [of l] Let_def l2_def)
  next
    case True
    obtain tok l3 where sc: "scanToken l2 = (tok, l3)" by (metis surj_pair)
    obtain toks l4 where lp: "lex_loop l3 = (toks, l4)" by (metis surj_pair)
    have k: "tok_Kind tok \<noteq> TEOF" "tok_Line tok = l_line l2" using scanToken_tok [of l2] sc by auto
    have c: "consumes l2 l3" using consumes_scanToken [OF True] sc by simp
    have "lex_loop l = (pending_tokens (skipTrivia l) @ tok # toks, l4)"
      using True sc lp k by (simp add: lex_loop.simps [of l] Let_def l2_def)
    then show thesis using tok [OF r True sc c k lp] by (simp add: l2_def)
  qed
qed

lemma lex_loop_induct [case_names eof tok]:
  assumes "\<And>l l2. onward l l2 \<Longrightarrow> l_pending l2 = None \<Longrightarrow> \<not> in_src l2 \<Longrightarrow>
      lex_loop l = (pending_tokens (skipTrivia l) @ [mk_tok TEOF (l_line l2) (l_col l2)], l2) \<Longrightarrow>
      l_line l2 = l_line (skipTrivia l) \<Longrightarrow> P l"
    and "\<And>l l2 tok l3 toks l4. onward l l2 \<Longrightarrow> l_pending l2 = None \<Longrightarrow> in_src l2 \<Longrightarrow> scanToken l2 = (tok, l3) \<Longrightarrow> consumes l2 l3 \<Longrightarrow>
      tok_Kind tok \<noteq> TEOF \<Longrightarrow> tok_Line tok = l_line l2 \<Longrightarrow> lex_loop l3 = (toks, l4) \<Longrightarrow>
      lex_loop l = (pending_tokens (skipTrivia l) @ tok # toks, l4) \<Longrightarrow>
      l_line l2 = l_line (skipTrivia l) \<Longrightarrow> P l3 \<Longrightarrow> P l"
  shows "P l"
proof (induction "length (l_src l) - l_pos l" arbitrary: l rule: less_induct)
  case less
  show ?case
  proof (cases rule: lex_loop_cases [of l])
    case (eof l2)
    then show ?thesis by (rule assms(1))
  next
    case (tok l2 tok l3 toks l4)
    have "length (l_src l3) - l_pos l3 < length (l_src l) - l_pos l"
      using tok by (auto simp: consumes_def onward_def reach_def in_src_def)
    then have "P l3" by (rule less)
    then show ?thesis by (rule assms(2) [OF tok])
  qed
qed

lemma lex_loop_onward: "onward l (snd (lex_loop l)) \<and> \<not> in_src (snd (lex_loop l))"
proof (induction l rule: lex_loop_induct)
  case (eof l l2)
  then show ?case by simp
next
  case (tok l l2 tok l3 toks l4)
  have "onward l l3" using tok(1,5) by (auto simp: consumes_def intro: reach_onward onward_trans)
  also have "onward l3 l4" using tok(8,11) by simp
  finally show ?case using tok(8,9,11) by simp
qed

lemma onward_wf: "onward l l' \<Longrightarrow> wf_lexer l \<Longrightarrow> wf_lexer l'"
  using reach_wf by (fastforce simp: onward_def)

lemma onward_line: "onward l l' \<Longrightarrow> wf_lexer l \<Longrightarrow> l_line l \<le> l_line l'"
  using reach_line by (fastforce simp: onward_def)

lemma wf_new_lexer: "wf_lexer (new_lexer src)"
  by (simp add: wf_lexer_def new_lexer_def)

lemma Lex_eq: "Lex src = Some (fst (lex_loop (new_lexer src)))"
  using onward_wf [OF conjunct1 [OF lex_loop_onward] wf_new_lexer, of src]
  by (auto simp: Lex_def wf_lexer_def split: prod.splits)

text \<open>
  The tokens of a run from \<open>l\<close>: one end marker, in last place, and lines that grow from the line
  of \<open>l\<close> to the last line of the source.
\<close>

definition tokens_ok :: "nat \<Rightarrow> nat \<Rightarrow> Token list \<Rightarrow> bool" where
  "tokens_ok lo hi toks =
     (\<exists>ts e. toks = ts @ [e] \<and> tok_Kind e = TEOF \<and> tok_Line e = hi \<and>
        (\<forall>t \<in> set ts. tok_Kind t \<noteq> TEOF \<and> lo \<le> tok_Line t) \<and> sorted (map tok_Line toks))"

lemma tokens_ok_eof: "lo \<le> tok_Line e \<Longrightarrow> tok_Kind e = TEOF \<Longrightarrow> tokens_ok lo (tok_Line e) [e]"
  by (simp add: tokens_ok_def)

lemma tokens_ok_last: "tokens_ok lo hi toks \<Longrightarrow> t \<in> set toks \<Longrightarrow> tok_Line t \<le> hi"
  by (auto simp: tokens_ok_def sorted_append)

lemma tokens_ok_ge: "tokens_ok lo hi toks \<Longrightarrow> lo \<le> hi \<Longrightarrow> t \<in> set toks \<Longrightarrow> lo \<le> tok_Line t"
  by (auto simp: tokens_ok_def)

lemma tokens_ok_Cons:
  assumes "tokens_ok mid hi toks" "mid \<le> hi" "tok_Kind t \<noteq> TEOF" "lo \<le> tok_Line t" "tok_Line t \<le> mid"
  shows "tokens_ok lo hi (t # toks)"
proof -
  obtain ts e where ts: "toks = ts @ [e]" "tok_Kind e = TEOF" "tok_Line e = hi"
    "\<forall>u \<in> set ts. tok_Kind u \<noteq> TEOF \<and> mid \<le> tok_Line u" "sorted (map tok_Line toks)"
    using assms(1) by (auto simp: tokens_ok_def)
  have "\<forall>u \<in> set toks. tok_Line t \<le> tok_Line u"
    using ts assms(2,5) by auto
  then have "sorted (map tok_Line (t # toks))" using ts(5) by simp
  moreover have "\<forall>u \<in> set (t # ts). tok_Kind u \<noteq> TEOF \<and> lo \<le> tok_Line u"
    using ts(4) assms(3-5) by auto
  ultimately show ?thesis using ts(1-3) unfolding tokens_ok_def
    by (intro exI [of _ "t # ts"] exI [of _ e]) simp
qed

lemma tokens_ok_mono: "tokens_ok lo hi toks \<Longrightarrow> lo' \<le> lo \<Longrightarrow> tokens_ok lo' hi toks"
  by (fastforce simp: tokens_ok_def)

lemma tokens_ok_pending:
  assumes "tokens_ok (l_line l') hi toks" "l_line l' \<le> hi" "pend_ok b l'" "b \<le> l_line l'"
  shows "tokens_ok b hi (pending_tokens l' @ toks)"
proof (cases "l_pending l'")
  case None
  then show ?thesis using assms tokens_ok_mono by (simp add: pending_tokens_def)
next
  case (Some t)
  then show ?thesis
    using assms(3) tokens_ok_Cons [OF assms(1,2), of t b] by (simp add: pending_tokens_def pend_ok_def)
qed

lemma lex_loop_tokens:
  "wf_lexer l \<Longrightarrow> l_pending l = None \<Longrightarrow> tokens_ok (l_line l) (l_line (snd (lex_loop l))) (fst (lex_loop l))"
proof (induction l rule: lex_loop_induct)
  case (eof l l2)
  have p: "pend_ok (l_line l) (skipTrivia l)"
    using eof.prems skipTrivia_ok [of l "l_line l"] by (auto simp: pend_ok_def)
  have "l_line l \<le> l_line l2" using eof(1) eof.prems(1) by (rule onward_line)
  then have "tokens_ok (l_line l) (l_line l2) (pending_tokens (skipTrivia l) @ [mk_tok TEOF (l_line l2) (l_col l2)])"
    using p eof(5) tokens_ok_eof [of "l_line l2" "mk_tok TEOF (l_line l2) (l_col l2)"]
    by (intro tokens_ok_pending) simp_all
  with eof(4) show ?case by simp
next
  case (tok l l2 tok l3 toks l4)
  have p: "pend_ok (l_line l) (skipTrivia l)"
    using tok.prems skipTrivia_ok [of l "l_line l"] by (auto simp: pend_ok_def)
  have w2: "wf_lexer l2" using tok(1) tok.prems(1) by (rule onward_wf)
  have r: "reach l2 l3" using tok(5) by (simp add: consumes_def)
  have w3: "wf_lexer l3" "l_line l2 \<le> l_line l3"
    using reach_wf [OF r w2] reach_line [OF r w2] by simp_all
  have n3: "l_pending l3 = None" using reach_pending [OF r] tok(2) by simp
  have IH: "tokens_ok (l_line l3) (l_line l4) toks" using tok.IH w3(1) n3 tok(8) by simp
  have l34: "l_line l3 \<le> l_line l4"
    using onward_line [OF conjunct1 [OF lex_loop_onward] w3(1)] tok(8) by simp
  have "tokens_ok (l_line l2) (l_line l4) (tok # toks)"
    using tokens_ok_Cons [OF IH l34 tok(6)] tok(7) w3(2) by simp
  moreover have "l_line l \<le> l_line l2" using tok(1) tok.prems(1) by (rule onward_line)
  ultimately have "tokens_ok (l_line l) (l_line l4) (pending_tokens (skipTrivia l) @ tok # toks)"
    using p tok(10) w3(2) l34 by (intro tokens_ok_pending) simp_all
  with tok(9) show ?case by simp
qed

lemma Lex_tokens: "Lex src = Some toks \<Longrightarrow> tokens_ok 1 (Suc (count_list src nl)) toks"
proof -
  assume "Lex src = Some toks"
  then have toks: "toks = fst (lex_loop (new_lexer src))" by (simp add: Lex_eq)
  have o: "onward (new_lexer src) (snd (lex_loop (new_lexer src)))" "\<not> in_src (snd (lex_loop (new_lexer src)))"
    using lex_loop_onward by blast+
  have "l_line (snd (lex_loop (new_lexer src))) = Suc (count_list src nl)"
    using onward_wf [OF o(1) wf_new_lexer] o
    by (auto simp: wf_lexer_def in_src_def onward_def reach_def new_lexer_def)
  then show ?thesis
    using lex_loop_tokens [OF wf_new_lexer, of src] by (simp add: toks new_lexer_def)
qed

end
