(* ===== verification/Rule_Parser.thy ===== *)
theory Rule_Parser
  imports Rule_Lexer
begin

text \<open>
  The syntax tree and the recursive-descent parser, \<^verbatim>\<open>pkg/rule/parser/ast.go\<close> and
  \<^verbatim>\<open>pkg/rule/parser/parser.go\<close>. Every node carries the line and column of the source. A parse
  error is its position and the arguments of its message (the constructor stands for the format).

  The methods of the parser that reach \<^verbatim>\<open>parseOr\<close> again take it as an argument \<open>rec\<close>; the loops
  (\<^verbatim>\<open>or\<close>, \<^verbatim>\<open>and\<close>, \<^verbatim>\<open>not\<close>, comma lists, bracket chains) and \<open>parseOr\<close> itself spend fuel, and \<open>None\<close> means
  that it ran out. The locale \<open>recursive_parser\<close> states what the methods need from \<open>rec\<close>; its
  interpretation on \<open>parseOr\<close> shows that a fuel of one more than the number of tokens left is
  always enough, so that \<open>Parse\<close> returns on every input.
\<close>

section \<open>Syntax tree\<close>

datatype CmpOp = CmpEq | CmpNe | CmpLt | CmpLe | CmpGt | CmpGe

fun CmpOp_String :: "CmpOp \<Rightarrow> string" where
  "CmpOp_String CmpEq = ''eq''"
| "CmpOp_String CmpNe = ''ne''"
| "CmpOp_String CmpLt = ''lt''"
| "CmpOp_String CmpLe = ''le''"
| "CmpOp_String CmpGt = ''gt''"
| "CmpOp_String CmpGe = ''ge''"

datatype Node =
    LitString nat nat Value
  | LitInt nat nat Value
  | LitFloat nat nat Value
  | LitBool nat nat Value
  | LitDuration nat nat Value
  | LitTimestamp nat nat Value
  | LitIP nat nat string bool Value
  | LitBytes nat nat Value
  | LitArray nat nat "Node list"
  | FieldRef nat nat string
  | BracketAccess nat nat Node Node
  | FuncCall nat nat string "Node list"
  | And nat nat Node Node
  | Or nat nat Node Node
  | Not nat nat Node
  | Cmp nat nat CmpOp Node Node
  | Contains nat nat Node Node
  | StartsWith nat nat Node Node
  | EndsWith nat nat Node Node
  | Matches nat nat Node Node
  | Wildcard nat nat Node Node
  | BitAnd nat nat Node Node
  | In nat nat Node Node
  | Strict nat nat Node

fun Pos :: "Node \<Rightarrow> nat \<times> nat" where
  "Pos (LitString l c _) = (l, c)"
| "Pos (LitInt l c _) = (l, c)"
| "Pos (LitFloat l c _) = (l, c)"
| "Pos (LitBool l c _) = (l, c)"
| "Pos (LitDuration l c _) = (l, c)"
| "Pos (LitTimestamp l c _) = (l, c)"
| "Pos (LitIP l c _ _ _) = (l, c)"
| "Pos (LitBytes l c _) = (l, c)"
| "Pos (LitArray l c _) = (l, c)"
| "Pos (FieldRef l c _) = (l, c)"
| "Pos (BracketAccess l c _ _) = (l, c)"
| "Pos (FuncCall l c _ _) = (l, c)"
| "Pos (And l c _ _) = (l, c)"
| "Pos (Or l c _ _) = (l, c)"
| "Pos (Not l c _) = (l, c)"
| "Pos (Cmp l c _ _ _) = (l, c)"
| "Pos (Contains l c _ _) = (l, c)"
| "Pos (StartsWith l c _ _) = (l, c)"
| "Pos (EndsWith l c _ _) = (l, c)"
| "Pos (Matches l c _ _) = (l, c)"
| "Pos (Wildcard l c _ _) = (l, c)"
| "Pos (BitAnd l c _ _) = (l, c)"
| "Pos (In l c _ _) = (l, c)"
| "Pos (Strict l c _) = (l, c)"

section \<open>Parser state and results\<close>

datatype parse_msg =
    EmptyExpression
  | UnexpectedAfterExpression TokenKind string
  | Expected TokenKind TokenKind string
  | ExpectedKeyword string TokenKind string
  | InvalidInt string
  | InvalidFloat string
  | InvalidDuration string
  | InvalidTimestamp string
  | InvalidCIDR string
  | InvalidIP string
  | UnexpectedToken TokenKind string
  | UnknownStringOp string

record ParseError =
  pe_line :: nat
  pe_col :: nat
  pe_msg :: parse_msg

record Parser =
  p_toks :: "Token list"
  p_pos :: nat

type_synonym 'a presult = "(ParseError + 'a \<times> Parser) option"

definition errorAt :: "Token \<Rightarrow> parse_msg \<Rightarrow> ParseError" where
  "errorAt t msg = \<lparr>pe_line = tok_Line t, pe_col = tok_Column t, pe_msg = msg\<rparr>"

text \<open>\<^verbatim>\<open>Lex\<close> never returns an empty slice, so \<open>last\<close> is the last token.\<close>

definition peek :: "Parser \<Rightarrow> Token" where
  "peek p =
     (if p_pos p \<ge> length (p_toks p)
      then mk_tok TEOF (tok_Line (last (p_toks p))) (tok_Column (last (p_toks p)) + 1)
      else p_toks p ! p_pos p)"

definition errorf :: "Parser \<Rightarrow> parse_msg \<Rightarrow> ParseError" where
  "errorf p msg = errorAt (peek p) msg"

definition skip :: "Parser \<Rightarrow> Parser" where
  "skip p = (if p_pos p < length (p_toks p) then p\<lparr>p_pos := p_pos p + 1\<rparr> else p)"

definition consume :: "Parser \<Rightarrow> Token \<times> Parser" where
  "consume p = (peek p, skip p)"

definition expect :: "TokenKind \<Rightarrow> Parser \<Rightarrow> ParseError + Token \<times> Parser" where
  "expect kind p =
     (let t = peek p
      in if tok_Kind t \<noteq> kind then Inl (errorAt t (Expected kind (tok_Kind t) (tok_Value t)))
         else Inr (consume p))"

definition expectKeyword :: "string \<Rightarrow> Parser \<Rightarrow> ParseError + Token \<times> Parser" where
  "expectKeyword want p =
     (let t = peek p
      in if tok_Kind t \<noteq> TKeyword \<or> tok_Value t \<noteq> want
         then Inl (errorAt t (ExpectedKeyword want (tok_Kind t) (tok_Value t)))
         else Inr (consume p))"

definition pbind :: "'a presult \<Rightarrow> ('a \<Rightarrow> Parser \<Rightarrow> 'b presult) \<Rightarrow> 'b presult" where
  "pbind m f = (case m of
      None \<Rightarrow> None
    | Some (Inl e) \<Rightarrow> Some (Inl e)
    | Some (Inr (a, p)) \<Rightarrow> f a p)"

definition ret :: "'a \<Rightarrow> Parser \<Rightarrow> 'a presult" where
  "ret a p = Some (Inr (a, p))"

definition throw :: "ParseError \<Rightarrow> 'a presult" where
  "throw e = Some (Inl e)"

definition at_kw :: "string \<Rightarrow> Parser \<Rightarrow> bool" where
  "at_kw w p = (tok_Kind (peek p) = TKeyword \<and> tok_Value (peek p) = w)"

section \<open>Parser methods\<close>

text \<open>\<open>maybeBracketAccess\<close>: a chain of bracket accesses, each spending one unit of fuel.\<close>

fun maybeBracketAccess :: "(Parser \<Rightarrow> Node presult) \<Rightarrow> nat \<Rightarrow> Node \<Rightarrow> Parser \<Rightarrow> Node presult" where
  "maybeBracketAccess rec 0 base p = None"
| "maybeBracketAccess rec (Suc n) base p =
     (if tok_Kind (peek p) \<noteq> TLBrack then ret base p
      else case consume p of (openTok, p1) \<Rightarrow>
        pbind (rec p1) (\<lambda>key p2.
        pbind (Some (expect TRBrack p2)) (\<lambda>_ p3.
        maybeBracketAccess rec n (BracketAccess (tok_Line openTok) (tok_Column openTok) base key) p3)))"

definition parseParenthesised :: "(Parser \<Rightarrow> Node presult) \<Rightarrow> nat \<Rightarrow> Parser \<Rightarrow> Node presult" where
  "parseParenthesised rec n p =
     pbind (Some (expect TLParen p)) (\<lambda>_ p1.
     pbind (rec p1) (\<lambda>inner p2.
     pbind (Some (expect TRParen p2)) (\<lambda>_ p3.
     maybeBracketAccess rec n inner p3)))"

text \<open>The loop \<^verbatim>\<open>for p.peek().Kind == TComma\<close> of array literals and argument lists.\<close>

fun comma_list :: "(Parser \<Rightarrow> Node presult) \<Rightarrow> nat \<Rightarrow> Node list \<Rightarrow> Parser \<Rightarrow> Node list presult" where
  "comma_list rec 0 acc p = None"
| "comma_list rec (Suc n) acc p =
     (if tok_Kind (peek p) \<noteq> TComma then ret acc p
      else pbind (rec (skip p)) (\<lambda>next p1. comma_list rec n (acc @ [next]) p1))"

definition parseFuncCallTail :: "(Parser \<Rightarrow> Node presult) \<Rightarrow> nat \<Rightarrow> Token \<Rightarrow> Parser \<Rightarrow> Node presult" where
  "parseFuncCallTail rec n nameTok p =
     pbind (Some (expect TLParen (skip p))) (\<lambda>_ p1.
     if tok_Kind (peek p1) = TRParen then
       ret (FuncCall (tok_Line nameTok) (tok_Column nameTok) (tok_Value nameTok) []) (skip p1)
     else
       pbind (rec p1) (\<lambda>first p2.
       pbind (comma_list rec n [first] p2) (\<lambda>args p3.
       pbind (Some (expect TRParen p3)) (\<lambda>_ p4.
       ret (FuncCall (tok_Line nameTok) (tok_Column nameTok) (tok_Value nameTok) args) p4))))"

definition parseArrayLiteral :: "(Parser \<Rightarrow> Node presult) \<Rightarrow> nat \<Rightarrow> Parser \<Rightarrow> Node presult" where
  "parseArrayLiteral rec n p =
     pbind (Some (expect TLBrack p)) (\<lambda>openTok p1.
     if tok_Kind (peek p1) = TRBrack then
       ret (LitArray (tok_Line openTok) (tok_Column openTok) []) (skip p1)
     else
       pbind (rec p1) (\<lambda>first p2.
       pbind (comma_list rec n [first] p2) (\<lambda>elements p3.
       pbind (Some (expect TRBrack p3)) (\<lambda>_ p4.
       ret (LitArray (tok_Line openTok) (tok_Column openTok) elements) p4))))"

definition parseIPLiteral :: "Token \<Rightarrow> Parser \<Rightarrow> Node presult" where
  "parseIPLiteral tok p =
     (let raw = tok_Value tok; isCIDR = str_contains raw ''/''
      in if isCIDR then
           case ParseCIDR raw of
             None \<Rightarrow> throw (errorAt tok (InvalidCIDR raw))
           | Some (ip, _) \<Rightarrow> ret (LitIP (tok_Line tok) (tok_Column tok) raw True (NewIP ip)) p
         else
           case ParseIP raw of
             None \<Rightarrow> throw (errorAt tok (InvalidIP raw))
           | Some ip \<Rightarrow> ret (LitIP (tok_Line tok) (tok_Column tok) raw False (NewIP ip)) p)"

definition parsePrimary :: "golib \<Rightarrow> (Parser \<Rightarrow> Node presult) \<Rightarrow> nat \<Rightarrow> Parser \<Rightarrow> Node presult" where
  "parsePrimary L rec n p =
     (let tok = peek p; l = tok_Line tok; c = tok_Column tok; v = tok_Value tok
      in case tok_Kind tok of
           TString \<Rightarrow> ret (LitString l c (NewString v)) (skip p)
         | TInt \<Rightarrow> (case ParseInt v of
               None \<Rightarrow> throw (errorAt tok (InvalidInt v))
             | Some i \<Rightarrow> ret (LitInt l c (NewInt i)) (skip p))
         | TFloat \<Rightarrow> (case lib_parse_float L v of
               None \<Rightarrow> throw (errorAt tok (InvalidFloat v))
             | Some f \<Rightarrow> ret (LitFloat l c (NewFloat f)) (skip p))
         | TDuration \<Rightarrow> (case lib_parse_duration L v of
               None \<Rightarrow> throw (errorAt tok (InvalidDuration v))
             | Some d \<Rightarrow> ret (LitDuration l c (NewDuration d)) (skip p))
         | TTimestamp \<Rightarrow> (case lib_parse_time L RFC3339 v of
               None \<Rightarrow> throw (errorAt tok (InvalidTimestamp v))
             | Some t \<Rightarrow> ret (LitTimestamp l c (NewTimestamp t)) (skip p))
         | TIP \<Rightarrow> parseIPLiteral tok (skip p)
         | TBytes \<Rightarrow> ret (LitBytes l c (NewBytes (tok_Bytes tok))) (skip p)
         | TBool \<Rightarrow> ret (LitBool l c (NewBool (tok_Bool tok))) (skip p)
         | TIdent \<Rightarrow>
             if p_pos p + 1 < length (p_toks p) \<and> tok_Kind (p_toks p ! (p_pos p + 1)) = TLParen
             then parseFuncCallTail rec n tok p
             else ret (FieldRef l c v) (skip p)
         | TLParen \<Rightarrow> parseParenthesised rec n p
         | _ \<Rightarrow> throw (errorAt tok (UnexpectedToken (tok_Kind tok) v)))"

definition parseInTail :: "(Parser \<Rightarrow> Node presult) \<Rightarrow> nat \<Rightarrow> Node \<Rightarrow> Token \<Rightarrow> Parser \<Rightarrow> Node presult" where
  "parseInTail rec n left opTok p =
     pbind (parseArrayLiteral rec n (skip p)) (\<lambda>right p1.
     ret (In (tok_Line opTok) (tok_Column opTok) left right) p1)"

definition cmp_op_of :: "string \<Rightarrow> CmpOp" where
  "cmp_op_of v =
     (if v = ''eq'' then CmpEq else if v = ''ne'' then CmpNe else if v = ''lt'' then CmpLt
      else if v = ''le'' then CmpLe else if v = ''gt'' then CmpGt else if v = ''ge'' then CmpGe
      else CmpEq)"

definition strict_pos :: "Node \<Rightarrow> (nat \<times> nat) option" where
  "strict_pos n = (case n of Strict l c _ \<Rightarrow> Some (l, c) | _ \<Rightarrow> None)"

definition parseCmpTail ::
  "golib \<Rightarrow> (Parser \<Rightarrow> Node presult) \<Rightarrow> nat \<Rightarrow> Node \<Rightarrow> Token \<Rightarrow> Parser \<Rightarrow> Node presult" where
  "parseCmpTail L rec n left opTok p0 =
     (let p = skip p0;
          strictRight = (if at_kw ''strict'' p then Some (peek p) else None);
          p1 = (if at_kw ''strict'' p then skip p else p)
      in pbind (parsePrimary L rec n p1) (\<lambda>right0 p2.
           let right = (case strictRight of
                          None \<Rightarrow> right0
                        | Some kw \<Rightarrow> Strict (tok_Line kw) (tok_Column kw) right0);
               (wl, wc) = (case strict_pos left of
                             Some lc \<Rightarrow> lc
                           | None \<Rightarrow> (case strict_pos right of
                                        Some lc \<Rightarrow> lc
                                      | None \<Rightarrow> (tok_Line opTok, tok_Column opTok)))
           in ret (Cmp wl wc (cmp_op_of (tok_Value opTok)) left right) p2))"

definition parseStringOpTail ::
  "golib \<Rightarrow> (Parser \<Rightarrow> Node presult) \<Rightarrow> nat \<Rightarrow> Node \<Rightarrow> Token \<Rightarrow> Parser \<Rightarrow> Node presult" where
  "parseStringOpTail L rec n left opTok p =
     pbind (parsePrimary L rec n (skip p)) (\<lambda>right p1.
       let l = tok_Line opTok; c = tok_Column opTok; v = tok_Value opTok
       in if v = ''contains'' then ret (Contains l c left right) p1
          else if v = ''starts_with'' then ret (StartsWith l c left right) p1
          else if v = ''ends_with'' then ret (EndsWith l c left right) p1
          else if v = ''matches'' then ret (Matches l c left right) p1
          else if v = ''wildcard'' then ret (Wildcard l c left right) p1
          else throw (errorAt opTok (UnknownStringOp v)))"

definition parseBitAndTail ::
  "golib \<Rightarrow> (Parser \<Rightarrow> Node presult) \<Rightarrow> nat \<Rightarrow> Node \<Rightarrow> Token \<Rightarrow> Parser \<Rightarrow> Node presult" where
  "parseBitAndTail L rec n left opTok p =
     pbind (parsePrimary L rec n (skip p)) (\<lambda>right p1.
     ret (BitAnd (tok_Line opTok) (tok_Column opTok) left right) p1)"

text \<open>The rest of \<^verbatim>\<open>parseBinaryOp\<close> after its left operand: the dispatch on the operator.\<close>

definition binary_tail :: "golib \<Rightarrow> (Parser \<Rightarrow> Node presult) \<Rightarrow> nat \<Rightarrow> Node \<Rightarrow> Parser \<Rightarrow> Node presult" where
  "binary_tail L rec n left p =
     (let tok = peek p; v = tok_Value tok
      in if tok_Kind tok \<noteq> TKeyword \<and> tok_Kind tok \<noteq> TAmpersand then ret left p
         else if tok_Kind tok = TAmpersand then parseBitAndTail L rec n left tok p
         else if v = ''in'' then parseInTail rec n left tok p
         else if v \<in> set [''eq'', ''ne'', ''lt'', ''le'', ''gt'', ''ge''] then
           parseCmpTail L rec n left tok p
         else if v \<in> set [''contains'', ''starts_with'', ''ends_with'', ''matches'', ''wildcard''] then
           parseStringOpTail L rec n left tok p
         else ret left p)"

definition parseBinaryOp :: "golib \<Rightarrow> (Parser \<Rightarrow> Node presult) \<Rightarrow> nat \<Rightarrow> Parser \<Rightarrow> Node presult" where
  "parseBinaryOp L rec n p0 =
     (let strictWrap = (if at_kw ''strict'' p0 then Some (peek p0) else None);
          p = (if at_kw ''strict'' p0 then skip p0 else p0)
      in pbind (parsePrimary L rec n p) (\<lambda>left0 p1.
         pbind (maybeBracketAccess rec n left0 p1) (\<lambda>left1 p2.
         binary_tail L rec n
           (case strictWrap of
              None \<Rightarrow> left1
            | Some kw \<Rightarrow> Strict (tok_Line kw) (tok_Column kw) left1) p2)))"

definition parseComparison :: "golib \<Rightarrow> (Parser \<Rightarrow> Node presult) \<Rightarrow> nat \<Rightarrow> Parser \<Rightarrow> Node presult" where
  "parseComparison L rec n p = parseBinaryOp L rec n p"

text \<open>In \<open>parseNot\<close> the loops below it keep the fuel \<open>n\<close>; the chain of \<^verbatim>\<open>not\<close>s spends \<open>k\<close>.\<close>

fun parseNot :: "golib \<Rightarrow> (Parser \<Rightarrow> Node presult) \<Rightarrow> nat \<Rightarrow> nat \<Rightarrow> Parser \<Rightarrow> Node presult" where
  "parseNot L rec n 0 p = None"
| "parseNot L rec n (Suc k) p =
     (if at_kw ''not'' p then
        case consume p of (opTok, p1) \<Rightarrow>
          pbind (parseNot L rec n k p1) (\<lambda>operand p2.
          ret (Not (tok_Line opTok) (tok_Column opTok) operand) p2)
      else parseComparison L rec n p)"

fun and_loop :: "golib \<Rightarrow> (Parser \<Rightarrow> Node presult) \<Rightarrow> nat \<Rightarrow> nat \<Rightarrow> Node \<Rightarrow> Parser \<Rightarrow> Node presult" where
  "and_loop L rec n 0 left p = None"
| "and_loop L rec n (Suc k) left p =
     (if at_kw ''and'' p then
        case consume p of (opTok, p1) \<Rightarrow>
          pbind (parseNot L rec n n p1) (\<lambda>right p2.
          and_loop L rec n k (And (tok_Line opTok) (tok_Column opTok) left right) p2)
      else ret left p)"

definition parseAnd :: "golib \<Rightarrow> (Parser \<Rightarrow> Node presult) \<Rightarrow> nat \<Rightarrow> Parser \<Rightarrow> Node presult" where
  "parseAnd L rec n p = pbind (parseNot L rec n n p) (\<lambda>left p1. and_loop L rec n n left p1)"

fun or_loop :: "golib \<Rightarrow> (Parser \<Rightarrow> Node presult) \<Rightarrow> nat \<Rightarrow> nat \<Rightarrow> Node \<Rightarrow> Parser \<Rightarrow> Node presult" where
  "or_loop L rec n 0 left p = None"
| "or_loop L rec n (Suc k) left p =
     (if at_kw ''or'' p then
        case consume p of (opTok, p1) \<Rightarrow>
          pbind (parseAnd L rec n p1) (\<lambda>right p2.
          or_loop L rec n k (Or (tok_Line opTok) (tok_Column opTok) left right) p2)
      else ret left p)"

fun parseOr :: "golib \<Rightarrow> nat \<Rightarrow> Parser \<Rightarrow> Node presult" where
  "parseOr L 0 p = None"
| "parseOr L (Suc n) p =
     pbind (parseAnd L (parseOr L n) (Suc n) p) (\<lambda>left p1.
     or_loop L (parseOr L n) (Suc n) (Suc n) left p1)"

definition parseExpression :: "golib \<Rightarrow> nat \<Rightarrow> Parser \<Rightarrow> Node presult" where
  "parseExpression L fuel p =
     (if tok_Kind (peek p) = TEOF then throw (errorf p EmptyExpression)
      else pbind (parseOr L fuel p) (\<lambda>root p1.
        let t = peek p1
        in if tok_Kind t \<noteq> TEOF
           then throw (errorAt t (UnexpectedAfterExpression (tok_Kind t) (tok_Value t)))
           else ret root p1))"

definition NewParser :: "string \<Rightarrow> Parser" where
  "NewParser src = \<lparr>p_toks = (case Lex src of None \<Rightarrow> [] | Some toks \<Rightarrow> toks), p_pos = 0\<rparr>"

text \<open>\<open>None\<close>: the parser does not return.\<close>

definition Parse :: "golib \<Rightarrow> string \<Rightarrow> (ParseError + Node) option" where
  "Parse L src =
     (let p = NewParser src
      in map_option (map_sum id fst) (parseExpression L (Suc (length (p_toks p))) p))"

section \<open>Fuel\<close>

definition toks_left :: "Parser \<Rightarrow> nat" where
  "toks_left p = length (p_toks p) - p_pos p"

text \<open>\<open>p'\<close> is in the same tokens, further on.\<close>

definition past :: "Parser \<Rightarrow> Parser \<Rightarrow> bool" where
  "past p p' = (p_toks p' = p_toks p \<and> p_pos p < p_pos p' \<and> p_pos p' \<le> length (p_toks p))"

text \<open>The result is an error or a success further on; for \<open>stays\<close>, it may also stand still.\<close>

definition returns :: "Parser \<Rightarrow> 'a presult \<Rightarrow> bool" where
  "returns p r = (case r of None \<Rightarrow> False | Some (Inl _) \<Rightarrow> True | Some (Inr (_, p')) \<Rightarrow> past p p')"

definition stays :: "Parser \<Rightarrow> 'a presult \<Rightarrow> bool" where
  "stays p r = (case r of None \<Rightarrow> False | Some (Inl _) \<Rightarrow> True | Some (Inr (_, p')) \<Rightarrow> p' = p \<or> past p p')"

lemma pbind_simps [simp]:
  "pbind None f = None" "pbind (Some (Inl e)) f = Some (Inl e)" "pbind (Some (Inr (a, p))) f = f a p"
  by (simp_all add: pbind_def)

lemma presult_cases:
  obtains (None) "m = None" | (Err) e where "m = Some (Inl e)" | (Ok) a p where "m = Some (Inr (a, p))"
  by (metis obj_sumE option.exhaust surj_pair)

lemma peek_in: "tok_Kind (peek p) \<noteq> TEOF \<Longrightarrow> p_pos p < length (p_toks p)"
  by (auto simp: peek_def split: if_splits)

lemma past_skip: "tok_Kind (peek p) \<noteq> TEOF \<Longrightarrow> past p (skip p)"
  using peek_in [of p] by (simp add: past_def skip_def)

lemma past_skip_kw: "at_kw w p \<Longrightarrow> past p (skip p)"
  by (rule past_skip) (simp add: at_kw_def)

lemma past_trans: "past p q \<Longrightarrow> past q r \<Longrightarrow> past p r"
  by (auto simp: past_def)

lemma past_left: "past p q \<Longrightarrow> toks_left q < toks_left p"
  by (auto simp: past_def toks_left_def)

lemma returns_simps [simp]:
  "returns p (throw e)" "stays p (throw e)" "returns p (ret a q) = past p q"
  "stays p (ret a q) = (q = p \<or> past p q)"
  by (simp_all add: returns_def stays_def throw_def ret_def)

lemma returns_stays: "returns p r \<Longrightarrow> stays p r"
  by (cases r rule: presult_cases) (auto simp: returns_def stays_def)

lemma returns_past: "past p q \<Longrightarrow> stays q r \<Longrightarrow> returns p r"
  using past_trans by (cases r rule: presult_cases) (auto simp: returns_def stays_def)

lemma stays_past: "q = p \<or> past p q \<Longrightarrow> stays q r \<Longrightarrow> stays p r"
  using returns_past returns_stays by blast

lemma returns_expect: "kind \<noteq> TEOF \<Longrightarrow> returns p (Some (expect kind p))"
  by (auto simp: expect_def Let_def returns_def consume_def past_skip)

lemma returns_bind:
  assumes "returns p m" "\<And>a q. past p q \<Longrightarrow> stays q (f a q)"
  shows "returns p (pbind m f)"
proof (cases m rule: presult_cases)
  case (Ok a q)
  then have "past p q" using assms(1) by (simp add: returns_def)
  with Ok show ?thesis using assms(2) [of q a] returns_past [of p q "f a q"] by simp
qed (use assms(1) in \<open>simp_all add: returns_def\<close>)

lemma stays_bind:
  assumes "stays p m" "\<And>a q. q = p \<or> past p q \<Longrightarrow> stays q (f a q)"
  shows "stays p (pbind m f)"
proof (cases m rule: presult_cases)
  case (Ok a q)
  then have "q = p \<or> past p q" using assms(1) by (simp add: stays_def)
  with Ok show ?thesis using assms(2) stays_past by (metis pbind_simps(3))
qed (use assms(1) in \<open>simp_all add: stays_def\<close>)

lemma stays_expect_bind:
  assumes "kind \<noteq> TEOF" "\<And>a q. past p q \<Longrightarrow> stays q (f a q)"
  shows "stays p (pbind (Some (expect kind p)) f)"
  by (rule returns_stays, rule returns_bind [OF returns_expect]) (use assms in auto)

text \<open>
  What the methods need from \<open>rec\<close>: from any state with fewer than \<open>m\<close> tokens left it returns, and
  consumes a token when it succeeds.
\<close>

locale recursive_parser =
  fixes rec :: "Parser \<Rightarrow> Node presult" and m :: nat
  assumes rec_returns: "toks_left p < m \<Longrightarrow> returns p (rec p)"
begin

lemma rec_stays_bind:
  assumes "toks_left p < m" "\<And>a q. past p q \<Longrightarrow> stays q (f a q)"
  shows "stays p (pbind (rec p) f)"
  by (rule returns_stays, rule returns_bind [OF rec_returns]) (use assms in auto)

lemma bracket_stays:
  "toks_left p < k \<Longrightarrow> toks_left p \<le> m \<Longrightarrow> stays p (maybeBracketAccess rec k base p)"
proof (induction k arbitrary: base p)
  case (Suc k)
  show ?case
  proof (cases "tok_Kind (peek p) = TLBrack")
    case True
    then have s: "past p (skip p)" by (simp add: past_skip)
    have "stays (skip p) (pbind (rec (skip p)) (\<lambda>key p2. pbind (Some (expect TRBrack p2)) (\<lambda>_ p3.
            maybeBracketAccess rec k (BracketAccess (tok_Line (peek p)) (tok_Column (peek p)) base key) p3)))"
    proof (rule rec_stays_bind)
      show "toks_left (skip p) < m" using past_left [OF s] Suc.prems by simp
      fix key p2 assume p2: "past (skip p) p2"
      show "stays p2 (pbind (Some (expect TRBrack p2)) (\<lambda>_ p3.
            maybeBracketAccess rec k (BracketAccess (tok_Line (peek p)) (tok_Column (peek p)) base key) p3))"
      proof (rule stays_expect_bind)
        fix t p3 assume "past p2 p3"
        then have "toks_left p3 < toks_left p" using s p2 past_left past_trans by blast
        then show "stays p3 (maybeBracketAccess rec k
            (BracketAccess (tok_Line (peek p)) (tok_Column (peek p)) base key) p3)"
          using Suc.prems by (intro Suc.IH) auto
      qed simp
    qed
    with s True show ?thesis using stays_past [of "skip p" p] by (simp add: consume_def)
  qed simp
qed simp

lemma comma_stays:
  "toks_left p < k \<Longrightarrow> toks_left p \<le> m \<Longrightarrow> stays p (comma_list rec k acc p)"
proof (induction k arbitrary: acc p)
  case (Suc k)
  show ?case
  proof (cases "tok_Kind (peek p) = TComma")
    case True
    then have s: "past p (skip p)" by (simp add: past_skip)
    have "stays (skip p) (pbind (rec (skip p)) (\<lambda>x p1. comma_list rec k (acc @ [x]) p1))"
    proof (rule rec_stays_bind)
      show "toks_left (skip p) < m" using past_left [OF s] Suc.prems by simp
      fix x p1 assume "past (skip p) p1"
      then have "toks_left p1 < toks_left p" using s past_left past_trans by blast
      then show "stays p1 (comma_list rec k (acc @ [x]) p1)" using Suc.prems by (intro Suc.IH) auto
    qed
    with s True show ?thesis using stays_past [of "skip p" p] by simp
  qed simp
qed simp

text \<open>\<open>first, next, ..., close\<close>: the tail shared by array literals and argument lists.\<close>

lemma items_stays:
  assumes "toks_left p < m" "toks_left p < n" "close \<noteq> TEOF"
    "\<And>t xs p3 p4. past p3 p4 \<Longrightarrow> stays p4 (f xs t p4)"
  shows "stays p (pbind (rec p) (\<lambda>x p2. pbind (comma_list rec n [x] p2)
           (\<lambda>xs p3. pbind (Some (expect close p3)) (\<lambda>t p4. f xs t p4))))"
proof (rule rec_stays_bind [OF assms(1)])
  fix x p2 assume p2: "past p p2"
  show "stays p2 (pbind (comma_list rec n [x] p2)
          (\<lambda>xs p3. pbind (Some (expect close p3)) (\<lambda>t p4. f xs t p4)))"
  proof (rule stays_bind)
    show "stays p2 (comma_list rec n [x] p2)"
      using past_left [OF p2] assms by (intro comma_stays) auto
    show "stays p3 (pbind (Some (expect close p3)) (\<lambda>t p4. f xs t p4))" for xs p3
      using assms(3,4) by (intro stays_expect_bind) auto
  qed
qed

lemma paren_returns:
  assumes "toks_left p \<le> m" "toks_left p \<le> n" "tok_Kind (peek p) = TLParen" "0 < n"
  shows "returns p (parseParenthesised rec n p)"
  unfolding parseParenthesised_def
proof (rule returns_bind [OF returns_expect])
  fix t p1 assume p1: "past p p1"
  have l1: "toks_left p1 < toks_left p" using p1 by (rule past_left)
  show "stays p1 (pbind (rec p1) (\<lambda>inner p2. pbind (Some (expect TRParen p2)) (\<lambda>_ p3.
          maybeBracketAccess rec n inner p3)))"
  proof (rule rec_stays_bind)
    show "toks_left p1 < m" using l1 assms(1) by simp
    fix inner p2 assume p2: "past p1 p2"
    show "stays p2 (pbind (Some (expect TRParen p2)) (\<lambda>_ p3. maybeBracketAccess rec n inner p3))"
    proof (rule stays_expect_bind)
      fix t p3 assume "past p2 p3"
      then have "toks_left p3 < toks_left p" using p1 p2 past_left past_trans by blast
      then show "stays p3 (maybeBracketAccess rec n inner p3)"
        using assms by (intro bracket_stays) auto
    qed simp
  qed
qed simp

lemma func_returns:
  assumes "toks_left p \<le> m" "toks_left p \<le> n" "tok_Kind (peek p) = TIdent"
  shows "returns p (parseFuncCallTail rec n t p)"
proof -
  have s: "past p (skip p)" using assms(3) by (simp add: past_skip)
  have "stays (skip p) (parseFuncCallTail rec n t p)"
    unfolding parseFuncCallTail_def
  proof (rule stays_expect_bind)
    fix a p1 assume p1: "past (skip p) p1"
    have l1: "toks_left p1 < toks_left p" using s p1 past_left past_trans by blast
    show "stays p1 (if tok_Kind (peek p1) = TRParen then
            ret (FuncCall (tok_Line t) (tok_Column t) (tok_Value t) []) (skip p1)
          else pbind (rec p1) (\<lambda>first p2. pbind (comma_list rec n [first] p2) (\<lambda>args p3.
            pbind (Some (expect TRParen p3)) (\<lambda>_ p4.
            ret (FuncCall (tok_Line t) (tok_Column t) (tok_Value t) args) p4))))"
      using l1 assms(1,2) past_skip [of p1] by (auto intro!: items_stays)
  qed simp
  with s show ?thesis by (rule returns_past)
qed

lemma array_returns:
  assumes "toks_left p \<le> m" "toks_left p \<le> n"
  shows "returns p (parseArrayLiteral rec n p)"
  unfolding parseArrayLiteral_def
proof (rule returns_bind [OF returns_expect])
  fix t p1 assume "past p p1"
  then have l1: "toks_left p1 < toks_left p" by (rule past_left)
  show "stays p1 (if tok_Kind (peek p1) = TRBrack then
          ret (LitArray (tok_Line t) (tok_Column t) []) (skip p1)
        else pbind (rec p1) (\<lambda>first p2. pbind (comma_list rec n [first] p2) (\<lambda>elements p3.
          pbind (Some (expect TRBrack p3)) (\<lambda>_ p4.
          ret (LitArray (tok_Line t) (tok_Column t) elements) p4))))"
    using l1 assms past_skip [of p1] by (auto intro!: items_stays)
qed simp

lemma ip_returns: "past p q \<Longrightarrow> returns p (parseIPLiteral t q)"
  by (auto simp: parseIPLiteral_def Let_def split: option.splits)

lemma primary_returns:
  assumes "toks_left p \<le> m" "toks_left p \<le> n"
  shows "returns p (parsePrimary L rec n p)"
proof (cases "tok_Kind (peek p) = TEOF")
  case True
  then show ?thesis by (simp add: parsePrimary_def Let_def)
next
  case False
  then have s: "past p (skip p)" by (rule past_skip)
  then have n: "0 < n" using past_left [OF s] assms(2) by simp
  from s show ?thesis
    using func_returns [OF assms, of "peek p"] paren_returns [OF assms _ n] ip_returns [OF s]
    by (cases "tok_Kind (peek p)")
       (auto simp: parsePrimary_def Let_def split: option.splits)
qed

text \<open>A primary after some consumed tokens, followed by something that returns.\<close>

lemma primary_then:
  assumes "past p q" "toks_left p \<le> m" "toks_left p \<le> n"
    "\<And>a r. past q r \<Longrightarrow> stays r (f a r)"
  shows "returns p (pbind (parsePrimary L rec n q) f)"
proof (rule returns_past [OF assms(1)], rule returns_stays, rule returns_bind)
  show "returns q (parsePrimary L rec n q)"
    using past_left [OF assms(1)] assms(2,3) by (intro primary_returns) auto
qed (use assms(4) in auto)

lemma cmp_returns:
  assumes "toks_left p \<le> m" "toks_left p \<le> n" "tok_Kind (peek p) = TKeyword"
  shows "returns p (parseCmpTail L rec n lft t p)"
proof -
  have s: "past p (skip p)" using assms(3) by (simp add: past_skip)
  have "past p (if at_kw ''strict'' (skip p) then skip (skip p) else skip p)"
    using s past_skip_kw past_trans by auto
  then show ?thesis
    unfolding parseCmpTail_def Let_def
    by (rule primary_then) (use assms in \<open>auto split: prod.splits\<close>)
qed

lemma string_returns:
  assumes "toks_left p \<le> m" "toks_left p \<le> n" "tok_Kind (peek p) = TKeyword"
  shows "returns p (parseStringOpTail L rec n lft t p)"
  unfolding parseStringOpTail_def Let_def
  by (rule primary_then [of p "skip p"]) (use assms in \<open>auto simp: past_skip\<close>)

lemma bitand_returns:
  assumes "toks_left p \<le> m" "toks_left p \<le> n" "tok_Kind (peek p) = TAmpersand"
  shows "returns p (parseBitAndTail L rec n lft t p)"
  unfolding parseBitAndTail_def
  by (rule primary_then [of p "skip p"]) (use assms in \<open>auto simp: past_skip\<close>)

lemma in_returns:
  assumes "toks_left p \<le> m" "toks_left p \<le> n" "tok_Kind (peek p) = TKeyword"
  shows "returns p (parseInTail rec n lft t p)"
  unfolding parseInTail_def
proof (rule returns_past, rule past_skip)
  have "past p (skip p)" using assms(3) by (simp add: past_skip)
  then have "toks_left (skip p) \<le> m" "toks_left (skip p) \<le> n" using past_left assms(1,2) by fastforce+
  then show "stays (skip p) (pbind (parseArrayLiteral rec n (skip p)) (\<lambda>right p1.
               ret (In (tok_Line t) (tok_Column t) lft right) p1))"
    by (intro stays_bind [OF returns_stays [OF array_returns]]) auto
qed (use assms(3) in simp)

lemma binary_tail_stays:
  assumes "toks_left p \<le> m" "toks_left p \<le> n"
  shows "stays p (binary_tail L rec n lft p)"
  using assms
  by (simp add: binary_tail_def Let_def returns_stays bitand_returns in_returns cmp_returns string_returns)

lemma binary_returns:
  assumes "toks_left p \<le> m" "toks_left p < n"
  shows "returns p (parseBinaryOp L rec n p)"
proof -
  define q where "q = (if at_kw ''strict'' p then skip p else p)"
  have s: "q = p \<or> past p q" using past_skip_kw by (auto simp: q_def)
  then have lq: "toks_left q \<le> toks_left p" using past_left by fastforce
  have "returns q (parseBinaryOp L rec n p)"
    unfolding parseBinaryOp_def Let_def q_def [symmetric]
  proof (rule returns_bind)
    show "returns q (parsePrimary L rec n q)" using lq assms by (intro primary_returns) auto
    fix left0 p1 assume "past q p1"
    then have l1: "toks_left p1 < toks_left p" using past_left lq by fastforce
    then have b: "stays p1 (maybeBracketAccess rec n left0 p1)" using assms by (intro bracket_stays) auto
    show "stays p1 (pbind (maybeBracketAccess rec n left0 p1) (\<lambda>left1. binary_tail L rec n
            (case if at_kw ''strict'' p then Some (peek p) else None of
               None \<Rightarrow> left1 | Some kw \<Rightarrow> Strict (tok_Line kw) (tok_Column kw) left1)))"
    proof (rule stays_bind [OF b])
      fix left1 p2 assume "p2 = p1 \<or> past p1 p2"
      then have "toks_left p2 \<le> m" "toks_left p2 \<le> n" using l1 past_left assms by fastforce+
      then show "stays p2 (binary_tail L rec n (case if at_kw ''strict'' p then Some (peek p) else None of
               None \<Rightarrow> left1 | Some kw \<Rightarrow> Strict (tok_Line kw) (tok_Column kw) left1) p2)"
        by (rule binary_tail_stays)
    qed
  qed
  with s show ?thesis using returns_past returns_stays by metis
qed

lemma not_returns:
  "toks_left p < k \<Longrightarrow> toks_left p \<le> m \<Longrightarrow> toks_left p < n \<Longrightarrow> returns p (parseNot L rec n k p)"
proof (induction k arbitrary: p)
  case (Suc k)
  show ?case
  proof (cases "at_kw ''not'' p")
    case True
    then have s: "past p (skip p)" by (rule past_skip_kw)
    then have "returns (skip p) (parseNot L rec n k (skip p))"
      using past_left [OF s] Suc.prems by (intro Suc.IH) auto
    then have "returns (skip p) (pbind (parseNot L rec n k (skip p)) (\<lambda>operand p2.
                 ret (Not (tok_Line (peek p)) (tok_Column (peek p)) operand) p2))"
      by (rule returns_bind) simp
    with s True show ?thesis using returns_past returns_stays by (simp add: consume_def) blast
  next
    case False
    then show ?thesis using binary_returns Suc.prems by (simp add: parseComparison_def)
  qed
qed simp

lemma and_loop_stays:
  "toks_left p < k \<Longrightarrow> toks_left p \<le> m \<Longrightarrow> toks_left p < n \<Longrightarrow> stays p (and_loop L rec n k lft p)"
proof (induction k arbitrary: lft p)
  case (Suc k)
  show ?case
  proof (cases "at_kw ''and'' p")
    case True
    then have s: "past p (skip p)" by (rule past_skip_kw)
    let ?And = "And (tok_Line (peek p)) (tok_Column (peek p)) lft"
    have "returns (skip p) (pbind (parseNot L rec n n (skip p)) (\<lambda>right. and_loop L rec n k (?And right)))"
    proof (rule returns_bind)
      show "returns (skip p) (parseNot L rec n n (skip p))"
        using past_left [OF s] Suc.prems by (intro not_returns) auto
      fix right p2 assume "past (skip p) p2"
      then have "toks_left p2 < toks_left p" using s past_left past_trans by blast
      then show "stays p2 (and_loop L rec n k (?And right) p2)" using Suc.prems by (intro Suc.IH) auto
    qed
    with s True show ?thesis using stays_past returns_stays by (simp add: consume_def) blast
  qed simp
qed simp

lemma and_returns:
  assumes "toks_left p \<le> m" "toks_left p < n"
  shows "returns p (parseAnd L rec n p)"
  unfolding parseAnd_def
proof (rule returns_bind)
  show "returns p (parseNot L rec n n p)" using assms by (intro not_returns)
  fix l q assume "past p q"
  then show "stays q (and_loop L rec n n l q)" using past_left [of p q] assms by (intro and_loop_stays) auto
qed

lemma or_loop_stays:
  "toks_left p < k \<Longrightarrow> toks_left p \<le> m \<Longrightarrow> toks_left p < n \<Longrightarrow> stays p (or_loop L rec n k lft p)"
proof (induction k arbitrary: lft p)
  case (Suc k)
  show ?case
  proof (cases "at_kw ''or'' p")
    case True
    then have s: "past p (skip p)" by (rule past_skip_kw)
    let ?Or = "Or (tok_Line (peek p)) (tok_Column (peek p)) lft"
    have "returns (skip p) (pbind (parseAnd L rec n (skip p)) (\<lambda>right. or_loop L rec n k (?Or right)))"
    proof (rule returns_bind)
      show "returns (skip p) (parseAnd L rec n (skip p))"
        using past_left [OF s] Suc.prems by (intro and_returns) auto
      fix right p2 assume "past (skip p) p2"
      then have "toks_left p2 < toks_left p" using s past_left past_trans by blast
      then show "stays p2 (or_loop L rec n k (?Or right) p2)" using Suc.prems by (intro Suc.IH) auto
    qed
    with s True show ?thesis using stays_past returns_stays by (simp add: consume_def) blast
  qed simp
qed simp

lemma or_returns:
  assumes "toks_left p \<le> m" "toks_left p < n"
  shows "returns p (pbind (parseAnd L rec n p) (or_loop L rec n n))"
proof (rule returns_bind)
  show "returns p (parseAnd L rec n p)" using assms by (rule and_returns)
  fix l q assume "past p q"
  then show "stays q (or_loop L rec n n l q)" using past_left [of p q] assms by (intro or_loop_stays) auto
qed

end

text \<open>\<open>parseOr\<close> with fuel \<open>n\<close> is such a parser for fewer than \<open>n\<close> tokens.\<close>

lemma parseOr_returns: "toks_left p < n \<Longrightarrow> returns p (parseOr L n p)"
proof (induction n arbitrary: p)
  case (Suc n)
  have "recursive_parser (parseOr L n) n" by unfold_locales (rule Suc.IH)
  then show ?case using Suc.prems
    by (simp add: recursive_parser.or_returns)
qed simp

interpretation parse_or: recursive_parser "parseOr L n" n for L n
  by unfold_locales (rule parseOr_returns)

lemma parseExpression_returns:
  assumes "toks_left p < n"
  shows "returns p (parseExpression L n p)"
proof (cases "tok_Kind (peek p) = TEOF")
  case False
  then show ?thesis
    unfolding parseExpression_def Let_def if_not_P [OF False]
    by (intro returns_bind [OF parse_or.rec_returns [OF assms]]) simp
qed (simp add: parseExpression_def)

lemma toks_left_NewParser: "toks_left (NewParser src) = length (p_toks (NewParser src))"
  by (simp add: toks_left_def NewParser_def)

lemma Parse_returns: "\<exists>r. Parse L src = Some r"
proof -
  have "returns (NewParser src) (parseExpression L (Suc (length (p_toks (NewParser src)))) (NewParser src))"
    by (rule parseExpression_returns) (simp add: toks_left_NewParser)
  then show ?thesis
    by (auto simp: Parse_def Let_def returns_def split: option.splits)
qed

section \<open>Parsed trees are well formed\<close>

text \<open>
  A literal node holds a value of its kind, an address literal the value its text denotes, and the
  right side of \<^verbatim>\<open>in\<close> is an array literal.
\<close>

fun node_ok :: "Node \<Rightarrow> bool" where
  "node_ok (LitString _ _ v) = (Kind_of v = KindString)"
| "node_ok (LitInt _ _ v) = (Kind_of v = KindInt)"
| "node_ok (LitFloat _ _ v) = (Kind_of v = KindFloat)"
| "node_ok (LitBool _ _ v) = (Kind_of v = KindBool)"
| "node_ok (LitDuration _ _ v) = (Kind_of v = KindDuration)"
| "node_ok (LitTimestamp _ _ v) = (Kind_of v = KindTimestamp)"
| "node_ok (LitIP _ _ raw cidr v) =
     (if cidr then (case ParseCIDR raw of None \<Rightarrow> False | Some (ip, _) \<Rightarrow> v = VIP ip)
      else (case ParseIP raw of None \<Rightarrow> False | Some ip \<Rightarrow> v = VIP ip))"
| "node_ok (LitBytes _ _ v) = (Kind_of v = KindBytes)"
| "node_ok (LitArray _ _ es) = list_all node_ok es"
| "node_ok (FieldRef _ _ _) = True"
| "node_ok (BracketAccess _ _ b k) = (node_ok b \<and> node_ok k)"
| "node_ok (FuncCall _ _ _ as) = list_all node_ok as"
| "node_ok (And _ _ a b) = (node_ok a \<and> node_ok b)"
| "node_ok (Or _ _ a b) = (node_ok a \<and> node_ok b)"
| "node_ok (Not _ _ a) = node_ok a"
| "node_ok (Cmp _ _ _ a b) = (node_ok a \<and> node_ok b)"
| "node_ok (Contains _ _ a b) = (node_ok a \<and> node_ok b)"
| "node_ok (StartsWith _ _ a b) = (node_ok a \<and> node_ok b)"
| "node_ok (EndsWith _ _ a b) = (node_ok a \<and> node_ok b)"
| "node_ok (Matches _ _ a b) = (node_ok a \<and> node_ok b)"
| "node_ok (Wildcard _ _ a b) = (node_ok a \<and> node_ok b)"
| "node_ok (BitAnd _ _ a b) = (node_ok a \<and> node_ok b)"
| "node_ok (In _ _ a b) = (node_ok a \<and> node_ok b \<and> (case b of LitArray _ _ _ \<Rightarrow> True | _ \<Rightarrow> False))"
| "node_ok (Strict _ _ a) = node_ok a"

text \<open>Every successful result satisfies \<open>P\<close>.\<close>

definition yields :: "('a \<Rightarrow> bool) \<Rightarrow> 'a presult \<Rightarrow> bool" where
  "yields P r = (case r of Some (Inr (a, _)) \<Rightarrow> P a | _ \<Rightarrow> True)"

lemma yields_simps [simp]:
  "yields P None" "yields P (Some (Inl e))" "yields P (throw e)" "yields P (ret a p) = P a"
  by (simp_all add: yields_def throw_def ret_def)

lemma yields_bind:
  assumes "yields P m" "\<And>a p. P a \<Longrightarrow> yields Q (f a p)"
  shows "yields Q (pbind m f)"
  using assms by (cases m rule: presult_cases) (auto simp: yields_def)

lemma yields_any: "yields (\<lambda>_. True) m"
  by (cases m rule: presult_cases) (auto simp: yields_def)

lemma yields_expect:
  assumes "\<And>t q. yields Q (f t q)"
  shows "yields Q (pbind (Some (expect kind p)) f)"
  by (rule yields_bind [OF yields_any]) (rule assms)

definition is_array :: "Node \<Rightarrow> bool" where
  "is_array b = (case b of LitArray _ _ _ \<Rightarrow> True | _ \<Rightarrow> False)"

text \<open>What the methods need from \<open>rec\<close> for this.\<close>

locale node_parser =
  fixes rec :: "Parser \<Rightarrow> Node presult"
  assumes rec_ok: "yields node_ok (rec p)"
begin

lemma bracket_ok: "node_ok base \<Longrightarrow> yields node_ok (maybeBracketAccess rec k base p)"
  by (induction k arbitrary: base p)
     (auto simp: consume_def intro!: yields_bind [OF rec_ok] yields_expect)

lemma comma_ok: "list_all node_ok acc \<Longrightarrow> yields (list_all node_ok) (comma_list rec k acc p)"
  by (induction k arbitrary: acc p) (auto intro!: yields_bind [OF rec_ok])

lemma paren_ok: "yields node_ok (parseParenthesised rec n p)"
  unfolding parseParenthesised_def
  by (intro yields_expect yields_bind [OF rec_ok] bracket_ok)

lemma items_ok:
  assumes "\<And>xs t p4. list_all node_ok xs \<Longrightarrow> yields P (f xs t p4)"
  shows "yields P (pbind (rec p) (\<lambda>x p2. pbind (comma_list rec n [x] p2)
           (\<lambda>xs p3. pbind (Some (expect close p3)) (\<lambda>t p4. f xs t p4))))"
  by (intro yields_bind [OF rec_ok] yields_bind [OF comma_ok] yields_expect assms) simp_all

lemma func_ok: "yields node_ok (parseFuncCallTail rec n t p)"
  unfolding parseFuncCallTail_def
  by (rule yields_expect) (auto intro!: items_ok)

lemma array_ok: "yields (\<lambda>b. node_ok b \<and> is_array b) (parseArrayLiteral rec n p)"
  unfolding parseArrayLiteral_def
  by (rule yields_expect) (auto simp: is_array_def intro!: items_ok)

lemma ip_ok: "yields node_ok (parseIPLiteral t p)"
  by (auto simp: parseIPLiteral_def Let_def NewIP_def split: option.splits)

lemma primary_ok: "yields node_ok (parsePrimary L rec n p)"
  using func_ok [of n "peek p" p] paren_ok [of n p] ip_ok [of "peek p" "skip p"]
  by (cases "tok_Kind (peek p)") (auto simp: parsePrimary_def Let_def go_simps split: option.splits)

lemma binary_tail_ok: "node_ok lft \<Longrightarrow> yields node_ok (binary_tail L rec n lft p)"
  by (auto simp: binary_tail_def Let_def parseBitAndTail_def parseInTail_def parseCmpTail_def
      parseStringOpTail_def is_array_def
      intro!: yields_bind [OF primary_ok] yields_bind [OF array_ok] split: option.splits prod.splits)

lemma binary_ok: "yields node_ok (parseBinaryOp L rec n p)"
  unfolding parseBinaryOp_def Let_def
  by (intro yields_bind [OF primary_ok] yields_bind [OF bracket_ok] binary_tail_ok)
     (auto split: option.splits)

lemma not_ok: "yields node_ok (parseNot L rec n k p)"
  by (induction k arbitrary: p) (auto simp: consume_def parseComparison_def binary_ok intro!: yields_bind)

lemma and_loop_ok: "node_ok lft \<Longrightarrow> yields node_ok (and_loop L rec n k lft p)"
  by (induction k arbitrary: lft p) (auto simp: consume_def intro!: yields_bind [OF not_ok])

lemma and_ok: "yields node_ok (parseAnd L rec n p)"
  unfolding parseAnd_def by (intro yields_bind [OF not_ok] and_loop_ok)

lemma or_loop_ok: "node_ok lft \<Longrightarrow> yields node_ok (or_loop L rec n k lft p)"
  by (induction k arbitrary: lft p) (auto simp: consume_def intro!: yields_bind [OF and_ok])

lemma or_ok: "yields node_ok (pbind (parseAnd L rec n p) (or_loop L rec n k))"
  by (intro yields_bind [OF and_ok] or_loop_ok)

end

lemma parseOr_ok: "yields node_ok (parseOr L n p)"
proof (induction n arbitrary: p)
  case (Suc n)
  then have "node_parser (parseOr L n)" by unfold_locales
  then show ?case by (simp add: node_parser.or_ok)
qed simp

interpretation node_or: node_parser "parseOr L n" for L n
  by unfold_locales (rule parseOr_ok)

lemma Parse_node_ok: "Parse L src = Some (Inr root) \<Longrightarrow> node_ok root"
proof -
  assume a: "Parse L src = Some (Inr root)"
  have "yields node_ok (parseExpression L n p)" for n p
    by (auto simp: parseExpression_def Let_def intro!: yields_bind [OF node_or.rec_ok])
  from this [of "Suc (length (p_toks (NewParser src)))" "NewParser src"] a show ?thesis
    by (auto simp: Parse_def Let_def yields_def split: option.splits sum.splits)
qed

end
