(* ===== verification/Rule_Functions.thy ===== *)
theory Rule_Functions
  imports Rule_Types
begin

text \<open>
  The registry of built-in functions and the functions themselves: \<^verbatim>\<open>functions.go\<close>, \<^verbatim>\<open>coerce.go\<close>,
  \<^verbatim>\<open>ip.go\<close>, \<^verbatim>\<open>strings.go\<close>, \<^verbatim>\<open>strings_alloc.go\<close>, \<^verbatim>\<open>strings_regex.go\<close> and \<^verbatim>\<open>time.go\<close> of
  \<^verbatim>\<open>pkg/rule/compiler\<close>. The \<^verbatim>\<open>Eval\<close> of a function reads its arguments by index, which panics out of
  range, and slices strings, which may panic too: its result is an option and \<open>None\<close> is a panic.
  Registration panics on an empty name, a nil \<^verbatim>\<open>Eval\<close> or a name already taken, \<open>None\<close> as well.

  The lemmas show that the \<^verbatim>\<open>init\<close> functions register without a panic, and that every registered
  function, called with the number of arguments the compiler lets through, returns a value of the
  kind it declares; the functional lemmas say what the functions compute.
\<close>

section \<open>Registry\<close>

record FuncSpec =
  fs_Name :: string
  fs_ParamKinds :: "Kind list"
  fs_ReturnKind :: Kind
  fs_Allocating :: bool
  fs_IsVariadic :: bool
  fs_Eval :: "(Value list \<Rightarrow> Value option) option"

type_synonym registry = "(string \<times> FuncSpec) list"

definition registerFunc :: "FuncSpec \<Rightarrow> registry \<Rightarrow> registry option" where
  "registerFunc spec reg =
     (if fs_Name spec = [] then None
      else if fs_Eval spec = None then None
      else if map_of reg (fs_Name spec) \<noteq> None then None
      else Some (reg @ [(fs_Name spec, spec)]))"

fun register_all :: "FuncSpec list \<Rightarrow> registry \<Rightarrow> registry option" where
  "register_all [] reg = Some reg"
| "register_all (s # ss) reg = Option.bind (registerFunc s reg) (register_all ss)"

definition Lookup :: "registry \<Rightarrow> string \<Rightarrow> FuncSpec option" where
  "Lookup reg name = map_of reg name"

definition Names :: "registry \<Rightarrow> string list" where
  "Names reg = map fst reg"

text \<open>\<^verbatim>\<open>args[i]\<close> and \<^verbatim>\<open>s[lo:hi]\<close>.\<close>

definition arg :: "Value list \<Rightarrow> nat \<Rightarrow> Value option" where
  "arg args i = (if i < length args then Some (args ! i) else None)"

definition slice :: "string \<Rightarrow> int \<Rightarrow> int \<Rightarrow> string option" where
  "slice s lo hi =
     (if 0 \<le> lo \<and> lo \<le> hi \<and> hi \<le> int (length s)
      then Some (take (nat hi - nat lo) (drop (nat lo) s)) else None)"

section \<open>ip.go\<close>

text \<open>\<^verbatim>\<open>binary.BigEndian\<close>.\<close>

definition big_endian :: "bytes \<Rightarrow> nat" where
  "big_endian b = fold (\<lambda>w acc. 256 * acc + unat w) b 0"

definition ipToInt64 :: "IP \<Rightarrow> i64" where
  "ipToInt64 ip =
     (if ip = [] then 0
      else case To4 ip of
             Some v4 \<Rightarrow> word_of_nat (big_endian v4)
           | None \<Rightarrow> if length ip = 16 then word_of_nat (big_endian (drop 8 ip)) else 0)"

definition ipLowUint64 :: "IP \<Rightarrow> u64" where
  "ipLowUint64 ip =
     (if ip = [] then 0
      else case To4 ip of
             Some v4 \<Rightarrow> word_of_nat (big_endian v4)
           | None \<Rightarrow> if length ip = 16 then word_of_nat (big_endian (drop 8 ip)) else 0)"

definition evalIPToInt :: "Value list \<Rightarrow> Value option" where
  "evalIPToInt args = Option.bind (arg args 0) (\<lambda>a. Some (NewInt (ipToInt64 (fst (AsIP a)))))"

definition cidrContainsIP :: "IP \<Rightarrow> string \<Rightarrow> IPNet option \<Rightarrow> bool" where
  "cidrContainsIP ip cidrText cidrNet =
     (if ip = [] then False
      else case cidrNet of
             Some net \<Rightarrow> Go_Net.Contains net ip
           | None \<Rightarrow> (case ParseCIDR cidrText of
                 None \<Rightarrow> False
               | Some (_, ipnet) \<Rightarrow> Go_Net.Contains ipnet ip))"

definition evalCIDRMatches :: "Value list \<Rightarrow> Value option" where
  "evalCIDRMatches args =
     Option.bind (arg args 0) (\<lambda>a. Option.bind (arg args 1) (\<lambda>b.
       Some (NewBool (cidrContainsIP (fst (AsIP a)) (fst (AsString b)) None))))"

section \<open>coerce.go\<close>

text \<open>\<^verbatim>\<open>int64(f)\<close> is the integer part where it fits; elsewhere the implementation decides.\<close>

definition floatToInt64 :: "golib \<Rightarrow> f64 \<Rightarrow> i64" where
  "floatToInt64 L f =
     (if IsNaN f then word_of_int min_int64
      else if IsInf f \<and> \<not> bit f 63 then word_of_int max_int64
      else if IsInf f \<and> bit f 63 then word_of_int min_int64
      else if min_int64 \<le> f_trunc f \<and> f_trunc f \<le> max_int64 then word_of_int (f_trunc f)
      else lib_f2i L f)"

definition to_int_value :: "golib \<Rightarrow> Value \<Rightarrow> i64" where
  "to_int_value L v =
     (case v of
        VInt n \<Rightarrow> n
      | VFloat f \<Rightarrow> floatToInt64 L f
      | VString s \<Rightarrow> (case ParseInt s of Some n \<Rightarrow> n | None \<Rightarrow> 0)
      | VBool b \<Rightarrow> (if b then 1 else 0)
      | VIP ip \<Rightarrow> ipToInt64 ip
      | VTimestamp ts \<Rightarrow> time_Unix ts
      | VDuration d \<Rightarrow> d
      | _ \<Rightarrow> 0)"

definition evalToInt :: "golib \<Rightarrow> Value list \<Rightarrow> Value option" where
  "evalToInt L args = Option.bind (arg args 0) (\<lambda>v. Some (NewInt (to_int_value L v)))"

definition to_float_value :: "golib \<Rightarrow> Value \<Rightarrow> f64" where
  "to_float_value L v =
     (case v of
        VFloat f \<Rightarrow> f
      | VInt n \<Rightarrow> f_of_int (sint n)
      | VString s \<Rightarrow> (case lib_parse_float L s of Some f \<Rightarrow> f | None \<Rightarrow> f_of_int 0)
      | VBool b \<Rightarrow> (if b then f_of_int 1 else f_of_int 0)
      | VIP ip \<Rightarrow> f_of_nat (unat (ipLowUint64 ip))
      | _ \<Rightarrow> f_of_int 0)"

definition evalToFloat :: "golib \<Rightarrow> Value list \<Rightarrow> Value option" where
  "evalToFloat L args = Option.bind (arg args 0) (\<lambda>v. Some (NewFloat (to_float_value L v)))"

section \<open>strings.go\<close>

definition evalLower :: "golib \<Rightarrow> Value list \<Rightarrow> Value option" where
  "evalLower L args = Option.bind (arg args 0) (\<lambda>a. Some (NewString (ToLower L (fst (AsString a)))))"

definition evalUpper :: "golib \<Rightarrow> Value list \<Rightarrow> Value option" where
  "evalUpper L args = Option.bind (arg args 0) (\<lambda>a. Some (NewString (ToUpper L (fst (AsString a)))))"

definition evalLen :: "Value list \<Rightarrow> Value option" where
  "evalLen args = Option.bind (arg args 0) (\<lambda>a. Some (NewInt (word_of_nat (length (fst (AsString a))))))"

definition evalToString :: "golib \<Rightarrow> Value list \<Rightarrow> Value option" where
  "evalToString L args = Option.bind (arg args 0) (\<lambda>a. Some (NewString (Value_String L a)))"

section \<open>strings_alloc.go\<close>

definition evalSubstring :: "Value list \<Rightarrow> Value option" where
  "evalSubstring args =
     Option.bind (arg args 0) (\<lambda>a. Option.bind (arg args 1) (\<lambda>b. Option.bind (arg args 2) (\<lambda>c.
       let s = fst (AsString a);
           n = word_of_nat (length s) :: i64;
           start = (if sint (fst (AsInt b)) < 0 then 0 else fst (AsInt b));
           stop = (if sint (fst (AsInt c)) > sint n then n else fst (AsInt c))
       in if sint start \<ge> sint stop then Some (NewString [])
          else map_option NewString (slice s (sint start) (sint stop)))))"

definition evalConcat :: "Value list \<Rightarrow> Value option" where
  "evalConcat args =
     (if args = [] then Some (NewString [])
      else Some (NewString (fold (\<lambda>v b. b @ fst (AsString v)) args [])))"

text \<open>\<^verbatim>\<open>url.QueryEscape\<close>: letters, digits and \<^verbatim>\<open>- _ . ~\<close> stay, a space becomes a plus sign.\<close>

definition url_unreserved :: "char \<Rightarrow> bool" where
  "url_unreserved c =
     (97 \<le> ch c \<and> ch c \<le> 122 \<or> 65 \<le> ch c \<and> ch c \<le> 90 \<or> is_digit c \<or> c \<in> set ''-_.~'')"

definition upper_hex :: "nat \<Rightarrow> char" where
  "upper_hex d = char_of (if d < 10 then 48 + d else 55 + d)"

definition QueryEscape :: "string \<Rightarrow> string" where
  "QueryEscape s = concat (map (\<lambda>c.
     if url_unreserved c then [c]
     else if c = CHR '' '' then ''+''
     else [CHR ''%'', upper_hex (ch c div 16), upper_hex (ch c mod 16)]) s)"

text \<open>\<^verbatim>\<open>url.QueryUnescape\<close>; \<open>None\<close>: a percent sign without two hexadecimal digits.\<close>

fun QueryUnescape :: "string \<Rightarrow> string option" where
  "QueryUnescape [] = Some []"
| "QueryUnescape (c # s) =
     (if c = CHR ''%'' then
        (case s of
           a # b # t \<Rightarrow> if is_hex a \<and> is_hex b
                         then map_option ((#) (char_of (16 * hex_val a + hex_val b))) (QueryUnescape t)
                         else None
         | _ \<Rightarrow> None)
      else map_option ((#) (if c = CHR ''+'' then CHR '' '' else c)) (QueryUnescape s))"

definition evalURLDecode :: "Value list \<Rightarrow> Value option" where
  "evalURLDecode args =
     Option.bind (arg args 0) (\<lambda>a.
       Some (case QueryUnescape (fst (AsString a)) of
               None \<Rightarrow> NewString []
             | Some decoded \<Rightarrow> NewString decoded))"

definition evalURLEncode :: "Value list \<Rightarrow> Value option" where
  "evalURLEncode args = Option.bind (arg args 0) (\<lambda>a. Some (NewString (QueryEscape (fst (AsString a)))))"

definition evalHTMLEntityDecode :: "golib \<Rightarrow> Value list \<Rightarrow> Value option" where
  "evalHTMLEntityDecode L args =
     Option.bind (arg args 0) (\<lambda>a. Some (NewString (lib_html_unescape L (fst (AsString a)))))"

fun in_byte_set :: "char \<Rightarrow> string \<Rightarrow> bool" where
  "in_byte_set c [] = False"
| "in_byte_set c (d # ds) = (if c = d then True else in_byte_set c ds)"

fun remove_loop :: "string \<Rightarrow> string \<Rightarrow> string \<Rightarrow> string" where
  "remove_loop bs [] b = b"
| "remove_loop bs (c # s) b = remove_loop bs s (if in_byte_set c bs then b else b @ [c])"

definition evalRemoveBytes :: "Value list \<Rightarrow> Value option" where
  "evalRemoveBytes args =
     Option.bind (arg args 0) (\<lambda>a. Option.bind (arg args 1) (\<lambda>b.
       let s = fst (AsString a); bs = fst (AsString b)
       in if bs = [] then Some (NewString s) else Some (NewString (remove_loop bs s []))))"

section \<open>strings_regex.go\<close>

definition evalRegexReplaceFallback :: "golib \<Rightarrow> Value list \<Rightarrow> Value option" where
  "evalRegexReplaceFallback L args =
     Option.bind (arg args 0) (\<lambda>a. Option.bind (arg args 1) (\<lambda>b. Option.bind (arg args 2) (\<lambda>c.
       let subject = fst (AsString a); pattern = fst (AsString b); repl = fst (AsString c)
       in if \<not> lib_re_compile L pattern then Some (NewString subject)
          else Some (NewString (lib_re_replace L pattern subject repl)))))"

definition evalLookupJSONString :: "golib \<Rightarrow> Value list \<Rightarrow> Value option" where
  "evalLookupJSONString L args =
     Option.bind (arg args 0) (\<lambda>a. Option.bind (arg args 1) (\<lambda>b.
       let jsonStr = fst (AsString a); key = fst (AsString b)
       in if jsonStr = [] \<or> key = [] then Some (NewString [])
          else case lib_json L jsonStr of
                 None \<Rightarrow> Some (NewString [])
               | Some doc \<Rightarrow> (case map_of doc key of
                     None \<Rightarrow> Some (NewString [])
                   | Some (Inl s) \<Rightarrow> Some (NewString s)
                   | Some (Inr sprint) \<Rightarrow> Some (NewString sprint))))"

section \<open>time.go\<close>

definition evalNow :: "golib \<Rightarrow> Value list \<Rightarrow> Value option" where
  "evalNow L args = Some (NewTimestamp (lib_now L))"

definition evalUnixTime :: "Value list \<Rightarrow> Value option" where
  "evalUnixTime args = Option.bind (arg args 0) (\<lambda>a. Some (NewInt (time_Unix (fst (AsTimestamp a)))))"

definition evalFormatTime :: "golib \<Rightarrow> Value list \<Rightarrow> Value option" where
  "evalFormatTime L args =
     Option.bind (arg args 0) (\<lambda>a. Option.bind (arg args 1) (\<lambda>b.
       let layout = (if fst (AsString b) = [] then RFC3339 else fst (AsString b))
       in Some (NewString (lib_format_time L layout (fst (AsTimestamp a))))))"

section \<open>The init functions, in the order of the files\<close>

definition func_spec ::
  "string \<Rightarrow> Kind list \<Rightarrow> Kind \<Rightarrow> bool \<Rightarrow> bool \<Rightarrow> (Value list \<Rightarrow> Value option) \<Rightarrow> FuncSpec" where
  "func_spec name params r alloc variadic f =
     \<lparr>fs_Name = name, fs_ParamKinds = params, fs_ReturnKind = r, fs_Allocating = alloc,
      fs_IsVariadic = variadic, fs_Eval = Some f\<rparr>"

definition coerce_init :: "golib \<Rightarrow> FuncSpec list" where
  "coerce_init L =
     [func_spec ''to_int'' [KindInvalid] KindInt False False (evalToInt L),
      func_spec ''to_float'' [KindInvalid] KindFloat False False (evalToFloat L)]"

definition ip_init :: "FuncSpec list" where
  "ip_init =
     [func_spec ''ip_to_int'' [KindIP] KindInt False False evalIPToInt,
      func_spec ''cidr_matches'' [KindIP, KindString] KindBool False False evalCIDRMatches]"

definition strings_init :: "golib \<Rightarrow> FuncSpec list" where
  "strings_init L =
     [func_spec ''lower'' [KindString] KindString False False (evalLower L),
      func_spec ''upper'' [KindString] KindString False False (evalUpper L),
      func_spec ''len'' [KindString] KindInt False False evalLen,
      func_spec ''to_string'' [KindInvalid] KindString False False (evalToString L)]"

definition strings_alloc_init :: "golib \<Rightarrow> FuncSpec list" where
  "strings_alloc_init L =
     [func_spec ''substring'' [KindString, KindInt, KindInt] KindString True False evalSubstring,
      func_spec ''concat'' [KindString] KindString True True evalConcat,
      func_spec ''url_decode'' [KindString] KindString True False evalURLDecode,
      func_spec ''url_encode'' [KindString] KindString True False evalURLEncode,
      func_spec ''html_entity_decode'' [KindString] KindString True False (evalHTMLEntityDecode L),
      func_spec ''remove_bytes'' [KindString, KindString] KindString True False evalRemoveBytes]"

definition strings_regex_init :: "golib \<Rightarrow> FuncSpec list" where
  "strings_regex_init L =
     [func_spec ''regex_replace'' [KindString, KindString, KindString] KindString True False
        (evalRegexReplaceFallback L),
      func_spec ''lookup_json_string'' [KindString, KindString] KindString True False
        (evalLookupJSONString L)]"

definition time_init :: "golib \<Rightarrow> FuncSpec list" where
  "time_init L =
     [func_spec ''now'' [] KindTimestamp True False (evalNow L),
      func_spec ''unix_time'' [KindTimestamp] KindInt False False evalUnixTime,
      func_spec ''format_time'' [KindTimestamp, KindString] KindString True False (evalFormatTime L)]"

definition builtin_specs :: "golib \<Rightarrow> FuncSpec list" where
  "builtin_specs L =
     coerce_init L @ ip_init @ strings_init L @ strings_alloc_init L @ strings_regex_init L @ time_init L"

lemmas init_defs = coerce_init_def ip_init_def strings_init_def strings_alloc_init_def
  strings_regex_init_def time_init_def

text \<open>The package-level registry once every \<^verbatim>\<open>init\<close> has run.\<close>

definition funcs :: "golib \<Rightarrow> registry" where
  "funcs L = (case register_all (builtin_specs L) [] of None \<Rightarrow> [] | Some reg \<Rightarrow> reg)"

section \<open>Lemmas\<close>

lemma register_all_distinct:
  assumes "list_all (\<lambda>s. fs_Name s \<noteq> [] \<and> fs_Eval s \<noteq> None) ss"
    "distinct (map fst reg @ map fs_Name ss)"
  shows "register_all ss reg = Some (reg @ map (\<lambda>s. (fs_Name s, s)) ss)"
  using assms
proof (induction ss arbitrary: reg)
  case (Cons s ss)
  then have "map_of reg (fs_Name s) = None" by (auto simp: map_of_eq_None_iff)
  with Cons show ?case by (simp add: registerFunc_def)
qed simp

lemma builtin_register:
  "register_all (builtin_specs L) [] = Some (map (\<lambda>s. (fs_Name s, s)) (builtin_specs L))"
  by (subst register_all_distinct) (simp_all add: builtin_specs_def init_defs func_spec_def)

lemma funcs_eq: "funcs L = map (\<lambda>s. (fs_Name s, s)) (builtin_specs L)"
  by (simp add: funcs_def builtin_register)

lemma Lookup_builtin: "Lookup (funcs L) name = Some spec \<Longrightarrow> spec \<in> set (builtin_specs L) \<and> fs_Name spec = name"
  by (auto simp: Lookup_def funcs_eq dest!: map_of_SomeD)

text \<open>The number of arguments the compiler accepts: exact, or at least one for a variadic function.\<close>

definition arity_ok :: "FuncSpec \<Rightarrow> nat \<Rightarrow> bool" where
  "arity_ok spec n = (if fs_IsVariadic spec then True else n = length (fs_ParamKinds spec))"

text \<open>\<^verbatim>\<open>substring\<close> is the slice between the clamped bounds.\<close>

lemma evalSubstring_eq:
  assumes "length s < 2 ^ 63"
  shows "evalSubstring [VString s, VInt i, VInt j] =
    Some (VString (take (nat (sint j) - nat (sint i)) (drop (nat (sint i)) s)))"
proof -
  have n: "sint (word_of_nat (length s) :: i64) = int (length s)"
    using assms by (rule sint_of_small)
  show ?thesis
  proof (cases "sint i < 0")
    case True
    then show ?thesis using n
      by (auto simp: evalSubstring_def arg_def Let_def go_simps slice_def)
  next
    case False
    then show ?thesis using n
      by (auto simp: evalSubstring_def arg_def Let_def go_simps slice_def)
  qed
qed

lemma substring_no_panic:
  assumes "length args = 3"
  shows "\<exists>s. evalSubstring args = Some (VString s)"
proof -
  have "sint (fst (AsInt (args ! 2))) \<le> sint (word_of_nat (length (fst (AsString (args ! 0)))) :: i64)
    \<Longrightarrow> sint (fst (AsInt (args ! 2))) \<le> int (length (fst (AsString (args ! 0))))"
    using sint_of_length order_trans by blast
  with assms show ?thesis
    using sint_of_length by (auto simp: evalSubstring_def arg_def Let_def slice_def NewString_def not_less)
qed

lemmas eval_defs = evalToInt_def evalToFloat_def evalIPToInt_def evalCIDRMatches_def evalLower_def
  evalUpper_def evalLen_def evalToString_def evalConcat_def evalURLDecode_def evalURLEncode_def
  evalHTMLEntityDecode_def evalRemoveBytes_def evalRegexReplaceFallback_def evalLookupJSONString_def
  evalNow_def evalUnixTime_def evalFormatTime_def

lemma builtin_total:
  assumes "spec \<in> set (builtin_specs L)" "arity_ok spec (length args)"
  shows "\<exists>f v. fs_Eval spec = Some f \<and> f args = Some v \<and> Kind_of v = fs_ReturnKind spec"
  using assms substring_no_panic [of args]
  by (auto simp: builtin_specs_def init_defs func_spec_def arity_ok_def eval_defs arg_def Let_def go_simps
      split: option.splits sum.splits)

text \<open>Query escaping is undone by unescaping.\<close>

lemma upper_hex_ok: "d < 16 \<Longrightarrow> is_hex (upper_hex d) \<and> hex_val (upper_hex d) = d"
  by (auto simp: upper_hex_def is_hex_def hex_val_def is_digit_def ch_def)

lemma QueryUnescape_plain:
  "url_unreserved c \<Longrightarrow> QueryUnescape (c # s) = map_option ((#) c) (QueryUnescape s)"
  by (auto simp: url_unreserved_def is_digit_def ch_def)

lemma QueryUnescape_QueryEscape: "QueryUnescape (QueryEscape s) = Some s"
proof (induction s)
  case Nil
  show ?case by (simp add: QueryEscape_def)
next
  case (Cons c s)
  have d: "ch c div 16 < 16" "ch c mod 16 < 16"
    using ch_less_256 [of c] by (simp_all add: less_mult_imp_div_less)
  have c: "char_of (16 * (ch c div 16) + ch c mod 16) = c"
    by (simp only: mult_div_mod_eq) (simp add: ch_def)
  consider "url_unreserved c" | "\<not> url_unreserved c" "c = CHR '' ''" | "\<not> url_unreserved c" "c \<noteq> CHR '' ''"
    by blast
  then show ?case
  proof cases
    case 1
    then have "QueryEscape (c # s) = c # QueryEscape s" by (simp add: QueryEscape_def)
    with 1 Cons.IH show ?thesis by (simp add: QueryUnescape_plain del: QueryUnescape.simps)
  next
    case 2
    then have "QueryEscape (c # s) = CHR ''+'' # QueryEscape s" by (simp add: QueryEscape_def)
    with 2 Cons.IH show ?thesis by simp
  next
    case 3
    then have "QueryEscape (c # s) =
      CHR ''%'' # upper_hex (ch c div 16) # upper_hex (ch c mod 16) # QueryEscape s"
      by (simp add: QueryEscape_def)
    with 3 Cons.IH upper_hex_ok [OF d(1)] upper_hex_ok [OF d(2)] c show ?thesis by simp
  qed
qed

lemma in_byte_set_iff [simp]: "in_byte_set c bs \<longleftrightarrow> c \<in> set bs"
  by (induction bs) auto

lemma remove_loop_eq: "remove_loop bs s b = b @ filter (\<lambda>c. c \<notin> set bs) s"
  by (induction s arbitrary: b) auto

lemma evalRemoveBytes_eq:
  "evalRemoveBytes [VString s, VString bs] = Some (VString (filter (\<lambda>c. c \<notin> set bs) s))"
  by (auto simp: evalRemoveBytes_def arg_def Let_def go_simps remove_loop_eq)

lemma evalConcat_eq: "evalConcat (map VString ss) = Some (VString (concat ss))"
proof -
  have "fold (\<lambda>v b. b @ fst (AsString v)) (map VString ss) acc = acc @ concat ss" for acc
    by (induction ss arbitrary: acc) (auto simp: go_simps)
  then show ?thesis by (simp add: evalConcat_def go_simps)
qed

end
