(* ===== verification/Rule_Compiler.thy ===== *)
theory Rule_Compiler
  imports Rule_Scheme Rule_Parser Rule_Functions
begin

text \<open>
  The compiler from syntax trees to plans, \<^verbatim>\<open>pkg/rule/compiler/compiler.go\<close>. The op structs are
  the constructors of \<open>op\<close>; a compiled regular expression is its source text (see \<open>golib\<close>) and a
  nil pointer is \<open>None\<close>. Every \<open>compileX\<close> takes the results of compiling the children of its node
  and inspects them in the order of the source, so that the first error wins. An error is its
  position, its code and the arguments of its message.

  The lemmas show what a successful compilation guarantees: \<open>op_ok\<close> (every field is one of the
  scheme and stored with its index and type, every call has a registered function and as many
  arguments as it needs, every precompiled constant is the one its literal denotes), and that
  the operands of comparisons, string operators, \<^verbatim>\<open>in\<close> and \<^verbatim>\<open>&\<close> have the kinds the evaluator relies on.
\<close>

section \<open>Errors\<close>

datatype error_code =
    CodeUnknownField | CodeTypeMismatch | CodeBadRegex | CodeUnknownFunction | CodeBadFuncArity
  | CodeBadFuncArgType | CodeBadArrayElement | CodeBadStrictPlace | CodeBadBracketAccess
  | CodeInvalidLiteral | CodeNilScheme

datatype compile_msg =
    MsgNilScheme
  | MsgNilAST
  | MsgInvalidCIDR string
  | MsgArrayElement
  | MsgUnknownField string
  | MsgBracketObject
  | MsgNotAMap string FieldType
  | MsgBracketKey
  | MsgUnknownFunction string
  | MsgArity string nat nat
  | MsgMinArity string nat nat
  | MsgVariadicNoParams string
  | MsgArgType string nat Kind Kind
  | MsgNotComparable Kind Kind CmpOp
  | MsgNotOrderable Kind CmpOp
  | MsgNotOrderComparable Kind Kind CmpOp
  | MsgLeftOperand string Kind
  | MsgRightOperand string Kind
  | MsgRegexNotLiteral
  | MsgBadRegex string
  | MsgWildcardNotLiteral
  | MsgInNotArray
  | MsgInEmptyArray
  | MsgInMixedKinds Kind Kind
  | MsgInUnknownKind
  | MsgInKind Kind Kind
  | MsgByteLengths nat nat
  | MsgStrictPlace

record CompileError =
  ce_Line :: nat
  ce_Col :: nat
  ce_Code :: error_code
  ce_Message :: compile_msg

definition err_at :: "nat \<times> nat \<Rightarrow> error_code \<Rightarrow> compile_msg \<Rightarrow> CompileError + 'a" where
  "err_at lc code msg = Inl \<lparr>ce_Line = fst lc, ce_Col = snd lc, ce_Code = code, ce_Message = msg\<rparr>"

section \<open>Ops and plans\<close>

type_synonym pos = "nat \<times> nat"

datatype opCmpOp = opCmpEq | opCmpNe | opCmpLt | opCmpLe | opCmpGt | opCmpGe

record op_field =
  f_pos :: pos
  f_id :: nat
  f_name :: string
  f_type :: FieldType

datatype op =
    opLitString pos Value
  | opLitInt pos Value
  | opLitFloat pos Value
  | opLitBool pos Value
  | opLitIP pos Value bool nat "IPNet option"
  | opLitBytes pos Value
  | opLitDuration pos Value
  | opLitTimestamp pos Value
  | opLitArray pos "op list"
  | opField op_field
  | opBracket pos op_field string
  | opFunc pos string "op list" FuncSpec
  | opRegexReplace pos op op string "string option" op
  | opCIDRMatcher pos op op string "IPNet option"
  | opAnd pos op op
  | opOr pos op op
  | opNot pos op
  | opCmp pos opCmpOp op op
  | opContains pos op op
  | opStartsWith pos op op
  | opEndsWith pos op op
  | opMatches pos op "string option"
  | opWildcard pos op string
  | opIn pos op op
  | opStrict pos op
  | opBitAnd pos op op

record Plan =
  plan_root :: "op option"
  plan_Rev :: u64

record Compiler =
  c_scheme :: Scheme
  c_fieldIdx :: "string \<Rightarrow> nat option"

definition index_fields :: "FieldInfo list \<Rightarrow> string \<Rightarrow> nat option" where
  "index_fields fs = fold (\<lambda>(i, fi) m. m(FullName fi \<mapsto> i)) (enumerate 0 fs) Map.empty"

definition NewCompiler :: "Scheme option \<Rightarrow> CompileError + Compiler" where
  "NewCompiler scheme =
     (case scheme of
        None \<Rightarrow> err_at (0, 0) CodeNilScheme MsgNilScheme
      | Some sch \<Rightarrow> Inr \<lparr>c_scheme = sch, c_fieldIdx = index_fields (sch_fields sch)\<rparr>)"

definition posOf :: "Node \<Rightarrow> pos" where
  "posOf n = Pos n"

section \<open>Kinds of ops\<close>

definition kindFromFieldType :: "FieldType \<Rightarrow> Kind" where
  "kindFromFieldType ft =
     (if ft = TypeString then KindString
      else if ft = TypeInt then KindInt
      else if ft = TypeFloat then KindFloat
      else if ft = TypeBool then KindBool
      else if ft = TypeIP then KindIP
      else if ft = TypeBytes then KindBytes
      else if ft = TypeTimestamp then KindTimestamp
      else if ft = TypeDuration then KindDuration
      else if ft = TypeArray then KindArray
      else if ft = TypeMap then KindMap
      else KindInvalid)"

fun nodeKind :: "op \<Rightarrow> Kind" where
  "nodeKind (opLitString _ v) = Kind_of v"
| "nodeKind (opLitInt _ v) = Kind_of v"
| "nodeKind (opLitFloat _ v) = Kind_of v"
| "nodeKind (opLitBool _ v) = Kind_of v"
| "nodeKind (opLitIP _ v _ _ _) = Kind_of v"
| "nodeKind (opLitBytes _ v) = Kind_of v"
| "nodeKind (opLitDuration _ v) = Kind_of v"
| "nodeKind (opLitTimestamp _ v) = Kind_of v"
| "nodeKind (opLitArray _ _) = KindArray"
| "nodeKind (opField f) = kindFromFieldType (f_type f)"
| "nodeKind (opBracket _ _ _) = KindInvalid"
| "nodeKind (opAnd _ _ _) = KindBool"
| "nodeKind (opOr _ _ _) = KindBool"
| "nodeKind (opNot _ _) = KindBool"
| "nodeKind (opCmp _ _ _ _) = KindBool"
| "nodeKind (opContains _ _ _) = KindBool"
| "nodeKind (opStartsWith _ _ _) = KindBool"
| "nodeKind (opEndsWith _ _ _) = KindBool"
| "nodeKind (opMatches _ _ _) = KindBool"
| "nodeKind (opWildcard _ _ _) = KindBool"
| "nodeKind (opIn _ _ _) = KindBool"
| "nodeKind (opBitAnd _ _ _) = KindBool"
| "nodeKind (opStrict _ _) = KindBool"
| "nodeKind (opFunc _ _ _ spec) = fs_ReturnKind spec"
| "nodeKind (opRegexReplace _ _ _ _ _ _) = KindString"
| "nodeKind (opCIDRMatcher _ _ _ _ _) = KindBool"

definition isBracketOp :: "op \<Rightarrow> bool" where
  "isBracketOp o1 = (case o1 of opBracket _ _ _ \<Rightarrow> True | _ \<Rightarrow> False)"

definition isOrderable :: "Kind \<Rightarrow> bool" where
  "isOrderable k = (k \<in> set [KindInt, KindFloat, KindString, KindTimestamp, KindDuration])"

definition isCIDRLit :: "op \<Rightarrow> bool" where
  "isCIDRLit o1 = (case o1 of opLitIP _ _ cidr _ _ \<Rightarrow> cidr | _ \<Rightarrow> False)"

text \<open>The type tests \<^verbatim>\<open>o.(*opStrict)\<close> and \<^verbatim>\<open>o.(*opLitArray)\<close>.\<close>

definition strict_inner :: "op \<Rightarrow> op option" where
  "strict_inner o1 = (case o1 of opStrict _ i \<Rightarrow> Some i | _ \<Rightarrow> None)"

definition array_elements :: "op \<Rightarrow> (pos \<times> op list) option" where
  "array_elements o1 = (case o1 of opLitArray p es \<Rightarrow> Some (p, es) | _ \<Rightarrow> None)"

definition lit_string :: "op \<Rightarrow> string option" where
  "lit_string o1 = (case o1 of opLitString _ v \<Rightarrow> Some (fst (AsString v)) | _ \<Rightarrow> None)"

definition literalValue :: "op \<Rightarrow> Value option" where
  "literalValue o1 =
     (case o1 of
        opLitString _ v \<Rightarrow> Some v | opLitInt _ v \<Rightarrow> Some v | opLitFloat _ v \<Rightarrow> Some v
      | opLitBool _ v \<Rightarrow> Some v | opLitIP _ v _ _ _ \<Rightarrow> Some v | opLitBytes _ v \<Rightarrow> Some v
      | opLitDuration _ v \<Rightarrow> Some v | opLitTimestamp _ v \<Rightarrow> Some v | _ \<Rightarrow> None)"

definition bytesLiteralLen :: "op \<Rightarrow> nat option" where
  "bytesLiteralLen o1 =
     (case literalValue o1 of
        None \<Rightarrow> None
      | Some v \<Rightarrow> if Kind_of v \<noteq> KindBytes then None else Some (length (fst (AsBytes v))))"

section \<open>Literals, fields and bracket access\<close>

definition compileLitIP :: "pos \<Rightarrow> string \<Rightarrow> bool \<Rightarrow> Value \<Rightarrow> CompileError + op" where
  "compileLitIP p raw isCIDR v =
     (if \<not> isCIDR then Inr (opLitIP p v False 0 None)
      else case ParseCIDR raw of
             None \<Rightarrow> err_at p CodeInvalidLiteral (MsgInvalidCIDR raw)
           | Some (_, ipnet) \<Rightarrow> Inr (opLitIP p v True (mask_ones (net_mask ipnet)) (Some ipnet)))"

definition compileArrayElement :: "Node \<Rightarrow> CompileError + op" where
  "compileArrayElement n =
     (case n of
        LitString l c v \<Rightarrow> Inr (opLitString (l, c) v)
      | LitInt l c v \<Rightarrow> Inr (opLitInt (l, c) v)
      | LitFloat l c v \<Rightarrow> Inr (opLitFloat (l, c) v)
      | LitBool l c v \<Rightarrow> Inr (opLitBool (l, c) v)
      | LitIP l c raw cidr v \<Rightarrow> compileLitIP (l, c) raw cidr v
      | LitBytes l c v \<Rightarrow> Inr (opLitBytes (l, c) v)
      | LitDuration l c v \<Rightarrow> Inr (opLitDuration (l, c) v)
      | LitTimestamp l c v \<Rightarrow> Inr (opLitTimestamp (l, c) v)
      | _ \<Rightarrow> err_at (Pos n) CodeBadArrayElement MsgArrayElement)"

fun compile_elements :: "Node list \<Rightarrow> CompileError + op list" where
  "compile_elements [] = Inr []"
| "compile_elements (e # es) =
     try_then (compileArrayElement e) (\<lambda>compiled.
     try_then (compile_elements es) (\<lambda>rest. Inr (compiled # rest)))"

definition compileLitArray :: "pos \<Rightarrow> Node list \<Rightarrow> CompileError + op" where
  "compileLitArray p elements =
     (if elements = [] then Inr (opLitArray p [])
      else try_then (compile_elements elements) (\<lambda>es. Inr (opLitArray p es)))"

definition compileFieldRef :: "Compiler \<Rightarrow> pos \<Rightarrow> string \<Rightarrow> CompileError + op" where
  "compileFieldRef C p name =
     (case c_fieldIdx C name of
        None \<Rightarrow> err_at p CodeUnknownField (MsgUnknownField name)
      | Some i \<Rightarrow> Inr (opField \<lparr>f_pos = p, f_id = i, f_name = name,
                              f_type = Type (sch_fields (c_scheme C) ! i)\<rparr>))"

definition compileBracketAccess :: "Compiler \<Rightarrow> pos \<Rightarrow> Node \<Rightarrow> Node \<Rightarrow> CompileError + op" where
  "compileBracketAccess C p object key =
     (case object of
        FieldRef rl rc name \<Rightarrow>
          (case c_fieldIdx C name of
             None \<Rightarrow> err_at (rl, rc) CodeUnknownField (MsgUnknownField name)
           | Some i \<Rightarrow>
               let t = Type (sch_fields (c_scheme C) ! i)
               in if t \<noteq> TypeMap then err_at (rl, rc) CodeBadBracketAccess (MsgNotAMap name t)
                  else case key of
                         LitString _ _ v \<Rightarrow>
                           Inr (opBracket p \<lparr>f_pos = (rl, rc), f_id = i, f_name = name, f_type = TypeMap\<rparr>
                                  (fst (AsString v)))
                       | _ \<Rightarrow> err_at (Pos key) CodeBadBracketAccess MsgBracketKey)
      | _ \<Rightarrow> err_at (Pos object) CodeBadBracketAccess MsgBracketObject)"

section \<open>Function calls\<close>

type_synonym compiled = "CompileError + op"

text \<open>The end of \<^verbatim>\<open>compileCIDRMatcher\<close>: a literal range is parsed once, at compile time.\<close>

definition cidr_matcher_op :: "pos \<Rightarrow> op \<Rightarrow> op \<Rightarrow> compiled" where
  "cidr_matcher_op p ipOp cidrOp =
     (case lit_string cidrOp of
        None \<Rightarrow> Inr (opCIDRMatcher p ipOp cidrOp [] None)
      | Some cidrText \<Rightarrow>
          (case ParseCIDR cidrText of
             None \<Rightarrow> err_at p CodeInvalidLiteral (MsgInvalidCIDR cidrText)
           | Some (_, ipnet) \<Rightarrow> Inr (opCIDRMatcher p ipOp cidrOp cidrText (Some ipnet))))"

definition compileCIDRMatcher :: "golib \<Rightarrow> pos \<Rightarrow> compiled list \<Rightarrow> compiled" where
  "compileCIDRMatcher L p args =
     (case Lookup (funcs L) ''cidr_matches'' of
        None \<Rightarrow> err_at p CodeUnknownFunction (MsgUnknownFunction ''cidr_matches'')
      | Some spec \<Rightarrow>
          if length args \<noteq> length (fs_ParamKinds spec)
          then err_at p CodeBadFuncArity (MsgArity ''cidr_matches'' (length (fs_ParamKinds spec)) (length args))
          else
            try_then (args ! 0) (\<lambda>ipOp.
            if nodeKind ipOp \<noteq> KindIP
            then err_at p CodeBadFuncArgType (MsgArgType ''cidr_matches'' 1 KindIP (nodeKind ipOp))
            else
              try_then (args ! 1) (\<lambda>cidrOp.
              if nodeKind cidrOp \<noteq> KindString
              then err_at p CodeBadFuncArgType (MsgArgType ''cidr_matches'' 2 KindString (nodeKind cidrOp))
              else cidr_matcher_op p ipOp cidrOp)))"

text \<open>An argument of \<^verbatim>\<open>regex_replace\<close>: compiled, and of kind string.\<close>

definition string_arg :: "pos \<Rightarrow> nat \<Rightarrow> compiled \<Rightarrow> compiled" where
  "string_arg p i m =
     try_then m (\<lambda>o1.
     if nodeKind o1 \<noteq> KindString
     then err_at p CodeBadFuncArgType (MsgArgType ''regex_replace'' i KindString (nodeKind o1))
     else Inr o1)"

text \<open>The end of \<^verbatim>\<open>compileRegexReplace\<close>: a literal pattern is compiled once, at compile time.\<close>

definition regex_replace_op :: "golib \<Rightarrow> pos \<Rightarrow> op \<Rightarrow> op \<Rightarrow> op \<Rightarrow> compiled" where
  "regex_replace_op L p subjectOp patternOp replOp =
     (case lit_string patternOp of
        None \<Rightarrow> Inr (opRegexReplace p subjectOp patternOp [] None replOp)
      | Some pattern \<Rightarrow>
          if \<not> lib_re_compile L pattern then err_at p CodeBadRegex (MsgBadRegex pattern)
          else Inr (opRegexReplace p subjectOp patternOp pattern (Some pattern) replOp))"

definition compileRegexReplace :: "golib \<Rightarrow> pos \<Rightarrow> compiled list \<Rightarrow> compiled" where
  "compileRegexReplace L p args =
     (case Lookup (funcs L) ''regex_replace'' of
        None \<Rightarrow> err_at p CodeUnknownFunction (MsgUnknownFunction ''regex_replace'')
      | Some spec \<Rightarrow>
          if length args \<noteq> length (fs_ParamKinds spec)
          then err_at p CodeBadFuncArity (MsgArity ''regex_replace'' (length (fs_ParamKinds spec)) (length args))
          else
            try_then (string_arg p 1 (args ! 0)) (\<lambda>subjectOp.
            try_then (string_arg p 2 (args ! 1)) (\<lambda>patternOp.
            try_then (string_arg p 3 (args ! 2)) (\<lambda>replOp.
            regex_replace_op L p subjectOp patternOp replOp))))"

text \<open>The loop over the arguments; \<open>i\<close> is the index of the next one.\<close>

fun compile_args :: "string \<Rightarrow> pos \<Rightarrow> FuncSpec \<Rightarrow> nat \<Rightarrow> compiled list \<Rightarrow> CompileError + op list" where
  "compile_args name p spec i [] = Inr []"
| "compile_args name p spec i (a # as) =
     try_then a (\<lambda>compiled.
       let pk = fs_ParamKinds spec;
           want = (if fs_IsVariadic spec \<and> Suc i \<ge> length pk then pk ! (length pk - 1) else pk ! i);
           got = nodeKind compiled
       in if want \<noteq> KindInvalid \<and> got \<noteq> want
          then err_at p CodeBadFuncArgType (MsgArgType name (Suc i) want got)
          else try_then (compile_args name p spec (Suc i) as) (\<lambda>rest. Inr (compiled # rest)))"

definition compileFuncCall :: "golib \<Rightarrow> pos \<Rightarrow> string \<Rightarrow> compiled list \<Rightarrow> compiled" where
  "compileFuncCall L p name args =
     (if name = ''regex_replace'' then compileRegexReplace L p args
      else if name = ''cidr_matches'' then compileCIDRMatcher L p args
      else case Lookup (funcs L) name of
        None \<Rightarrow> err_at p CodeUnknownFunction (MsgUnknownFunction name)
      | Some spec \<Rightarrow>
          let n = length (fs_ParamKinds spec);
              minArity = (if fs_IsVariadic spec then n - 1 else n)
          in if \<not> fs_IsVariadic spec \<and> length args \<noteq> n
             then err_at p CodeBadFuncArity (MsgArity name n (length args))
             else if fs_IsVariadic spec \<and> length args < minArity
             then err_at p CodeBadFuncArity (MsgMinArity name minArity (length args))
             else if fs_IsVariadic spec \<and> n = 0
             then err_at p CodeBadFuncArity (MsgVariadicNoParams name)
             else try_then (compile_args name p spec 0 args) (\<lambda>ops. Inr (opFunc p name ops spec)))"

section \<open>Logic and comparisons\<close>

definition compileAnd :: "pos \<Rightarrow> compiled \<Rightarrow> compiled \<Rightarrow> compiled" where
  "compileAnd p l r = try_then l (\<lambda>left. try_then r (\<lambda>right. Inr (opAnd p left right)))"

definition compileOr :: "pos \<Rightarrow> compiled \<Rightarrow> compiled \<Rightarrow> compiled" where
  "compileOr p l r = try_then l (\<lambda>left. try_then r (\<lambda>right. Inr (opOr p left right)))"

definition compileNot :: "pos \<Rightarrow> compiled \<Rightarrow> compiled" where
  "compileNot p m = try_then m (\<lambda>operand. Inr (opNot p operand))"

fun cmpOpOf :: "CmpOp \<Rightarrow> opCmpOp" where
  "cmpOpOf CmpEq = opCmpEq"
| "cmpOpOf CmpNe = opCmpNe"
| "cmpOpOf CmpLt = opCmpLt"
| "cmpOpOf CmpLe = opCmpLe"
| "cmpOpOf CmpGt = opCmpGt"
| "cmpOpOf CmpGe = opCmpGe"

text \<open>The operand behind a strict wrapper, and its kind with bracket accesses as unknown.\<close>

definition unwrap :: "op \<Rightarrow> op" where
  "unwrap o1 = (case strict_inner o1 of Some i \<Rightarrow> i | None \<Rightarrow> o1)"

definition operand_kind :: "op \<Rightarrow> Kind" where
  "operand_kind o1 = (if isBracketOp (unwrap o1) then KindInvalid else nodeKind (unwrap o1))"

text \<open>The operators are the six of \<open>CmpOp\<close>, so the error for an unknown one is not reached.\<close>

definition checkCmpOperands :: "CmpOp \<Rightarrow> op \<Rightarrow> op \<Rightarrow> pos \<Rightarrow> CompileError + unit" where
  "checkCmpOperands cop left right p =
     (let leftKind = operand_kind left; rightKind = operand_kind right
      in if cop = CmpEq \<or> cop = CmpNe then
           if leftKind = KindIP \<and> rightKind = KindIP \<and> isCIDRLit (unwrap right) then Inr ()
           else if leftKind = KindInvalid \<or> rightKind = KindInvalid then Inr ()
           else if leftKind \<noteq> rightKind
           then err_at p CodeTypeMismatch (MsgNotComparable leftKind rightKind cop)
           else Inr ()
         else
           if \<not> isOrderable leftKind \<or> \<not> isOrderable rightKind
           then err_at p CodeTypeMismatch (MsgNotOrderable leftKind cop)
           else if leftKind \<noteq> rightKind
           then err_at p CodeTypeMismatch (MsgNotOrderComparable leftKind rightKind cop)
           else Inr ())"

definition rewrap :: "pos \<Rightarrow> op \<Rightarrow> op \<Rightarrow> op \<Rightarrow> op" where
  "rewrap p left right o1 =
     (if strict_inner left \<noteq> None \<or> strict_inner right \<noteq> None then opStrict p o1 else o1)"

definition compileCmp :: "pos \<Rightarrow> CmpOp \<Rightarrow> compiled \<Rightarrow> compiled \<Rightarrow> compiled" where
  "compileCmp p cop l r =
     try_then l (\<lambda>left. try_then r (\<lambda>right.
     try_then (checkCmpOperands cop left right p) (\<lambda>_.
     Inr (rewrap p left right (opCmp p (cmpOpOf cop) left right)))))"

section \<open>String operators, membership and bit masks\<close>

text \<open>The checks shared by \<^verbatim>\<open>contains\<close>, \<^verbatim>\<open>starts_with\<close> and \<^verbatim>\<open>ends_with\<close>.\<close>

definition string_operands :: "string \<Rightarrow> (pos \<Rightarrow> op \<Rightarrow> op \<Rightarrow> op) \<Rightarrow> pos \<Rightarrow> compiled \<Rightarrow> compiled \<Rightarrow> compiled" where
  "string_operands name mk p l r =
     try_then l (\<lambda>left. try_then r (\<lambda>right.
     if nodeKind left \<noteq> KindString then err_at p CodeTypeMismatch (MsgLeftOperand name (nodeKind left))
     else if nodeKind right \<noteq> KindString then err_at p CodeTypeMismatch (MsgRightOperand name (nodeKind right))
     else Inr (rewrap p left right (mk p left right))))"

definition compileContains :: "pos \<Rightarrow> compiled \<Rightarrow> compiled \<Rightarrow> compiled" where
  "compileContains = string_operands ''contains'' opContains"

definition compileStartsWith :: "pos \<Rightarrow> compiled \<Rightarrow> compiled \<Rightarrow> compiled" where
  "compileStartsWith = string_operands ''starts_with'' opStartsWith"

definition compileEndsWith :: "pos \<Rightarrow> compiled \<Rightarrow> compiled \<Rightarrow> compiled" where
  "compileEndsWith = string_operands ''ends_with'' opEndsWith"

definition compileMatches :: "golib \<Rightarrow> pos \<Rightarrow> compiled \<Rightarrow> Node \<Rightarrow> compiled" where
  "compileMatches L p l right =
     try_then l (\<lambda>left.
     if nodeKind left \<noteq> KindString \<and> nodeKind left \<noteq> KindBytes
     then err_at p CodeTypeMismatch (MsgLeftOperand ''matches'' (nodeKind left))
     else case right of
            LitString rl rc v \<Rightarrow>
              let pattern = fst (AsString v)
              in if \<not> lib_re_compile L pattern then err_at (rl, rc) CodeBadRegex (MsgBadRegex pattern)
                 else Inr (opMatches p left (Some pattern))
          | _ \<Rightarrow> err_at (Pos right) CodeBadRegex MsgRegexNotLiteral)"

definition compileWildcard :: "pos \<Rightarrow> compiled \<Rightarrow> Node \<Rightarrow> compiled" where
  "compileWildcard p l right =
     try_then l (\<lambda>left.
     if nodeKind left \<noteq> KindString then err_at p CodeTypeMismatch (MsgLeftOperand ''wildcard'' (nodeKind left))
     else case right of
            LitString _ _ v \<Rightarrow> Inr (opWildcard p left (fst (AsString v)))
          | _ \<Rightarrow> err_at (Pos right) CodeTypeMismatch MsgWildcardNotLiteral)"

fun mixed_kind :: "Kind \<Rightarrow> op list \<Rightarrow> Kind option" where
  "mixed_kind first [] = None"
| "mixed_kind first (e # es) = (if nodeKind e \<noteq> first then Some (nodeKind e) else mixed_kind first es)"

definition uniformArrayElementKind :: "pos \<Rightarrow> op list \<Rightarrow> CompileError + Kind" where
  "uniformArrayElementKind p elements =
     (case elements of
        [] \<Rightarrow> err_at p CodeTypeMismatch MsgInEmptyArray
      | e # es \<Rightarrow>
          (case mixed_kind (nodeKind e) es of
             Some k \<Rightarrow> err_at p CodeTypeMismatch (MsgInMixedKinds (nodeKind e) k)
           | None \<Rightarrow> Inr (nodeKind e)))"

definition compileIn :: "pos \<Rightarrow> pos \<Rightarrow> pos \<Rightarrow> compiled \<Rightarrow> compiled \<Rightarrow> compiled" where
  "compileIn p elemPos setPos e s =
     try_then e (\<lambda>element. try_then s (\<lambda>setCompiled.
     case array_elements setCompiled of
       None \<Rightarrow> err_at setPos CodeTypeMismatch MsgInNotArray
     | Some (ap, es) \<Rightarrow>
         try_then (uniformArrayElementKind ap es) (\<lambda>elemKind.
         let elemKindOfOp = nodeKind element
         in if elemKindOfOp = KindInvalid then err_at elemPos CodeTypeMismatch MsgInUnknownKind
            else if elemKind = KindIP \<and> elemKindOfOp \<noteq> KindIP
            then err_at elemPos CodeTypeMismatch (MsgInKind elemKindOfOp elemKind)
            else if elemKind \<noteq> KindIP \<and> elemKindOfOp \<noteq> elemKind
            then err_at elemPos CodeTypeMismatch (MsgInKind elemKindOfOp elemKind)
            else if strict_inner element \<noteq> None then Inr (opStrict p (opIn p element setCompiled))
            else Inr (opIn p element setCompiled))))"

definition compileBitAnd :: "pos \<Rightarrow> pos \<Rightarrow> pos \<Rightarrow> compiled \<Rightarrow> compiled \<Rightarrow> compiled" where
  "compileBitAnd p leftPos rightPos l r =
     try_then l (\<lambda>left. try_then r (\<lambda>right.
     if nodeKind left \<noteq> KindBytes then err_at leftPos CodeTypeMismatch (MsgLeftOperand ''&'' (nodeKind left))
     else if nodeKind right \<noteq> KindBytes then err_at rightPos CodeTypeMismatch (MsgRightOperand ''&'' (nodeKind right))
     else case (bytesLiteralLen left, bytesLiteralLen right) of
            (Some m, Some n) \<Rightarrow>
              if m \<noteq> n then err_at p CodeTypeMismatch (MsgByteLengths m n) else Inr (opBitAnd p left right)
          | _ \<Rightarrow> Inr (opBitAnd p left right)))"

definition strict_wraps :: "op \<Rightarrow> bool" where
  "strict_wraps o1 =
     (case o1 of
        opCmp _ _ _ _ \<Rightarrow> True | opContains _ _ _ \<Rightarrow> True | opStartsWith _ _ _ \<Rightarrow> True
      | opEndsWith _ _ _ \<Rightarrow> True | opMatches _ _ _ \<Rightarrow> True | opWildcard _ _ _ \<Rightarrow> True
      | opIn _ _ _ \<Rightarrow> True | opBitAnd _ _ _ \<Rightarrow> True
      | opLitString _ _ \<Rightarrow> True | opLitInt _ _ \<Rightarrow> True | opLitFloat _ _ \<Rightarrow> True | opLitBool _ _ \<Rightarrow> True
      | opLitIP _ _ _ _ _ \<Rightarrow> True | opLitBytes _ _ \<Rightarrow> True | opLitDuration _ _ \<Rightarrow> True
      | opLitTimestamp _ _ \<Rightarrow> True | _ \<Rightarrow> False)"

definition compileStrict :: "pos \<Rightarrow> compiled \<Rightarrow> compiled" where
  "compileStrict p m =
     try_then m (\<lambda>inner.
     if strict_wraps inner then Inr (opStrict p inner)
     else err_at p CodeBadStrictPlace MsgStrictPlace)"

section \<open>The compiler\<close>

fun compileNode :: "golib \<Rightarrow> Compiler \<Rightarrow> Node \<Rightarrow> compiled" where
  "compileNode L C (LitString l c v) = Inr (opLitString (l, c) v)"
| "compileNode L C (LitInt l c v) = Inr (opLitInt (l, c) v)"
| "compileNode L C (LitFloat l c v) = Inr (opLitFloat (l, c) v)"
| "compileNode L C (LitBool l c v) = Inr (opLitBool (l, c) v)"
| "compileNode L C (LitIP l c raw cidr v) = compileLitIP (l, c) raw cidr v"
| "compileNode L C (LitBytes l c v) = Inr (opLitBytes (l, c) v)"
| "compileNode L C (LitDuration l c v) = Inr (opLitDuration (l, c) v)"
| "compileNode L C (LitTimestamp l c v) = Inr (opLitTimestamp (l, c) v)"
| "compileNode L C (LitArray l c es) = compileLitArray (l, c) es"
| "compileNode L C (FieldRef l c name) = compileFieldRef C (l, c) name"
| "compileNode L C (BracketAccess l c obj key) = compileBracketAccess C (l, c) obj key"
| "compileNode L C (FuncCall l c name args) = compileFuncCall L (l, c) name (map (compileNode L C) args)"
| "compileNode L C (And l c a b) = compileAnd (l, c) (compileNode L C a) (compileNode L C b)"
| "compileNode L C (Or l c a b) = compileOr (l, c) (compileNode L C a) (compileNode L C b)"
| "compileNode L C (Not l c a) = compileNot (l, c) (compileNode L C a)"
| "compileNode L C (Cmp l c cop a b) = compileCmp (l, c) cop (compileNode L C a) (compileNode L C b)"
| "compileNode L C (Contains l c a b) = compileContains (l, c) (compileNode L C a) (compileNode L C b)"
| "compileNode L C (StartsWith l c a b) = compileStartsWith (l, c) (compileNode L C a) (compileNode L C b)"
| "compileNode L C (EndsWith l c a b) = compileEndsWith (l, c) (compileNode L C a) (compileNode L C b)"
| "compileNode L C (Matches l c a b) = compileMatches L (l, c) (compileNode L C a) b"
| "compileNode L C (Wildcard l c a b) = compileWildcard (l, c) (compileNode L C a) b"
| "compileNode L C (In l c a b) = compileIn (l, c) (Pos a) (Pos b) (compileNode L C a) (compileNode L C b)"
| "compileNode L C (BitAnd l c a b) =
     compileBitAnd (l, c) (Pos a) (Pos b) (compileNode L C a) (compileNode L C b)"
| "compileNode L C (Strict l c a) = compileStrict (l, c) (compileNode L C a)"

definition Compiler_Compile :: "golib \<Rightarrow> Compiler \<Rightarrow> Node option \<Rightarrow> CompileError + Plan" where
  "Compiler_Compile L C ast =
     (case ast of
        None \<Rightarrow> err_at (0, 0) CodeInvalidLiteral MsgNilAST
      | Some n \<Rightarrow> try_then (compileNode L C n) (\<lambda>root.
          Inr \<lparr>plan_root = Some root, plan_Rev = sch_rev (c_scheme C)\<rparr>))"

definition Compile :: "golib \<Rightarrow> Node option \<Rightarrow> Scheme option \<Rightarrow> CompileError + Plan" where
  "Compile L ast scheme = try_then (NewCompiler scheme) (\<lambda>C. Compiler_Compile L C ast)"

section \<open>The index of fields\<close>

lemma index_fields_snoc: "index_fields (fs @ [f]) = (index_fields fs)(FullName f \<mapsto> length fs)"
  by (simp add: index_fields_def enumerate_append_eq)

lemma index_fields_Some:
  "index_fields fs name = Some i \<Longrightarrow> i < length fs \<and> FullName (fs ! i) = name"
  by (induction fs rule: rev_induct)
     (auto simp: index_fields_snoc index_fields_def [of "[]"] nth_append split: if_splits)

lemma index_fields_None: "index_fields fs name = None \<longleftrightarrow> name \<notin> FullName ` set fs"
  by (induction fs rule: rev_induct) (auto simp: index_fields_snoc index_fields_def [of "[]"])

text \<open>The compilers that \<open>NewCompiler\<close> builds.\<close>

definition compiler_ok :: "Compiler \<Rightarrow> bool" where
  "compiler_ok C = (\<forall>name. c_fieldIdx C name = index_fields (sch_fields (c_scheme C)) name)"

lemma NewCompiler_ok: "NewCompiler sch = Inr C \<Longrightarrow> compiler_ok C \<and> sch = Some (c_scheme C)"
  by (auto simp: NewCompiler_def compiler_ok_def err_at_def split: option.splits)

section \<open>What a successful compilation guarantees\<close>

definition field_ok :: "Scheme \<Rightarrow> op_field \<Rightarrow> bool" where
  "field_ok sch f =
     (f_id f < length (sch_fields sch) \<and>
      FullName (sch_fields sch ! f_id f) = f_name f \<and> Type (sch_fields sch ! f_id f) = f_type f)"

definition cmp_kinds :: "opCmpOp \<Rightarrow> op \<Rightarrow> op \<Rightarrow> bool" where
  "cmp_kinds cop l r =
     (if cop = opCmpEq \<or> cop = opCmpNe
      then operand_kind l = KindInvalid \<or> operand_kind r = KindInvalid \<or> operand_kind l = operand_kind r
      else operand_kind l = operand_kind r \<and> isOrderable (operand_kind l))"

text \<open>The kind the i-th argument of a call must have; \<open>KindInvalid\<close> is any.\<close>

definition param_kind :: "FuncSpec \<Rightarrow> nat \<Rightarrow> Kind" where
  "param_kind spec i =
     (let pk = fs_ParamKinds spec
      in if fs_IsVariadic spec \<and> Suc i \<ge> length pk then pk ! (length pk - 1) else pk ! i)"

definition args_ok :: "FuncSpec \<Rightarrow> nat \<Rightarrow> op list \<Rightarrow> bool" where
  "args_ok spec i args =
     list_all (\<lambda>(j, a). param_kind spec j = KindInvalid \<or> nodeKind a = param_kind spec j) (enumerate i args)"

definition regex_const_ok :: "golib \<Rightarrow> op \<Rightarrow> string option \<Rightarrow> bool" where
  "regex_const_ok L patternOp compiled =
     (compiled = lit_string patternOp \<and>
      (case compiled of None \<Rightarrow> True | Some re \<Rightarrow> lib_re_compile L re))"

definition cidr_const_ok :: "op \<Rightarrow> IPNet option \<Rightarrow> bool" where
  "cidr_const_ok cidrOp net =
     (case lit_string cidrOp of
        None \<Rightarrow> net = None
      | Some text \<Rightarrow> (case ParseCIDR text of None \<Rightarrow> False | Some (_, n) \<Rightarrow> net = Some n))"

fun op_ok :: "golib \<Rightarrow> Scheme \<Rightarrow> op \<Rightarrow> bool" where
  "op_ok L sch (opLitString _ v) = (Kind_of v = KindString)"
| "op_ok L sch (opLitInt _ v) = (Kind_of v = KindInt)"
| "op_ok L sch (opLitFloat _ v) = (Kind_of v = KindFloat)"
| "op_ok L sch (opLitBool _ v) = (Kind_of v = KindBool)"
| "op_ok L sch (opLitIP _ v cidr ones net) =
     (Kind_of v = KindIP \<and>
      (case net of
         None \<Rightarrow> \<not> cidr \<and> ones = 0
       | Some n \<Rightarrow> cidr \<and> ones = mask_ones (net_mask n)))"
| "op_ok L sch (opLitBytes _ v) = (Kind_of v = KindBytes)"
| "op_ok L sch (opLitDuration _ v) = (Kind_of v = KindDuration)"
| "op_ok L sch (opLitTimestamp _ v) = (Kind_of v = KindTimestamp)"
| "op_ok L sch (opLitArray _ es) = list_all (\<lambda>e. literalValue e \<noteq> None \<and> op_ok L sch e) es"
| "op_ok L sch (opField f) = field_ok sch f"
| "op_ok L sch (opBracket _ f _) = (field_ok sch f \<and> f_type f = TypeMap)"
| "op_ok L sch (opFunc _ name args spec) =
     (Lookup (funcs L) name = Some spec \<and> arity_ok spec (length args) \<and> args_ok spec 0 args \<and>
      list_all (op_ok L sch) args)"
| "op_ok L sch (opRegexReplace _ s pat _ compiled r) =
     (op_ok L sch s \<and> op_ok L sch pat \<and> op_ok L sch r \<and> nodeKind s = KindString \<and>
      nodeKind pat = KindString \<and> nodeKind r = KindString \<and> regex_const_ok L pat compiled)"
| "op_ok L sch (opCIDRMatcher _ a b _ net) =
     (op_ok L sch a \<and> op_ok L sch b \<and> nodeKind a = KindIP \<and> nodeKind b = KindString \<and> cidr_const_ok b net)"
| "op_ok L sch (opAnd _ a b) = (op_ok L sch a \<and> op_ok L sch b)"
| "op_ok L sch (opOr _ a b) = (op_ok L sch a \<and> op_ok L sch b)"
| "op_ok L sch (opNot _ a) = op_ok L sch a"
| "op_ok L sch (opCmp _ cop a b) = (op_ok L sch a \<and> op_ok L sch b \<and> cmp_kinds cop a b)"
| "op_ok L sch (opContains _ a b) =
     (op_ok L sch a \<and> op_ok L sch b \<and> nodeKind a = KindString \<and> nodeKind b = KindString)"
| "op_ok L sch (opStartsWith _ a b) =
     (op_ok L sch a \<and> op_ok L sch b \<and> nodeKind a = KindString \<and> nodeKind b = KindString)"
| "op_ok L sch (opEndsWith _ a b) =
     (op_ok L sch a \<and> op_ok L sch b \<and> nodeKind a = KindString \<and> nodeKind b = KindString)"
| "op_ok L sch (opMatches _ a re) =
     (op_ok L sch a \<and> (nodeKind a = KindString \<or> nodeKind a = KindBytes) \<and>
      (case re of None \<Rightarrow> False | Some p \<Rightarrow> lib_re_compile L p))"
| "op_ok L sch (opWildcard _ a _) = (op_ok L sch a \<and> nodeKind a = KindString)"
| "op_ok L sch (opIn _ a b) =
     (op_ok L sch a \<and> op_ok L sch b \<and>
      (case array_elements b of
         None \<Rightarrow> False
       | Some (_, es) \<Rightarrow> es \<noteq> [] \<and> nodeKind a \<noteq> KindInvalid \<and> list_all (\<lambda>e. nodeKind e = nodeKind a) es))"
| "op_ok L sch (opStrict _ a) = (op_ok L sch a \<and> strict_wraps a)"
| "op_ok L sch (opBitAnd _ a b) =
     (op_ok L sch a \<and> op_ok L sch b \<and> nodeKind a = KindBytes \<and> nodeKind b = KindBytes)"

lemma err_at_not_Inr [simp]: "err_at p c m \<noteq> Inr x"
  by (simp add: err_at_def)

lemmas compile_Inr = res_Inr if_split_eq1

lemma compileLitIP_ok:
  assumes "compileLitIP p raw cidr v = Inr o1" "node_ok (LitIP l c raw cidr v)"
  shows "op_ok L sch o1 \<and> literalValue o1 \<noteq> None"
  using assms
  by (auto simp: compileLitIP_def literalValue_def split: if_splits option.splits prod.splits)

lemma compileArrayElement_ok:
  assumes "compileArrayElement n = Inr o1" "node_ok n"
  shows "op_ok L sch o1 \<and> literalValue o1 \<noteq> None"
  using assms compileLitIP_ok
  by (cases n) (auto simp: compileArrayElement_def literalValue_def)

lemma compile_elements_ok:
  "compile_elements ns = Inr os \<Longrightarrow> list_all node_ok ns \<Longrightarrow>
     list_all (\<lambda>e. literalValue e \<noteq> None \<and> op_ok L sch e) os"
  using compileArrayElement_ok by (induction ns arbitrary: os) (fastforce simp: res_Inr)+

lemma compileLitArray_ok:
  "compileLitArray p ns = Inr o1 \<Longrightarrow> list_all node_ok ns \<Longrightarrow> op_ok L sch o1"
  using compile_elements_ok by (fastforce simp: compileLitArray_def res_Inr split: if_splits)

lemma field_index_ok:
  assumes "compiler_ok C" "c_fieldIdx C name = Some i"
  shows "field_ok (c_scheme C) \<lparr>f_pos = p, f_id = i, f_name = name, f_type = Type (sch_fields (c_scheme C) ! i)\<rparr>"
  using assms index_fields_Some by (auto simp: compiler_ok_def field_ok_def)

lemma compileFieldRef_ok:
  "compiler_ok C \<Longrightarrow> compileFieldRef C p name = Inr o1 \<Longrightarrow> op_ok L (c_scheme C) o1"
  using field_index_ok [of C name _ p] by (auto simp: compileFieldRef_def split: option.splits)

lemma compileBracketAccess_ok:
  assumes C: "compiler_ok C" and c: "compileBracketAccess C p obj key = Inr o1"
  shows "op_ok L (c_scheme C) o1"
proof -
  obtain rl rc name i l' c' v where *: "c_fieldIdx C name = Some i"
    "Type (sch_fields (c_scheme C) ! i) = TypeMap"
    "o1 = opBracket p \<lparr>f_pos = (rl, rc), f_id = i, f_name = name, f_type = TypeMap\<rparr> (fst (AsString v))"
    using c by (auto simp: compileBracketAccess_def Let_def split: Node.splits option.splits if_splits)
  with field_index_ok [OF C *(1), of "(rl, rc)"] show ?thesis by simp
qed

lemma compile_args_ok:
  "compile_args name p spec i as = Inr os \<Longrightarrow>
     length os = length as \<and> args_ok spec i os \<and> list_all2 (\<lambda>a b. a = Inr b) as os"
proof (induction as arbitrary: i os)
  case (Cons a as)
  then obtain x os' where "a = Inr x" "os = x # os'"
    "param_kind spec i = KindInvalid \<or> nodeKind x = param_kind spec i"
    "compile_args name p spec (Suc i) as = Inr os'"
    by (auto simp: res_Inr Let_def param_kind_def split: if_splits)
  with Cons.IH [of "Suc i" os'] show ?case by (auto simp: args_ok_def)
qed (simp add: args_ok_def)

lemma Inr_args_ok:
  assumes "list_all2 (\<lambda>a b. a = Inr b) as os" "\<And>o1. Inr o1 \<in> set as \<Longrightarrow> op_ok L sch o1"
  shows "list_all (op_ok L sch) os"
  using assms by (induction rule: list_all2_induct) auto

lemma Lookup_cidr_matches: "Lookup (funcs L) ''cidr_matches'' =
    Some (func_spec ''cidr_matches'' [KindIP, KindString] KindBool False False evalCIDRMatches)"
  by (simp add: Lookup_def funcs_eq builtin_specs_def init_defs func_spec_def)

lemma Lookup_regex_replace: "Lookup (funcs L) ''regex_replace'' =
    Some (func_spec ''regex_replace'' [KindString, KindString, KindString] KindString True False
            (evalRegexReplaceFallback L))"
  by (simp add: Lookup_def funcs_eq builtin_specs_def init_defs func_spec_def)

lemma cidr_matcher_op_ok:
  "cidr_matcher_op p a b = Inr o1 \<Longrightarrow> \<exists>t n. o1 = opCIDRMatcher p a b t n \<and> cidr_const_ok b n"
  unfolding cidr_matcher_op_def cidr_const_ok_def
  by (cases "lit_string b") (simp, auto split: option.split_asm)

lemma regex_replace_op_ok:
  "regex_replace_op L p a b c = Inr o1 \<Longrightarrow> \<exists>t n. o1 = opRegexReplace p a b t n c \<and> regex_const_ok L b n"
  by (auto simp: regex_replace_op_def regex_const_ok_def split: option.splits if_splits)

lemma compileCIDRMatcher_cases:
  assumes "compileCIDRMatcher L p as = Inr o1"
  obtains a b where "as = [Inr a, Inr b]" "nodeKind a = KindIP" "nodeKind b = KindString"
    "cidr_matcher_op p a b = Inr o1"
proof -
  from assms have "length as = 2"
    by (simp add: compileCIDRMatcher_def Lookup_cidr_matches func_spec_def split: if_splits)
  then obtain x y where "as = [x, y]" by (auto simp: numeral_2_eq_2 length_Suc_conv)
  with assms that show thesis
    by (auto simp: compileCIDRMatcher_def Lookup_cidr_matches func_spec_def res_Inr split: if_splits)
qed

lemma compileRegexReplace_cases:
  assumes "compileRegexReplace L p as = Inr o1"
  obtains a b c where "as = [Inr a, Inr b, Inr c]" "nodeKind a = KindString" "nodeKind b = KindString"
    "nodeKind c = KindString" "regex_replace_op L p a b c = Inr o1"
proof -
  from assms have "length as = 3"
    by (simp add: compileRegexReplace_def Lookup_regex_replace func_spec_def split: if_splits)
  then obtain x y z where "as = [x, y, z]" by (auto simp: numeral_3_eq_3 length_Suc_conv)
  with assms that show thesis
    by (auto simp: compileRegexReplace_def Lookup_regex_replace func_spec_def string_arg_def res_Inr
        split: if_splits)
qed

lemma compileCIDRMatcher_ok:
  assumes "compileCIDRMatcher L p as = Inr o1" "\<And>x. Inr x \<in> set as \<Longrightarrow> op_ok L sch x"
  shows "op_ok L sch o1"
proof -
  from assms(1) obtain a b where *: "as = [Inr a, Inr b]" "nodeKind a = KindIP" "nodeKind b = KindString"
    "cidr_matcher_op p a b = Inr o1" by (rule compileCIDRMatcher_cases)
  from cidr_matcher_op_ok [OF *(4)] obtain t n where "o1 = opCIDRMatcher p a b t n" "cidr_const_ok b n" by blast
  with * assms(2) [of a] assms(2) [of b] show ?thesis by simp
qed

lemma compileRegexReplace_ok:
  assumes "compileRegexReplace L p as = Inr o1" "\<And>x. Inr x \<in> set as \<Longrightarrow> op_ok L sch x"
  shows "op_ok L sch o1"
proof -
  from assms(1) obtain a b c where *: "as = [Inr a, Inr b, Inr c]" "nodeKind a = KindString"
    "nodeKind b = KindString" "nodeKind c = KindString" "regex_replace_op L p a b c = Inr o1"
    by (rule compileRegexReplace_cases)
  from regex_replace_op_ok [OF *(5)] obtain t n
    where "o1 = opRegexReplace p a b t n c" "regex_const_ok L b n" by blast
  with * assms(2) [of a] assms(2) [of b] assms(2) [of c] show ?thesis by simp
qed

lemma compileFuncCall_ok:
  assumes "compileFuncCall L p name as = Inr o1" "\<And>x. Inr x \<in> set as \<Longrightarrow> op_ok L sch x"
  shows "op_ok L sch o1"
proof -
  consider "name = ''regex_replace''" | "name = ''cidr_matches''"
    | "name \<noteq> ''regex_replace''" "name \<noteq> ''cidr_matches''" by blast
  then show ?thesis
  proof cases
    case 3
    then obtain spec os where *: "Lookup (funcs L) name = Some spec" "compile_args name p spec 0 as = Inr os"
      "o1 = opFunc p name os spec" "arity_ok spec (length as)"
      using assms(1)
      by (auto simp: compileFuncCall_def Let_def res_Inr arity_ok_def split: option.splits if_splits)
    from compile_args_ok [OF *(2)] Inr_args_ok assms(2) have "list_all (op_ok L sch) os" by blast
    with * compile_args_ok [OF *(2)] show ?thesis by simp
  qed (use assms compileRegexReplace_ok compileCIDRMatcher_ok in \<open>auto simp: compileFuncCall_def\<close>)
qed

lemma compileCmp_ok:
  assumes "compileCmp p cop l r = Inr o1" "\<And>x. l = Inr x \<Longrightarrow> op_ok L sch x" "\<And>x. r = Inr x \<Longrightarrow> op_ok L sch x"
  shows "op_ok L sch o1"
  using assms
  by (cases cop) (auto simp: compileCmp_def res_Inr checkCmpOperands_def rewrap_def cmp_kinds_def Let_def
      strict_wraps_def split: if_splits)

lemma string_operands_ok:
  assumes "string_operands name mk p l r = Inr o1"
  obtains a b where "l = Inr a" "r = Inr b" "nodeKind a = KindString" "nodeKind b = KindString"
    "o1 = rewrap p a b (mk p a b)"
  using assms that by (auto simp: string_operands_def res_Inr split: if_splits)

lemma mixed_kind_None: "mixed_kind k es = None \<longleftrightarrow> list_all (\<lambda>e. nodeKind e = k) es"
  by (induction es) auto

lemma compileIn_ok:
  assumes "compileIn p ep sp l r = Inr o1" "\<And>x. l = Inr x \<Longrightarrow> op_ok L sch x" "\<And>x. r = Inr x \<Longrightarrow> op_ok L sch x"
  shows "op_ok L sch o1"
proof -
  obtain a b ap es where *: "l = Inr a" "r = Inr b" "array_elements b = Some (ap, es)" "es \<noteq> []"
    "nodeKind a \<noteq> KindInvalid" "list_all (\<lambda>e. nodeKind e = nodeKind a) es"
    "o1 = opIn p a b \<or> o1 = opStrict p (opIn p a b)"
    using assms(1)
    by (auto simp: compileIn_def res_Inr Let_def uniformArrayElementKind_def mixed_kind_None
        split: option.splits if_splits list.splits)
  with assms(2,3) show ?thesis by (auto simp: strict_wraps_def)
qed

lemma compileNode_ok:
  assumes "compiler_ok C"
  shows "node_ok n \<Longrightarrow> compileNode L C n = Inr o1 \<Longrightarrow> op_ok L (c_scheme C) o1"
proof (induction n arbitrary: o1)
  case (FuncCall l c name args)
  have "op_ok L (c_scheme C) x" if "Inr x \<in> set (map (compileNode L C) args)" for x
    using that FuncCall.IH FuncCall.prems(1) by (auto simp: list_all_iff)
  with FuncCall.prems(2) show ?case by (auto intro: compileFuncCall_ok)
next
  case (Cmp l c cop a b)
  then show ?case by (auto intro: compileCmp_ok)
next
  case (In l c a b)
  then show ?case by (auto intro: compileIn_ok)
next
  case (Contains l c a b)
  then show ?case
    by (auto simp: compileContains_def rewrap_def strict_wraps_def elim!: string_operands_ok)
next
  case (StartsWith l c a b)
  then show ?case
    by (auto simp: compileStartsWith_def rewrap_def strict_wraps_def elim!: string_operands_ok)
next
  case (EndsWith l c a b)
  then show ?case
    by (auto simp: compileEndsWith_def rewrap_def strict_wraps_def elim!: string_operands_ok)
next
  case (Matches l c a b)
  then show ?case by (auto simp: compileMatches_def res_Inr Let_def split: if_splits Node.splits)
next
  case (Wildcard l c a b)
  then show ?case by (auto simp: compileWildcard_def res_Inr split: if_splits Node.splits)
next
  case (BitAnd l c a b)
  then show ?case by (auto simp: compileBitAnd_def res_Inr split: if_splits option.splits)
qed (use assms in \<open>auto simp: compileAnd_def compileOr_def compileNot_def compileStrict_def res_Inr
       simp del: node_ok.simps(7) dest: compileLitIP_ok compileLitArray_ok compileFieldRef_ok compileBracketAccess_ok
       split: if_splits\<close>)

lemma Compile_ok:
  assumes "Compile L ast sch = Inr plan" "\<And>n. ast = Some n \<Longrightarrow> node_ok n"
  obtains s root where "sch = Some s" "plan = \<lparr>plan_root = Some root, plan_Rev = sch_rev s\<rparr>" "op_ok L s root"
proof -
  from assms(1) obtain C n root where *: "NewCompiler sch = Inr C" "ast = Some n" "compileNode L C n = Inr root"
    "plan = \<lparr>plan_root = Some root, plan_Rev = sch_rev (c_scheme C)\<rparr>"
    by (auto simp: Compile_def Compiler_Compile_def res_Inr split: option.splits)
  with NewCompiler_ok [OF *(1)] assms(2) compileNode_ok that show thesis by blast
qed

end
