(* ===== verification/Rule_Eval.thy ===== *)
theory Rule_Eval
  imports Rule_Compiler
begin

text \<open>
  The evaluator of plans, \<^verbatim>\<open>pkg/rule/compiler/eval.go\<close>. \<open>evalValue\<close> has three results: a value,
  \<open>Miss\<close> for the pair \<^verbatim>\<open>(rule.Value{}, false)\<close>, and \<open>Panic\<close> for the run-time panics a call of a
  function value can raise; \<open>eval\<close> is an option with \<open>None\<close> for a panic. The helpers take the
  results of evaluating the children and inspect them in the order of the source.

  The lazily compiled expression of \<^verbatim>\<open>opWildcard\<close> is a function of its pattern, so \<^verbatim>\<open>sync.Once\<close> only
  decides when it is computed.
\<close>

section \<open>Values of ops\<close>

datatype vres = Panic | Miss | Val Value

fun collect_args :: "vres list \<Rightarrow> vres + Value list" where
  "collect_args [] = Inr []"
| "collect_args (r # rs) =
     (case r of
        Val v \<Rightarrow> try_then (collect_args rs) (\<lambda>vs. Inr (v # vs))
      | _ \<Rightarrow> Inl r)"

definition evalFuncCallValue :: "FuncSpec \<Rightarrow> vres list \<Rightarrow> vres" where
  "evalFuncCallValue spec rs =
     (case collect_args rs of
        Inl r \<Rightarrow> r
      | Inr args \<Rightarrow> (case fs_Eval spec of
            None \<Rightarrow> Panic
          | Some f \<Rightarrow> (case f args of None \<Rightarrow> Panic | Some v \<Rightarrow> Val v)))"

text \<open>Go's \<^verbatim>\<open>v, ok := ...; if !ok { return rule.Value{}, false }\<close>.\<close>

definition on_val :: "vres \<Rightarrow> (Value \<Rightarrow> vres) \<Rightarrow> vres" where
  "on_val r f = (case r of Val v \<Rightarrow> f v | _ \<Rightarrow> r)"

definition evalRegexReplaceValue :: "golib \<Rightarrow> string option \<Rightarrow> vres \<Rightarrow> vres \<Rightarrow> vres \<Rightarrow> vres" where
  "evalRegexReplaceValue L compiled subject repl pattern =
     on_val subject (\<lambda>sv. on_val repl (\<lambda>rv.
       let s = fst (AsString sv); r = fst (AsString rv)
       in case compiled of
            Some re \<Rightarrow> Val (NewString (lib_re_replace L re s r))
          | None \<Rightarrow> on_val pattern (\<lambda>pv.
              let p = fst (AsString pv)
              in if \<not> lib_re_compile L p then Val (NewString s)
                 else Val (NewString (lib_re_replace L p s r)))))"

definition evalCIDRMatcherValue :: "IPNet option \<Rightarrow> vres \<Rightarrow> vres \<Rightarrow> vres" where
  "evalCIDRMatcherValue cidrNet ipR cidrR =
     on_val ipR (\<lambda>ipV.
       case AsIP ipV of
         (ip, False) \<Rightarrow> Miss
       | (ip, True) \<Rightarrow>
           (case cidrNet of
              Some n \<Rightarrow> Val (NewBool (cidrContainsIP ip [] (Some n)))
            | None \<Rightarrow> on_val cidrR (\<lambda>cv. Val (NewBool (cidrContainsIP ip (fst (AsString cv)) None)))))"

definition bracket_value :: "Value option \<Rightarrow> string \<Rightarrow> vres" where
  "bracket_value r key =
     (case r of
        None \<Rightarrow> Miss
      | Some v \<Rightarrow>
          if Kind_of v \<noteq> KindMap then Miss
          else case map_of (fst (AsMap v)) key of None \<Rightarrow> Miss | Some mv \<Rightarrow> Val mv)"

fun evalValue :: "golib \<Rightarrow> 'p resolver \<Rightarrow> 'p Event option \<Rightarrow> op \<Rightarrow> vres" where
  "evalValue L res ev (opLitBool _ v) = Val v"
| "evalValue L res ev (opLitString _ v) = Val v"
| "evalValue L res ev (opLitInt _ v) = Val v"
| "evalValue L res ev (opLitFloat _ v) = Val v"
| "evalValue L res ev (opLitIP _ v _ _ _) = Val v"
| "evalValue L res ev (opLitBytes _ v) = Val v"
| "evalValue L res ev (opLitDuration _ v) = Val v"
| "evalValue L res ev (opLitTimestamp _ v) = Val v"
| "evalValue L res ev (opField f) = (case res (f_name f) ev of None \<Rightarrow> Miss | Some v \<Rightarrow> Val v)"
| "evalValue L res ev (opBracket _ f key) = bracket_value (res (f_name f) ev) key"
| "evalValue L res ev (opStrict _ i) = evalValue L res ev i"
| "evalValue L res ev (opFunc _ _ args spec) = evalFuncCallValue spec (map (evalValue L res ev) args)"
| "evalValue L res ev (opRegexReplace _ s p _ compiled r) =
     evalRegexReplaceValue L compiled (evalValue L res ev s) (evalValue L res ev r) (evalValue L res ev p)"
| "evalValue L res ev (opCIDRMatcher _ a b _ net) =
     evalCIDRMatcherValue net (evalValue L res ev a) (evalValue L res ev b)"
| "evalValue L res ev (opLitArray _ _) = Miss"
| "evalValue L res ev (opAnd _ _ _) = Miss"
| "evalValue L res ev (opOr _ _ _) = Miss"
| "evalValue L res ev (opNot _ _) = Miss"
| "evalValue L res ev (opCmp _ _ _ _) = Miss"
| "evalValue L res ev (opContains _ _ _) = Miss"
| "evalValue L res ev (opStartsWith _ _ _) = Miss"
| "evalValue L res ev (opEndsWith _ _ _) = Miss"
| "evalValue L res ev (opMatches _ _ _) = Miss"
| "evalValue L res ev (opWildcard _ _ _) = Miss"
| "evalValue L res ev (opIn _ _ _) = Miss"
| "evalValue L res ev (opBitAnd _ _ _) = Miss"

section \<open>Comparisons\<close>

definition compareLess :: "Value \<Rightarrow> Value \<Rightarrow> bool" where
  "compareLess left right =
     (case left of
        VInt li \<Rightarrow> sint li < sint (fst (AsInt right))
      | VFloat lf \<Rightarrow> f_lt lf (fst (AsFloat right))
      | VString ls \<Rightarrow> ls < fst (AsString right)
      | VTimestamp lt \<Rightarrow> time_Before lt (fst (AsTimestamp right))
      | VDuration ld \<Rightarrow> sint ld < sint (fst (AsDuration right))
      | _ \<Rightarrow> False)"

text \<open>Both operands are evaluated; a panic of either is one of the comparison.\<close>

definition on_vals :: "vres \<Rightarrow> vres \<Rightarrow> (Value \<Rightarrow> Value \<Rightarrow> bool) \<Rightarrow> bool option" where
  "on_vals l r f =
     (case (l, r) of
        (Panic, _) \<Rightarrow> None
      | (_, Panic) \<Rightarrow> None
      | (Val lv, Val rv) \<Rightarrow> Some (f lv rv)
      | _ \<Rightarrow> Some False)"

definition on_val1 :: "vres \<Rightarrow> (Value \<Rightarrow> bool) \<Rightarrow> bool option" where
  "on_val1 l f = (case l of Panic \<Rightarrow> None | Miss \<Rightarrow> Some False | Val v \<Rightarrow> Some (f v))"

text \<open>\<^verbatim>\<open>ipLit, ok := n.right.(*opLitIP); ok && ipLit.cidr\<close>, with the range.\<close>

definition cidr_literal :: "op \<Rightarrow> IPNet option option" where
  "cidr_literal o1 = (case o1 of opLitIP _ _ cidr _ net \<Rightarrow> if cidr then Some net else None | _ \<Rightarrow> None)"

definition cmp_values :: "opCmpOp \<Rightarrow> op \<Rightarrow> Value \<Rightarrow> Value \<Rightarrow> bool" where
  "cmp_values cop rightOp left right =
     (case (if Kind_of left = KindIP \<and> Kind_of right = KindIP then cidr_literal rightOp else None) of
        Some net \<Rightarrow>
          (case net of
             None \<Rightarrow> False
           | Some n \<Rightarrow> (case cop of
                 opCmpEq \<Rightarrow> Go_Net.Contains n (fst (AsIP left))
               | opCmpNe \<Rightarrow> \<not> Go_Net.Contains n (fst (AsIP left))
               | _ \<Rightarrow> False))
      | None \<Rightarrow>
          if Kind_of left \<noteq> Kind_of right then False
          else case cop of
                 opCmpEq \<Rightarrow> Equal left right
               | opCmpNe \<Rightarrow> \<not> Equal left right
               | opCmpLt \<Rightarrow> compareLess left right
               | opCmpLe \<Rightarrow> compareLess left right \<or> Equal left right
               | opCmpGt \<Rightarrow> compareLess right left
               | opCmpGe \<Rightarrow> compareLess right left \<or> Equal left right)"

definition evalCmp :: "opCmpOp \<Rightarrow> op \<Rightarrow> vres \<Rightarrow> vres \<Rightarrow> bool option" where
  "evalCmp cop rightOp l r = on_vals l r (cmp_values cop rightOp)"

section \<open>String operators\<close>

definition both_strings :: "(string \<Rightarrow> string \<Rightarrow> bool) \<Rightarrow> Value \<Rightarrow> Value \<Rightarrow> bool" where
  "both_strings f left right =
     (if Kind_of left \<noteq> KindString \<or> Kind_of right \<noteq> KindString then False
      else f (fst (AsString left)) (fst (AsString right)))"

definition evalContains :: "vres \<Rightarrow> vres \<Rightarrow> bool option" where
  "evalContains l r = on_vals l r (both_strings str_contains)"

definition evalStartsWith :: "vres \<Rightarrow> vres \<Rightarrow> bool option" where
  "evalStartsWith l r = on_vals l r (both_strings HasPrefix)"

definition evalEndsWith :: "vres \<Rightarrow> vres \<Rightarrow> bool option" where
  "evalEndsWith l r = on_vals l r (both_strings HasSuffix)"

definition evalMatches :: "golib \<Rightarrow> string option \<Rightarrow> vres \<Rightarrow> bool option" where
  "evalMatches L regex l =
     on_val1 l (\<lambda>left.
       case regex of
         None \<Rightarrow> False
       | Some re \<Rightarrow> (case left of
             VString s \<Rightarrow> lib_re_match L re s
           | VBytes b \<Rightarrow> lib_re_match L re (string_of_bytes b)
           | _ \<Rightarrow> False))"

text \<open>\<^verbatim>\<open>regexp.QuoteMeta\<close>, and the loop that turns the quoted \<^verbatim>\<open>*\<close> and \<^verbatim>\<open>?\<close> back into wildcards.\<close>

definition regex_special :: "char \<Rightarrow> bool" where
  "regex_special c = (c \<in> set [CHR 0x5C, CHR ''.'', CHR ''+'', CHR ''*'', CHR ''?'', CHR ''('', CHR '')'',
     CHR ''|'', CHR ''['', CHR '']'', CHR ''{'', CHR ''}'', CHR ''^'', CHR ''$''])"

definition QuoteMeta :: "string \<Rightarrow> string" where
  "QuoteMeta s = concat (map (\<lambda>c. if regex_special c then [CHR 0x5C, c] else [c]) s)"

fun wildcard_loop :: "string \<Rightarrow> string" where
  "wildcard_loop [] = []"
| "wildcard_loop [c] = [c]"
| "wildcard_loop (c # d # s) =
     (if c = CHR 0x5C \<and> d = CHR ''*'' then ''.*'' @ wildcard_loop s
      else if c = CHR 0x5C \<and> d = CHR ''?'' then ''.'' @ wildcard_loop s
      else c # wildcard_loop (d # s))"

definition compileWildcardPattern :: "golib \<Rightarrow> string \<Rightarrow> string option" where
  "compileWildcardPattern L pattern =
     (if pattern = [] then None
      else let re = ''^'' @ wildcard_loop (QuoteMeta pattern) @ ''$''
           in if lib_re_compile L re then Some re else None)"

definition evalWildcard :: "golib \<Rightarrow> string \<Rightarrow> vres \<Rightarrow> bool option" where
  "evalWildcard L pattern l =
     on_val1 l (\<lambda>left.
       if Kind_of left \<noteq> KindString then False
       else case compileWildcardPattern L pattern of
              None \<Rightarrow> False
            | Some re \<Rightarrow> lib_re_match L re (fst (AsString left)))"

section \<open>Membership and bit masks\<close>

text \<open>The loop over the members for an address: other members than addresses are skipped.\<close>

fun in_ips :: "IP \<Rightarrow> op list \<Rightarrow> bool" where
  "in_ips leftIP [] = False"
| "in_ips leftIP (e # es) =
     (case e of
        opLitIP _ v cidr _ net \<Rightarrow>
          (if cidr then
             (case net of
                Some n \<Rightarrow> if Go_Net.Contains n leftIP then True else in_ips leftIP es
              | None \<Rightarrow> in_ips leftIP es)
           else if IP_Equal leftIP (fst (AsIP v)) then True else in_ips leftIP es)
      | _ \<Rightarrow> in_ips leftIP es)"

text \<open>The loop for the other kinds, over the values of the members.\<close>

fun in_values :: "Value \<Rightarrow> vres list \<Rightarrow> bool option" where
  "in_values elem [] = Some False"
| "in_values elem (m # ms) =
     (case m of
        Panic \<Rightarrow> None
      | Miss \<Rightarrow> in_values elem ms
      | Val mv \<Rightarrow> if Kind_of mv = Kind_of elem \<and> Equal elem mv then Some True else in_values elem ms)"

definition evalIn :: "op \<Rightarrow> vres \<Rightarrow> vres list \<Rightarrow> bool option" where
  "evalIn setOp e members =
     (case e of
        Panic \<Rightarrow> None
      | Miss \<Rightarrow> Some False
      | Val elem \<Rightarrow>
          (case array_elements setOp of
             None \<Rightarrow> Some False
           | Some (_, es) \<Rightarrow>
               if es = [] then Some False
               else if Kind_of elem = KindIP then Some (in_ips (fst (AsIP elem)) es)
               else in_values elem members))"

fun bytes_masked :: "bytes \<Rightarrow> bytes \<Rightarrow> bool" where
  "bytes_masked (l # ls) (r # rs) = (if l AND r \<noteq> r then False else bytes_masked ls rs)"
| "bytes_masked _ _ = True"

definition evalBitAnd :: "vres \<Rightarrow> vres \<Rightarrow> bool option" where
  "evalBitAnd l r =
     on_vals l r (\<lambda>left right.
       if Kind_of left \<noteq> KindBytes \<or> Kind_of right \<noteq> KindBytes then False
       else let lv = fst (AsBytes left); rv = fst (AsBytes right)
            in if length lv \<noteq> length rv then False else bytes_masked lv rv)"

section \<open>Evaluation\<close>

text \<open>\<^verbatim>\<open>v.AsBool()\<close> of a function's value, false when it has none.\<close>

definition bool_result :: "vres \<Rightarrow> bool option" where
  "bool_result r = on_val1 r (\<lambda>v. case AsBool v of (b, True) \<Rightarrow> b | (_, False) \<Rightarrow> False)"

definition set_members :: "op \<Rightarrow> op list" where
  "set_members o1 = (case array_elements o1 of None \<Rightarrow> [] | Some (_, es) \<Rightarrow> es)"

text \<open>\<^verbatim>\<open>&&\<close> and \<^verbatim>\<open>||\<close> evaluate their right operand only when the left one does not decide.\<close>

definition and_then :: "bool option \<Rightarrow> bool option \<Rightarrow> bool option" where
  "and_then l r = (case l of None \<Rightarrow> None | Some False \<Rightarrow> Some False | Some True \<Rightarrow> r)"

definition or_else :: "bool option \<Rightarrow> bool option \<Rightarrow> bool option" where
  "or_else l r = (case l of None \<Rightarrow> None | Some True \<Rightarrow> Some True | Some False \<Rightarrow> r)"

fun eval :: "golib \<Rightarrow> 'p resolver \<Rightarrow> 'p Event option \<Rightarrow> op \<Rightarrow> bool option" where
  "eval L res ev (opLitBool _ v) = Some (case AsBool v of (b, ok) \<Rightarrow> if \<not> ok then False else b)"
| "eval L res ev (opLitString _ _) = Some False"
| "eval L res ev (opLitInt _ _) = Some False"
| "eval L res ev (opLitFloat _ _) = Some False"
| "eval L res ev (opLitIP _ _ _ _ _) = Some False"
| "eval L res ev (opLitBytes _ _) = Some False"
| "eval L res ev (opLitDuration _ _) = Some False"
| "eval L res ev (opLitTimestamp _ _) = Some False"
| "eval L res ev (opLitArray _ _) = Some False"
| "eval L res ev (opField _) = Some False"
| "eval L res ev (opBracket _ _ _) = Some False"
| "eval L res ev (opAnd _ a b) = and_then (eval L res ev a) (eval L res ev b)"
| "eval L res ev (opOr _ a b) = or_else (eval L res ev a) (eval L res ev b)"
| "eval L res ev (opNot _ a) = map_option (\<lambda>b. \<not> b) (eval L res ev a)"
| "eval L res ev (opCmp _ cop a b) = evalCmp cop b (evalValue L res ev a) (evalValue L res ev b)"
| "eval L res ev (opContains _ a b) = evalContains (evalValue L res ev a) (evalValue L res ev b)"
| "eval L res ev (opStartsWith _ a b) = evalStartsWith (evalValue L res ev a) (evalValue L res ev b)"
| "eval L res ev (opEndsWith _ a b) = evalEndsWith (evalValue L res ev a) (evalValue L res ev b)"
| "eval L res ev (opMatches _ a re) = evalMatches L re (evalValue L res ev a)"
| "eval L res ev (opWildcard _ a pat) = evalWildcard L pat (evalValue L res ev a)"
| "eval L res ev (opIn _ a b) =
     evalIn b (evalValue L res ev a) (map (evalValue L res ev) (set_members b))"
| "eval L res ev (opBitAnd _ a b) = evalBitAnd (evalValue L res ev a) (evalValue L res ev b)"
| "eval L res ev (opStrict _ a) = eval L res ev a"
| "eval L res ev (opFunc _ _ args spec) = bool_result (evalFuncCallValue spec (map (evalValue L res ev) args))"
| "eval L res ev (opRegexReplace _ s p _ compiled r) =
     bool_result (evalRegexReplaceValue L compiled
       (evalValue L res ev s) (evalValue L res ev r) (evalValue L res ev p))"
| "eval L res ev (opCIDRMatcher _ a b _ net) =
     bool_result (evalCIDRMatcherValue net (evalValue L res ev a) (evalValue L res ev b))"

text \<open>\<^verbatim>\<open>Plan.Eval\<close>; a nil plan, root or resolver gives false.\<close>

definition Plan_Eval :: "golib \<Rightarrow> Plan option \<Rightarrow> 'p resolver option \<Rightarrow> 'p Event option \<Rightarrow> bool option" where
  "Plan_Eval L p resolver event =
     (case p of
        None \<Rightarrow> Some False
      | Some plan \<Rightarrow> (case plan_root plan of
            None \<Rightarrow> Some False
          | Some root \<Rightarrow> (case resolver of
                None \<Rightarrow> Some False
              | Some res \<Rightarrow> eval L res event root)))"

section \<open>A compiled plan never panics\<close>

lemma collect_args_Inr: "collect_args rs = Inr vs \<longleftrightarrow> rs = map Val vs"
  by (induction rs arbitrary: vs) (auto simp: res_Inr split: vres.splits)

lemma collect_args_Inl: "collect_args rs = Inl r \<Longrightarrow> r \<in> set rs \<and> (\<forall>v. r \<noteq> Val v)"
  by (induction rs arbitrary: r) (auto simp: res_Inl split: vres.splits)

lemma on_val_Panic [simp]: "on_val r f = Panic \<longleftrightarrow> r = Panic \<or> (\<exists>v. r = Val v \<and> f v = Panic)"
  by (cases r) (auto simp: on_val_def)

lemma on_vals_total: "l \<noteq> Panic \<Longrightarrow> r \<noteq> Panic \<Longrightarrow> \<exists>b. on_vals l r f = Some b"
  by (cases l; cases r) (auto simp: on_vals_def)

lemma on_val1_total: "l \<noteq> Panic \<Longrightarrow> \<exists>b. on_val1 l f = Some b"
  by (cases l) (auto simp: on_val1_def)

lemma evalFuncCallValue_total:
  assumes "spec \<in> set (builtin_specs L)" "arity_ok spec (length rs)" "Panic \<notin> set rs"
  shows "evalFuncCallValue spec rs \<noteq> Panic"
proof (cases "collect_args rs")
  case (Inl r)
  then show ?thesis using collect_args_Inl [OF Inl] assms(3) by (auto simp: evalFuncCallValue_def)
next
  case (Inr vs)
  then have "rs = map Val vs" by (simp add: collect_args_Inr)
  with assms(1,2) builtin_total [of spec L vs] Inr show ?thesis by (auto simp: evalFuncCallValue_def)
qed

lemma evalValue_no_panic: "op_ok L sch o1 \<Longrightarrow> evalValue L res ev o1 \<noteq> Panic"
proof (induction o1)
  case (opFunc p name args spec)
  then show ?case
    using evalFuncCallValue_total [of spec L "map (evalValue L res ev) args"] Lookup_builtin
    by (fastforce simp: list_all_iff)
next
  case (opRegexReplace p s pat t re r)
  then show ?case
    by (auto simp: evalRegexReplaceValue_def Let_def split: option.splits)
next
  case (opCIDRMatcher p a b t n)
  then show ?case
    by (auto simp: evalCIDRMatcherValue_def split: option.splits prod.splits bool.splits)
qed (auto simp: bracket_value_def split: option.splits)

lemma in_values_total: "Panic \<notin> set ms \<Longrightarrow> \<exists>b. in_values elem ms = Some b"
  by (induction ms) (auto split: vres.splits)

lemma set_members_ok: "op_ok L sch o1 \<Longrightarrow> m \<in> set (set_members o1) \<Longrightarrow> op_ok L sch m \<and> literalValue m \<noteq> None"
  by (cases o1) (auto simp: set_members_def array_elements_def list_all_iff)

lemma evalIn_total:
  "e \<noteq> Panic \<Longrightarrow> Panic \<notin> set ms \<Longrightarrow> \<exists>b. evalIn s e ms = Some b"
  using in_values_total by (cases e) (auto simp: evalIn_def split: option.splits)

lemma eval_total: "op_ok L sch o1 \<Longrightarrow> \<exists>b. eval L res ev o1 = Some b"
proof (induction o1)
  case (opAnd p a b)
  then show ?case by (auto simp: and_then_def split: bool.splits)
next
  case (opOr p a b)
  then show ?case by (auto simp: or_else_def split: bool.splits)
next
  case (opCmp p c a b)
  then show ?case by (auto simp: evalCmp_def intro!: on_vals_total dest: evalValue_no_panic)
next
  case (opIn p a b)
  have "Panic \<notin> evalValue L res ev ` set (set_members b)"
    using opIn.prems set_members_ok [of L sch b] evalValue_no_panic [of L sch _ res ev] by force
  moreover have "evalValue L res ev a \<noteq> Panic" using opIn.prems evalValue_no_panic [of L sch a] by simp
  ultimately show ?case using evalIn_total by simp
next
  case (opFunc p name args spec)
  then show ?case using evalValue_no_panic [OF opFunc.prems] by (auto simp: bool_result_def intro: on_val1_total)
next
  case (opRegexReplace p s pat t re r)
  then show ?case using evalValue_no_panic [OF opRegexReplace.prems] by (auto simp: bool_result_def intro: on_val1_total)
next
  case (opCIDRMatcher p a b t n)
  then show ?case using evalValue_no_panic [OF opCIDRMatcher.prems] by (auto simp: bool_result_def intro: on_val1_total)
qed (auto simp: evalContains_def evalStartsWith_def evalEndsWith_def evalMatches_def evalWildcard_def
       evalBitAnd_def intro!: on_vals_total on_val1_total dest: evalValue_no_panic)

section \<open>A plan reads the fields of its scheme only\<close>

definition same_fields :: "Scheme \<Rightarrow> 'p resolver \<Rightarrow> 'p resolver \<Rightarrow> 'p Event option \<Rightarrow> bool" where
  "same_fields sch res res' ev = list_all (\<lambda>f. res (FullName f) ev = res' (FullName f) ev) (sch_fields sch)"

lemma field_ok_mem: "field_ok sch f \<Longrightarrow> f_name f \<in> FullName ` set (sch_fields sch)"
  by (metis field_ok_def image_eqI nth_mem)

lemma evalValue_agree:
  assumes "same_fields sch res res' ev"
  shows "op_ok L sch o1 \<Longrightarrow> evalValue L res ev o1 = evalValue L res' ev o1"
proof (induction o1)
  case (opFunc p name args spec)
  then have "map (evalValue L res ev) args = map (evalValue L res' ev) args" by (auto simp: list_all_iff)
  then show ?case by (simp del: map_eq_conv)
next
  case (opField f)
  then show ?case using assms field_ok_mem [of sch f] by (auto simp: same_fields_def list_all_iff)
next
  case (opBracket p f k)
  then show ?case using assms field_ok_mem [of sch f] by (auto simp: same_fields_def list_all_iff)
qed auto

lemma eval_agree:
  assumes "same_fields sch res res' ev"
  shows "op_ok L sch o1 \<Longrightarrow> eval L res ev o1 = eval L res' ev o1"
proof (induction o1)
  case (opIn p a b)
  have b: "op_ok L sch b" and a: "op_ok L sch a" using opIn.prems by simp_all
  have "map (evalValue L res ev) (set_members b) = map (evalValue L res' ev) (set_members b)"
    using set_members_ok [OF b] evalValue_agree [OF assms] by simp
  with evalValue_agree [OF assms a] show ?case by (simp del: map_eq_conv)
next
  case (opFunc p name args spec)
  with evalValue_agree [OF assms opFunc.prems] show ?case by simp
next
  case (opRegexReplace p s pat t re r)
  with evalValue_agree [OF assms opRegexReplace.prems] show ?case by simp
next
  case (opCIDRMatcher p a b t n)
  with evalValue_agree [OF assms opCIDRMatcher.prems] show ?case by simp
qed (use evalValue_agree [OF assms] in auto)

section \<open>Comparisons\<close>

lemma compareLess_trichotomy:
  assumes "Kind_of v = Kind_of w" "isOrderable (Kind_of v)" "self_equal v" "self_equal w"
  shows "compareLess v w \<and> \<not> Equal v w \<and> \<not> compareLess w v \<or>
    \<not> compareLess v w \<and> Equal v w \<and> \<not> compareLess w v \<or>
    \<not> compareLess v w \<and> \<not> Equal v w \<and> compareLess w v"
  using assms
  by (cases v; cases w)
     (auto simp: compareLess_def isOrderable_def go_simps f_lt_def f_eq_def time_Before_def time_Equal_def
       intro: signed_word_eqI)

lemma compareLess_trans:
  assumes "Kind_of u = Kind_of v" "Kind_of v = Kind_of w" "compareLess u v" "compareLess v w"
  shows "compareLess u w"
  using assms
  by (cases u; cases v; cases w)
     (auto simp: compareLess_def go_simps f_lt_def time_Before_def)

section \<open>Membership is a disjunction of equalities\<close>

lemma evalValue_literal: "literalValue o1 = Some v \<Longrightarrow> evalValue L res ev o1 = Val v"
  by (cases o1) (auto simp: literalValue_def)

lemma in_values_eq:
  assumes "list_all (\<lambda>m. literalValue m \<noteq> None) es" "Kind_of elem \<noteq> KindIP"
  shows "in_values elem (map (evalValue L res ev) es) =
    Some (list_ex (\<lambda>m. evalCmp opCmpEq m (Val elem) (evalValue L res ev m) = Some True) es)"
  using assms(1)
proof (induction es)
  case (Cons e es)
  then obtain v where v: "literalValue e = Some v" by auto
  with Cons assms(2) evalValue_literal [OF v, of L res ev] show ?case
    by (auto simp: evalCmp_def on_vals_def cmp_values_def)
qed simp

lemma in_ips_eq:
  assumes "list_all (op_ok L sch) es" "list_all (\<lambda>e. nodeKind e = KindIP \<and> literalValue e \<noteq> None) es"
  shows "in_ips ip es = list_ex (\<lambda>m. evalCmp opCmpEq m (Val (VIP ip)) (evalValue L res ev m) = Some True) es"
  using assms
proof (induction es)
  case (Cons e es)
  then obtain v where v: "literalValue e = Some v" by auto
  with Cons.prems have "\<exists>p ip' cidr n net. e = opLitIP p (VIP ip') cidr n net"
    by (cases e) (auto simp: literalValue_def go_kind)
  with Cons show ?case
    by (auto simp: evalCmp_def on_vals_def cmp_values_def cidr_literal_def go_simps split: option.splits)
qed simp

lemma eval_In_eq:
  assumes "op_ok L sch (opIn p a b)"
    "\<And>v. evalValue L res ev a = Val v \<Longrightarrow> Kind_of v = nodeKind a"
  shows "eval L res ev (opIn p a b) =
    Some (list_ex (\<lambda>m. eval L res ev (opCmp p opCmpEq a m) = Some True) (set_members b))"
proof -
  obtain ap es where es: "array_elements b = Some (ap, es)" "es \<noteq> []" "list_all (\<lambda>e. nodeKind e = nodeKind a) es"
    using assms(1) by (auto split: option.splits)
  then have mem: "set_members b = es" by (simp add: set_members_def)
  have b: "op_ok L sch b" and a: "op_ok L sch a" using assms(1) by simp_all
  have lit: "list_all (\<lambda>m. literalValue m \<noteq> None) es" and ok: "list_all (op_ok L sch) es"
    using set_members_ok [OF b] mem by (auto simp: list_all_iff)
  show ?thesis
  proof (cases "evalValue L res ev a")
    case Panic
    then show ?thesis using evalValue_no_panic [OF a, of res ev] by blast
  next
    case Miss
    then show ?thesis using evalValue_no_panic [of L sch _ res ev] ok
      by (auto simp: evalIn_def evalCmp_def on_vals_def list_ex_iff list_all_iff mem split: vres.splits)
  next
    case (Val v)
    have k: "Kind_of v = nodeKind a" using assms(2) Val by blast
    show ?thesis
    proof (cases "Kind_of v = KindIP")
      case True
      then obtain ip where ip: "v = VIP ip" by (auto simp: go_kind)
      have "list_all (\<lambda>e. nodeKind e = KindIP \<and> literalValue e \<noteq> None) es"
        using es(3) lit k True by (auto simp: list_all_iff)
      from in_ips_eq [OF ok this, of ip res ev] Val ip es mem show ?thesis
        by (simp add: evalIn_def go_simps)
    next
      case False
      from in_values_eq [OF lit this, of L res ev] Val es mem False show ?thesis by (simp add: evalIn_def)
    qed
  qed
qed

section \<open>Byte masks\<close>

lemma masked_byte_iff: "(a :: 8 word) AND m = m \<longleftrightarrow> (\<forall>k. bit m k \<longrightarrow> bit a k)"
proof
  show "a AND m = m \<Longrightarrow> \<forall>k. bit m k \<longrightarrow> bit a k" by (metis bit_and_iff)
  show "\<forall>k. bit m k \<longrightarrow> bit a k \<Longrightarrow> a AND m = m" by (rule bit_word_eqI) (auto simp: bit_and_iff)
qed

lemma bytes_masked_iff:
  "length a = length m \<Longrightarrow> bytes_masked a m \<longleftrightarrow> (\<forall>i < length a. \<forall>k. bit (m ! i) k \<longrightarrow> bit (a ! i) k)"
proof (induction a m rule: list_induct2)
  case (Cons x xs y ys)
  then show ?case by (auto simp: masked_byte_iff nth_Cons split: nat.splits)
qed simp

section \<open>Wildcards\<close>

text \<open>The expression a wildcard pattern stands for, character by character.\<close>

definition wild_char :: "char \<Rightarrow> string" where
  "wild_char c =
     (if c = CHR ''*'' then ''.*'' else if c = CHR ''?'' then ''.''
      else if regex_special c then [CHR 0x5C, c] else [c])"

lemma QuoteMeta_simps:
  "QuoteMeta [] = []"
  "QuoteMeta (c # s) = (if regex_special c then [CHR 0x5C, c] else [c]) @ QuoteMeta s"
  by (simp_all add: QuoteMeta_def)

lemma QuoteMeta_hd: "QuoteMeta s = c # t \<Longrightarrow> c \<noteq> CHR ''*'' \<and> c \<noteq> CHR ''?''"
  by (cases s) (auto simp: QuoteMeta_simps regex_special_def split: if_splits)

lemma wildcard_loop_plain: "c \<noteq> CHR 0x5C \<Longrightarrow> wildcard_loop (c # s) = c # wildcard_loop s"
  by (cases s) auto

lemma wildcard_loop_bs: "wildcard_loop (CHR 0x5C # QuoteMeta s) = CHR 0x5C # wildcard_loop (QuoteMeta s)"
  by (cases "QuoteMeta s") (auto dest: QuoteMeta_hd)

lemma wildcard_loop_QuoteMeta: "wildcard_loop (QuoteMeta s) = concat (map wild_char s)"
proof (induction s)
  case (Cons c s)
  consider "\<not> regex_special c" | "c = CHR ''*'' \<or> c = CHR ''?''" | "c = CHR 0x5C"
    | "regex_special c" "c \<noteq> CHR ''*''" "c \<noteq> CHR ''?''" "c \<noteq> CHR 0x5C" by blast
  then show ?case
  proof cases
    case 1
    then show ?thesis using Cons.IH
      by (auto simp: QuoteMeta_simps wild_char_def regex_special_def wildcard_loop_plain)
  next
    case 2
    then show ?thesis using Cons.IH by (auto simp: QuoteMeta_simps wild_char_def regex_special_def)
  next
    case 3
    then show ?thesis using Cons.IH
      by (simp add: QuoteMeta_simps wild_char_def regex_special_def wildcard_loop_bs)
  next
    case 4
    then show ?thesis using Cons.IH
      by (simp add: QuoteMeta_simps wild_char_def wildcard_loop_plain)
  qed
qed (simp add: QuoteMeta_simps)

section \<open>Precompiled constants change nothing\<close>

lemma lit_string_value:
  "op_ok L sch o1 \<Longrightarrow> lit_string o1 = Some t \<Longrightarrow> evalValue L res ev o1 = Val (VString t)"
  by (cases o1) (auto simp: lit_string_def go_simps go_kind)

lemma AsIP_other: "Kind_of v \<noteq> KindIP \<Longrightarrow> AsIP v = ([], False)"
  by (cases v) (auto simp: AsIP_def)

lemma cidr_matcher_value:
  "evalCIDRMatcherValue net (Val v) r =
     (if Kind_of v \<noteq> KindIP then Miss
      else case net of
             Some n \<Rightarrow> Val (VBool (cidrContainsIP (fst (AsIP v)) [] (Some n)))
           | None \<Rightarrow> on_val r (\<lambda>w. Val (VBool (cidrContainsIP (fst (AsIP v)) (fst (AsString w)) None))))"
  by (cases v) (auto simp: evalCIDRMatcherValue_def on_val_def AsIP_def NewBool_def split: option.split vres.split)

lemma cidr_call_value:
  "evalFuncCallValue (func_spec ''cidr_matches'' ks k al var evalCIDRMatches) [Val v, Val w] =
     Val (VBool (cidrContainsIP (fst (AsIP v)) (fst (AsString w)) None))"
  by (simp add: evalFuncCallValue_def func_spec_def evalCIDRMatches_def arg_def NewBool_def)

lemma bool_result_simps:
  "bool_result Miss = Some False" "bool_result (Val (VBool b)) = Some b"
  by (simp_all add: bool_result_def on_val1_def AsBool_def)

lemma evalFuncCallValue_Miss:
  "evalFuncCallValue spec (Miss # rs) = Miss" "evalFuncCallValue spec (Val v # Miss # rs) = Miss"
  by (simp_all add: evalFuncCallValue_def)

lemma cidr_matcher_as_call:
  assumes "op_ok L sch (opCIDRMatcher p a b t net)"
  shows "eval L res ev (opCIDRMatcher p a b t net) =
    eval L res ev (opFunc p ''cidr_matches'' [a, b]
      (func_spec ''cidr_matches'' [KindIP, KindString] KindBool False False evalCIDRMatches))"
proof -
  have ok: "op_ok L sch a" "op_ok L sch b" "cidr_const_ok b net" using assms by simp_all
  have np: "evalValue L res ev a \<noteq> Panic" "evalValue L res ev b \<noteq> Panic"
    using ok evalValue_no_panic by blast+
  note simps = cidr_matcher_value cidr_call_value bool_result_simps evalFuncCallValue_Miss on_val_def
    AsIP_other cidrContainsIP_def
  have miss: "evalCIDRMatcherValue net Miss r = Miss" for r by (simp add: evalCIDRMatcherValue_def on_val_def)
  show ?thesis
  proof (cases "lit_string b")
    case None
    then have "net = None" using ok(3) by (simp add: cidr_const_ok_def)
    with np miss show ?thesis
      by (cases "evalValue L res ev a"; cases "evalValue L res ev b") (auto simp: simps)
  next
    case (Some lit)
    then obtain ip n where n: "ParseCIDR lit = Some (ip, n)" "net = Some n"
      using ok(3) by (auto simp: cidr_const_ok_def split: option.splits)
    have "evalValue L res ev b = Val (VString lit)" using ok(2) Some by (rule lit_string_value)
    with n np miss show ?thesis
      by (cases "evalValue L res ev a") (auto simp: simps AsString_def)
  qed
qed

lemma regex_replace_as_call:
  assumes "op_ok L sch (opRegexReplace p s pat t re r)"
  shows "evalValue L res ev (opRegexReplace p s pat t re r) =
    evalValue L res ev (opFunc p ''regex_replace'' [s, pat, r]
      (func_spec ''regex_replace'' [KindString, KindString, KindString] KindString True False
        (evalRegexReplaceFallback L)))"
proof -
  have ok: "op_ok L sch s" "op_ok L sch pat" "op_ok L sch r" "regex_const_ok L pat re" using assms by simp_all
  have np: "evalValue L res ev s \<noteq> Panic" "evalValue L res ev pat \<noteq> Panic" "evalValue L res ev r \<noteq> Panic"
    using ok evalValue_no_panic by blast+
  show ?thesis
  proof (cases "lit_string pat")
    case None
    then have "re = None" using ok(4) by (simp add: regex_const_ok_def)
    with np show ?thesis
      by (cases "evalValue L res ev s"; cases "evalValue L res ev pat"; cases "evalValue L res ev r")
         (auto simp: evalRegexReplaceValue_def evalFuncCallValue_def on_val_def func_spec_def
           evalRegexReplaceFallback_def arg_def Let_def)
  next
    case (Some lit)
    then have "re = Some lit" "lib_re_compile L lit" using ok(4) by (auto simp: regex_const_ok_def)
    moreover have "evalValue L res ev pat = Val (VString lit)" using ok(2) Some by (rule lit_string_value)
    ultimately show ?thesis using np
      by (cases "evalValue L res ev s"; cases "evalValue L res ev r")
        (auto simp: evalRegexReplaceValue_def evalFuncCallValue_def on_val_def func_spec_def
           evalRegexReplaceFallback_def arg_def Let_def go_simps)
  qed
qed

section \<open>Kinds at run time\<close>

text \<open>
  The interface between the engine and a plugin's resolver: a field of the scheme, when it
  resolves, has a value of the kind its declared type stands for. Under it the kinds the compiler
  computed are the kinds of the values.
\<close>

locale field_resolver =
  fixes sch :: Scheme and res :: "'p resolver"
  assumes resolves_kind:
    "f \<in> set (sch_fields sch) \<Longrightarrow> res (FullName f) ev = Some v \<Longrightarrow> Kind_of v = kindFromFieldType (Type f)"
begin

lemma field_kind: "field_ok sch f \<Longrightarrow> res (f_name f) ev = Some v \<Longrightarrow> Kind_of v = kindFromFieldType (f_type f)"
  using resolves_kind [of "sch_fields sch ! f_id f" ev v] by (auto simp: field_ok_def)

lemma func_kind:
  assumes "op_ok L sch (opFunc p name args spec)" "evalValue L res ev (opFunc p name args spec) = Val v"
  shows "Kind_of v = fs_ReturnKind spec"
proof -
  from assms(2) obtain vs f where vs: "map (evalValue L res ev) args = map Val vs"
    and f: "fs_Eval spec = Some f" "f vs = Some v"
    by (auto simp: evalFuncCallValue_def collect_args_Inr split: sum.splits option.splits dest: collect_args_Inl)
  have "length vs = length args" using arg_cong [OF vs, of length] by simp
  moreover have "spec \<in> set (builtin_specs L)" "arity_ok spec (length args)"
    using assms(1) Lookup_builtin by auto
  ultimately show ?thesis using builtin_total [of spec L vs] f by auto
qed

lemma value_kind:
  assumes "op_ok L sch o1" "evalValue L res ev o1 = Val v" "\<not> isBracketOp (unwrap o1)"
  shows "Kind_of v = nodeKind (unwrap o1)"
proof -
  have plain: "Kind_of v = nodeKind x"
    if "op_ok L sch x" "evalValue L res ev x = Val v" "\<not> isBracketOp x" "strict_inner x = None" for x
  proof (cases x)
    case (opFunc p name args spec)
    with that func_kind show ?thesis by (metis nodeKind.simps(24))
  next
    case (opRegexReplace p s pat t re r)
    with that show ?thesis
      by (auto simp: evalRegexReplaceValue_def on_val_def Let_def NewString_def
          split: vres.splits option.splits if_splits)
  next
    case (opCIDRMatcher p a b t n)
    with that show ?thesis
      by (auto simp: evalCIDRMatcherValue_def on_val_def NewBool_def
          split: vres.splits option.splits prod.splits bool.splits)
  qed (use that field_kind in \<open>auto simp: isBracketOp_def strict_inner_def split: option.splits\<close>)
  show ?thesis
  proof (cases "strict_inner o1")
    case None
    then show ?thesis using plain [OF assms(1,2)] assms(3) by (simp add: unwrap_def)
  next
    case (Some i)
    then obtain p where o1: "o1 = opStrict p i" by (cases o1) (auto simp: strict_inner_def)
    with assms have "op_ok L sch i" "strict_inner i = None"
      by (auto simp: strict_wraps_def strict_inner_def split: op.splits)
    with plain [of i] assms o1 Some show ?thesis by (simp add: unwrap_def)
  qed
qed

lemma operand_value_kind:
  "op_ok L sch o1 \<Longrightarrow> evalValue L res ev o1 = Val v \<Longrightarrow> operand_kind o1 \<noteq> KindInvalid \<Longrightarrow> Kind_of v = operand_kind o1"
  using value_kind by (auto simp: operand_kind_def split: if_splits)

text \<open>Compiled operands of known kinds that both resolve never fail by a kind mismatch.\<close>

lemma cmp_same_kind:
  assumes "op_ok L sch (opCmp p cop a b)" "evalValue L res ev a = Val v" "evalValue L res ev b = Val w"
    "operand_kind a \<noteq> KindInvalid" "operand_kind b \<noteq> KindInvalid"
  shows "Kind_of v = Kind_of w"
  using assms operand_value_kind [of L a ev v] operand_value_kind [of L b ev w]
  by (auto simp: cmp_kinds_def split: if_splits)

lemma ne_is_not_eq:
  assumes "op_ok L sch (opCmp p opCmpNe a b)" "evalValue L res ev a = Val v" "evalValue L res ev b = Val w"
    "operand_kind a \<noteq> KindInvalid" "operand_kind b \<noteq> KindInvalid"
  shows "eval L res ev (opCmp p opCmpNe a b) = map_option (\<lambda>x. \<not> x) (eval L res ev (opCmp p opCmpEq a b))"
proof -
  have "Kind_of v = Kind_of w" using assms by (rule cmp_same_kind)
  moreover have "op_ok L sch b" using assms(1) by simp
  ultimately show ?thesis using assms(2,3)
    by (auto simp: evalCmp_def on_vals_def cmp_values_def cidr_literal_def split: op.splits option.splits)
qed

end

end
