(* ===== verification/Rule_Set.thy ===== *)
theory Rule_Set
  imports Rule_Eval
begin

text \<open>
  The rule set, \<^verbatim>\<open>pkg/rule/ruleset/ruleset.go\<close>: named rules in the order they were added, each with
  the plan compiled from its source and a counter of its matches. Every method runs under the
  read-write lock of the set (\<^verbatim>\<open>Add\<close> and \<^verbatim>\<open>Replace\<close> compile before they take it, from the immutable
  compiler), so a method is one step on the record \<open>RuleSet\<close>. The counter is the value of the
  \<^verbatim>\<open>atomic.Uint64\<close> the rule points to; no two rules share one. The catalog pointer is kept by the
  source and read by no method. An error leaves the set as it was.

  The lemmas show the invariant \<open>rs_ok\<close> of all reachable sets, and that a set implements the
  abstract specification \<open>spec_match\<close>: an ordered list of names and expressions, of which the first
  one that holds gives the verdict.
\<close>

section \<open>State\<close>

datatype rs_error =
    ErrNilCatalog | ErrNilScheme | ErrNilCompiler
  | ErrBuildCompiler CompileError
  | ErrEmptyName
  | ErrParse ParseError
  | ErrNilAST
  | ErrCompile CompileError
  | ErrRuleExists
  | ErrRuleNotFound

record RuleInfo =
  ri_Name :: string
  ri_Expression :: string

record compiledRule =
  cr_name :: string
  cr_source :: string
  cr_plan :: Plan
  cr_matches :: u64

record RuleSet =
  rs_scheme :: Scheme
  rs_compiler :: Compiler
  rs_profile :: string
  rs_rules :: "compiledRule list"

section \<open>Constructors\<close>

definition New :: "Catalog option \<Rightarrow> string \<Rightarrow> rs_error + RuleSet" where
  "New catalog profile =
     (case catalog of
        None \<Rightarrow> Inl ErrNilCatalog
      | Some cat \<Rightarrow>
          let scheme = Project cat [profile, ''core'']
          in case NewCompiler (Some scheme) of
               Inl cerr \<Rightarrow> Inl (ErrBuildCompiler cerr)
             | Inr cmplr \<Rightarrow> Inr \<lparr>rs_scheme = scheme, rs_compiler = cmplr, rs_profile = profile, rs_rules = []\<rparr>)"

definition NewWithCompiler ::
  "Catalog option \<Rightarrow> Scheme option \<Rightarrow> Compiler option \<Rightarrow> string \<Rightarrow> rs_error + RuleSet" where
  "NewWithCompiler catalog scheme c profile =
     (case catalog of
        None \<Rightarrow> Inl ErrNilCatalog
      | Some _ \<Rightarrow> (case scheme of
            None \<Rightarrow> Inl ErrNilScheme
          | Some sch \<Rightarrow> (case c of
                None \<Rightarrow> Inl ErrNilCompiler
              | Some cmplr \<Rightarrow>
                  Inr \<lparr>rs_scheme = sch, rs_compiler = cmplr, rs_profile = profile, rs_rules = []\<rparr>)))"

section \<open>Methods\<close>

text \<open>\<^verbatim>\<open>Parse\<close> always returns, and never a nil tree: the case \<open>None\<close> does not occur.\<close>

definition compileExpr :: "golib \<Rightarrow> Compiler \<Rightarrow> string \<Rightarrow> rs_error + Plan" where
  "compileExpr L cmplr expression =
     (case Parse L expression of
        None \<Rightarrow> Inl ErrNilAST
      | Some (Inl err) \<Rightarrow> Inl (ErrParse err)
      | Some (Inr ast) \<Rightarrow>
          (case Compiler_Compile L cmplr (Some ast) of
             Inl err \<Rightarrow> Inl (ErrCompile err)
           | Inr plan \<Rightarrow> Inr plan))"

fun has_rule :: "string \<Rightarrow> compiledRule list \<Rightarrow> bool" where
  "has_rule name [] = False"
| "has_rule name (r # rs) = (if cr_name r = name then True else has_rule name rs)"

definition Add :: "golib \<Rightarrow> RuleSet \<Rightarrow> string \<Rightarrow> string \<Rightarrow> rs_error + RuleSet" where
  "Add L rs name expression =
     (if name = [] then Inl ErrEmptyName
      else try_then (compileExpr L (rs_compiler rs) expression) (\<lambda>plan.
        if has_rule name (rs_rules rs) then Inl ErrRuleExists
        else Inr (rs\<lparr>rs_rules := rs_rules rs @
               [\<lparr>cr_name = name, cr_source = expression, cr_plan = plan, cr_matches = 0\<rparr>]\<rparr>)))"

text \<open>The loop of \<^verbatim>\<open>Remove\<close>: the kept rules and whether one was left out.\<close>

fun remove_rules :: "string \<Rightarrow> bool \<Rightarrow> compiledRule list \<Rightarrow> compiledRule list \<Rightarrow> compiledRule list \<times> bool" where
  "remove_rules name found out [] = (out, found)"
| "remove_rules name found out (r # rs) =
     (if \<not> found \<and> cr_name r = name then remove_rules name True out rs
      else remove_rules name found (out @ [r]) rs)"

definition Remove :: "RuleSet \<Rightarrow> string \<Rightarrow> RuleSet" where
  "Remove rs name =
     (if rs_rules rs = [] then rs
      else case remove_rules name False [] (rs_rules rs) of
             (out, found) \<Rightarrow> if \<not> found then rs else rs\<lparr>rs_rules := out\<rparr>)"

fun replace_rule :: "string \<Rightarrow> string \<Rightarrow> Plan \<Rightarrow> compiledRule list \<Rightarrow> compiledRule list option" where
  "replace_rule name expression plan [] = None"
| "replace_rule name expression plan (r # rs) =
     (if cr_name r = name then Some (r\<lparr>cr_plan := plan, cr_source := expression\<rparr> # rs)
      else map_option ((#) r) (replace_rule name expression plan rs))"

definition Replace :: "golib \<Rightarrow> RuleSet \<Rightarrow> string \<Rightarrow> string \<Rightarrow> rs_error + RuleSet" where
  "Replace L rs name expression =
     (if name = [] then Inl ErrEmptyName
      else try_then (compileExpr L (rs_compiler rs) expression) (\<lambda>plan.
        case replace_rule name expression plan (rs_rules rs) of
          None \<Rightarrow> Inl ErrRuleNotFound
        | Some rules \<Rightarrow> Inr (rs\<lparr>rs_rules := rules\<rparr>)))"

text \<open>The loop of \<^verbatim>\<open>Match\<close>: the name of the rule that matched and the rules with its counter raised.\<close>

fun match_rules ::
  "golib \<Rightarrow> 'p resolver option \<Rightarrow> 'p Event option \<Rightarrow> compiledRule list \<Rightarrow> (string option \<times> compiledRule list) option"
where
  "match_rules L res ev [] = Some (None, [])"
| "match_rules L res ev (r # rs) =
     (case Plan_Eval L (Some (cr_plan r)) res ev of
        None \<Rightarrow> None
      | Some True \<Rightarrow> Some (Some (cr_name r), r\<lparr>cr_matches := cr_matches r + 1\<rparr> # rs)
      | Some False \<Rightarrow> map_option (map_prod id ((#) r)) (match_rules L res ev rs))"

definition Match ::
  "golib \<Rightarrow> RuleSet \<Rightarrow> 'p Event option \<Rightarrow> 'p resolver option \<Rightarrow> ((string \<times> bool) \<times> RuleSet) option" where
  "Match L rs event resolver =
     (case match_rules L resolver event (rs_rules rs) of
        None \<Rightarrow> None
      | Some (None, rules) \<Rightarrow> Some (([], False), rs\<lparr>rs_rules := rules\<rparr>)
      | Some (Some name, rules) \<Rightarrow> Some ((name, True), rs\<lparr>rs_rules := rules\<rparr>))"

definition Rules :: "RuleSet \<Rightarrow> RuleInfo list" where
  "Rules rs = map (\<lambda>r. \<lparr>ri_Name = cr_name r, ri_Expression = cr_source r\<rparr>) (rs_rules rs)"

definition Stats :: "RuleSet \<Rightarrow> string \<Rightarrow> u64 option" where
  "Stats rs = fold (\<lambda>r out. out(cr_name r \<mapsto> cr_matches r)) (rs_rules rs) Map.empty"

section \<open>Abstract specification\<close>

text \<open>The entries of a set: its names and expressions in order.\<close>

definition entries :: "RuleSet \<Rightarrow> (string \<times> string) list" where
  "entries rs = map (\<lambda>r. (cr_name r, cr_source r)) (rs_rules rs)"

text \<open>Whether an expression holds of an event: it compiles, and its plan evaluates to true.\<close>

definition holds :: "golib \<Rightarrow> Compiler \<Rightarrow> 'p resolver option \<Rightarrow> 'p Event option \<Rightarrow> string \<Rightarrow> bool" where
  "holds L cmplr res ev expression =
     (case compileExpr L cmplr expression of
        Inl _ \<Rightarrow> False
      | Inr plan \<Rightarrow> Plan_Eval L (Some plan) res ev = Some True)"

fun spec_match :: "(string \<Rightarrow> bool) \<Rightarrow> (string \<times> string) list \<Rightarrow> string \<times> bool" where
  "spec_match P [] = ([], False)"
| "spec_match P ((name, e) # es) = (if P e then (name, True) else spec_match P es)"

section \<open>Invariant\<close>

definition rs_ok :: "golib \<Rightarrow> RuleSet \<Rightarrow> bool" where
  "rs_ok L rs =
     (compiler_ok (rs_compiler rs) \<and> c_scheme (rs_compiler rs) = rs_scheme rs \<and>
      distinct (map cr_name (rs_rules rs)) \<and>
      list_all (\<lambda>r. cr_name r \<noteq> [] \<and> compileExpr L (rs_compiler rs) (cr_source r) = Inr (cr_plan r)) (rs_rules rs))"

text \<open>The steps of a program that uses a set.\<close>

inductive rs_step :: "golib \<Rightarrow> RuleSet \<Rightarrow> RuleSet \<Rightarrow> bool" for L :: golib where
  add: "Add L rs name e = Inr rs' \<Longrightarrow> rs_step L rs rs'"
| remove: "rs_step L rs (Remove rs name)"
| replace: "Replace L rs name e = Inr rs' \<Longrightarrow> rs_step L rs rs'"
| match: "Match L rs ev (res :: unit resolver option) = Some (r, rs') \<Longrightarrow> rs_step L rs rs'"

inductive rs_reachable :: "golib \<Rightarrow> RuleSet \<Rightarrow> bool" for L :: golib where
  new: "New cat profile = Inr rs \<Longrightarrow> rs_reachable L rs"
| step: "rs_reachable L rs \<Longrightarrow> rs_step L rs rs' \<Longrightarrow> rs_reachable L rs'"

section \<open>Lemmas\<close>

lemma has_rule_iff [simp]: "has_rule name rs \<longleftrightarrow> name \<in> cr_name ` set rs"
  by (induction rs) auto

lemma Add_Inr:
  "Add L rs name e = Inr rs' \<longleftrightarrow>
     name \<noteq> [] \<and> name \<notin> cr_name ` set (rs_rules rs) \<and>
     (\<exists>plan. compileExpr L (rs_compiler rs) e = Inr plan \<and>
       rs' = rs\<lparr>rs_rules := rs_rules rs @
               [\<lparr>cr_name = name, cr_source = e, cr_plan = plan, cr_matches = 0\<rparr>]\<rparr>)"
  by (auto simp: Add_def res_Inr)

lemma remove_rules_found: "remove_rules name True out rs = (out @ rs, True)"
  by (induction rs arbitrary: out) auto

lemma remove_rules_eq:
  "distinct (map cr_name rs) \<Longrightarrow>
   remove_rules name False out rs = (out @ filter (\<lambda>r. cr_name r \<noteq> name) rs, name \<in> cr_name ` set rs)"
proof (induction rs arbitrary: out)
  case (Cons r rs)
  have "cr_name r \<notin> cr_name ` set rs" using Cons.prems by simp
  then have "\<forall>x \<in> set rs. cr_name x \<noteq> cr_name r" by (metis imageI)
  then have "filter (\<lambda>x. cr_name x \<noteq> cr_name r) rs = rs" by (simp add: filter_id_conv)
  with Cons show ?case by (auto simp: remove_rules_found)
qed simp

lemma Remove_eq:
  assumes "distinct (map cr_name (rs_rules rs))"
  shows "Remove rs name = rs\<lparr>rs_rules := filter (\<lambda>r. cr_name r \<noteq> name) (rs_rules rs)\<rparr>"
proof (cases "name \<in> cr_name ` set (rs_rules rs)")
  case True
  then show ?thesis by (auto simp: Remove_def remove_rules_eq [OF assms])
next
  case False
  then have "filter (\<lambda>r. cr_name r \<noteq> name) (rs_rules rs) = rs_rules rs" by (auto simp: filter_id_conv)
  with False show ?thesis by (simp add: Remove_def remove_rules_eq [OF assms])
qed

lemma replace_rule_Some:
  "distinct (map cr_name rs) \<Longrightarrow> replace_rule name e plan rs = Some rs' \<Longrightarrow>
     name \<in> cr_name ` set rs \<and>
     rs' = map (\<lambda>r. if cr_name r = name then r\<lparr>cr_plan := plan, cr_source := e\<rparr> else r) rs"
proof (induction rs arbitrary: rs')
  case (Cons r rs)
  show ?case
  proof (cases "cr_name r = name")
    case True
    with Cons.prems have "\<forall>x \<in> set rs. cr_name x \<noteq> name" by (metis distinct.simps(2) imageI list.set_map list.simps(9))
    then have "map (\<lambda>r. if cr_name r = name then r\<lparr>cr_plan := plan, cr_source := e\<rparr> else r) rs = rs"
      by (simp add: map_idI)
    with True Cons.prems show ?thesis by auto
  qed (use Cons in auto)
qed simp

lemma replace_rule_None: "replace_rule name e plan rs = None \<longleftrightarrow> name \<notin> cr_name ` set rs"
  by (induction rs) auto

lemma Replace_Inr:
  assumes "distinct (map cr_name (rs_rules rs))"
  shows "Replace L rs name e = Inr rs' \<longleftrightarrow>
     name \<noteq> [] \<and> name \<in> cr_name ` set (rs_rules rs) \<and>
     (\<exists>plan. compileExpr L (rs_compiler rs) e = Inr plan \<and>
       rs' = rs\<lparr>rs_rules := map (\<lambda>r. if cr_name r = name then r\<lparr>cr_plan := plan, cr_source := e\<rparr> else r)
               (rs_rules rs)\<rparr>)"
proof -
  have "replace_rule name e plan (rs_rules rs) =
      (if name \<in> cr_name ` set (rs_rules rs)
       then Some (map (\<lambda>r. if cr_name r = name then r\<lparr>cr_plan := plan, cr_source := e\<rparr> else r) (rs_rules rs))
       else None)" for plan
    using replace_rule_Some [OF assms, of name e plan] replace_rule_None [of name e plan]
    by (cases "replace_rule name e plan (rs_rules rs)") auto
  then show ?thesis by (auto simp: Replace_def res_Inr)
qed

text \<open>A rule of a good set never panics, since its plan was compiled from a parsed tree.\<close>

lemma compileExpr_ok:
  assumes "compiler_ok C" "compileExpr L C e = Inr plan"
  obtains root where "plan = \<lparr>plan_root = Some root, plan_Rev = sch_rev (c_scheme C)\<rparr>" "op_ok L (c_scheme C) root"
proof -
  from assms(2) obtain n root where "Parse L e = Some (Inr n)" "compileNode L C n = Inr root"
    "plan = \<lparr>plan_root = Some root, plan_Rev = sch_rev (c_scheme C)\<rparr>"
    by (auto simp: compileExpr_def Compiler_Compile_def res_Inr split: option.splits sum.splits)
  with that compileNode_ok [OF assms(1)] Parse_node_ok show thesis by blast
qed

lemma compileExpr_eval_total:
  assumes "compiler_ok C" "compileExpr L C e = Inr plan"
  shows "\<exists>b. Plan_Eval L (Some plan) res ev = Some b"
proof -
  from assms obtain root where "plan = \<lparr>plan_root = Some root, plan_Rev = sch_rev (c_scheme C)\<rparr>"
    "op_ok L (c_scheme C) root" by (rule compileExpr_ok)
  then show ?thesis using eval_total by (auto simp: Plan_Eval_def split: option.split)
qed

definition rules_total :: "golib \<Rightarrow> 'p resolver option \<Rightarrow> 'p Event option \<Rightarrow> compiledRule list \<Rightarrow> bool" where
  "rules_total L res ev rules = list_all (\<lambda>r. Plan_Eval L (Some (cr_plan r)) res ev \<noteq> None) rules"

lemma rs_ok_total: "rs_ok L rs \<Longrightarrow> rules_total L res ev (rs_rules rs)"
  using compileExpr_eval_total by (fastforce simp: rs_ok_def rules_total_def list_all_iff)

definition hit :: "golib \<Rightarrow> 'p resolver option \<Rightarrow> 'p Event option \<Rightarrow> compiledRule \<Rightarrow> bool" where
  "hit L res ev r = (Plan_Eval L (Some (cr_plan r)) res ev = Some True)"

lemma match_rules_eq:
  "rules_total L res ev rules \<Longrightarrow>
   match_rules L res ev rules =
     (case dropWhile (\<lambda>r. \<not> hit L res ev r) rules of
        [] \<Rightarrow> Some (None, rules)
      | r # rest \<Rightarrow> Some (Some (cr_name r),
          takeWhile (\<lambda>r. \<not> hit L res ev r) rules @ r\<lparr>cr_matches := cr_matches r + 1\<rparr> # rest))"
proof (induction rules)
  case (Cons r rules)
  then obtain b where b: "Plan_Eval L (Some (cr_plan r)) res ev = Some b" by (auto simp: rules_total_def)
  have "rules_total L res ev rules" using Cons.prems by (simp add: rules_total_def)
  moreover have "hit L res ev r = b" using b by (simp add: hit_def)
  ultimately show ?case using Cons.IH b
    by (cases b; cases "dropWhile (\<lambda>r. \<not> hit L res ev r) rules") (simp_all del: dropWhile_eq_Nil_conv)
qed simp

lemma match_rules_names:
  "match_rules L res ev rules = Some (x, rules') \<Longrightarrow>
     map cr_name rules' = map cr_name rules \<and> map cr_source rules' = map cr_source rules \<and>
     map cr_plan rules' = map cr_plan rules"
  by (induction rules arbitrary: rules') (auto split: option.splits bool.splits)

lemma New_ok: "New cat profile = Inr rs \<Longrightarrow> rs_ok L rs"
  by (auto simp: New_def rs_ok_def Let_def dest: NewCompiler_ok split: option.splits sum.splits)

lemma Add_ok: "rs_ok L rs \<Longrightarrow> Add L rs name e = Inr rs' \<Longrightarrow> rs_ok L rs'"
  by (auto simp: rs_ok_def Add_Inr)

lemma Remove_ok: "rs_ok L rs \<Longrightarrow> rs_ok L (Remove rs name)"
  by (auto simp: rs_ok_def Remove_eq list_all_iff distinct_map_filter)

lemma Replace_ok: "rs_ok L rs \<Longrightarrow> Replace L rs name e = Inr rs' \<Longrightarrow> rs_ok L rs'"
proof -
  assume ok: "rs_ok L rs" and r: "Replace L rs name e = Inr rs'"
  have "map cr_name (map (\<lambda>r. if cr_name r = name then r\<lparr>cr_plan := plan, cr_source := e\<rparr> else r) rules) =
      map cr_name rules" for plan and rules :: "compiledRule list" by simp
  then have "distinct (map cr_name
      (map (\<lambda>r. if cr_name r = name then r\<lparr>cr_plan := plan, cr_source := e\<rparr> else r) (rs_rules rs)))" for plan
    using ok by (simp only: rs_ok_def)
  with ok r show ?thesis by (auto simp: rs_ok_def Replace_Inr list_all_iff simp del: map_map)
qed

lemma rules_plans_ok:
  "list_all (\<lambda>r. cr_name r \<noteq> [] \<and> compileExpr L C (cr_source r) = Inr (cr_plan r)) rules \<longleftrightarrow>
   list_all (\<lambda>n. n \<noteq> []) (map cr_name rules) \<and>
   map (compileExpr L C) (map cr_source rules) = map Inr (map cr_plan rules)"
  by (induction rules) auto

lemma Match_ok: "rs_ok L rs \<Longrightarrow> Match L rs ev res = Some (r, rs') \<Longrightarrow> rs_ok L rs'"
proof -
  assume ok: "rs_ok L rs" and m: "Match L rs ev res = Some (r, rs')"
  from m obtain x rules where *: "match_rules L res ev (rs_rules rs) = Some (x, rules)" "rs' = rs\<lparr>rs_rules := rules\<rparr>"
    by (auto simp: Match_def split: option.splits)
  from *(2) match_rules_names [OF *(1)] ok show ?thesis
    unfolding rs_ok_def rules_plans_ok by (simp del: list.map_comp map_map map_eq_conv list.pred_map)
qed

lemma rs_step_ok: "rs_step L rs rs' \<Longrightarrow> rs_ok L rs \<Longrightarrow> rs_ok L rs'"
  by (induction rule: rs_step.induct) (auto intro: Add_ok Remove_ok Replace_ok Match_ok)

lemma rs_reachable_ok: "rs_reachable L rs \<Longrightarrow> rs_ok L rs"
  by (induction rule: rs_reachable.induct) (auto intro: New_ok rs_step_ok)

section \<open>The rule set implements its specification\<close>

lemma entries_names: "map fst (entries rs) = map cr_name (rs_rules rs)"
  by (simp add: entries_def comp_def)

lemma entries_Add: "Add L rs name e = Inr rs' \<Longrightarrow> entries rs' = entries rs @ [(name, e)]"
  by (auto simp: Add_Inr entries_def)

lemma entries_Remove: "rs_ok L rs \<Longrightarrow> entries (Remove rs name) = filter (\<lambda>(n, e). n \<noteq> name) (entries rs)"
  by (auto simp: rs_ok_def Remove_eq entries_def filter_map comp_def)

lemma entries_Replace:
  "rs_ok L rs \<Longrightarrow> Replace L rs name e = Inr rs' \<Longrightarrow>
     entries rs' = map (\<lambda>(n, x). if n = name then (n, e) else (n, x)) (entries rs)"
  by (auto simp: rs_ok_def Replace_Inr entries_def)

lemma spec_match_eq:
  assumes "list_all (\<lambda>r. compileExpr L C (cr_source r) = Inr (cr_plan r)) rules"
  shows "spec_match (holds L C res ev) (map (\<lambda>r. (cr_name r, cr_source r)) rules) =
    (case dropWhile (\<lambda>r. \<not> hit L res ev r) rules of [] \<Rightarrow> ([], False) | r # _ \<Rightarrow> (cr_name r, True))"
  using assms
proof (induction rules)
  case (Cons r rules)
  then have "holds L C res ev (cr_source r) = hit L res ev r" by (simp add: holds_def hit_def)
  with Cons show ?case by simp
qed simp

lemma Match_refines:
  assumes "rs_ok L rs"
  shows "\<exists>rs'. Match L rs ev res = Some (spec_match (holds L (rs_compiler rs) res ev) (entries rs), rs') \<and>
    entries rs' = entries rs \<and> rs_compiler rs' = rs_compiler rs"
proof -
  have plans: "list_all (\<lambda>r. compileExpr L (rs_compiler rs) (cr_source r) = Inr (cr_plan r)) (rs_rules rs)"
    using assms by (auto simp: rs_ok_def list_all_iff)
  have tot: "rules_total L res ev (rs_rules rs)" using assms by (rule rs_ok_total)
  show ?thesis
  proof (cases "dropWhile (\<lambda>r. \<not> hit L res ev r) (rs_rules rs)")
    case Nil
    then show ?thesis
      using match_rules_eq [OF tot] spec_match_eq [OF plans, of res ev]
      by (simp add: Match_def entries_def del: dropWhile_eq_Nil_conv)
  next
    case (Cons r rest)
    have "rs_rules rs = takeWhile (\<lambda>r. \<not> hit L res ev r) (rs_rules rs) @ r # rest"
      using takeWhile_dropWhile_id [of "\<lambda>r. \<not> hit L res ev r" "rs_rules rs"] Cons by simp
    then have "entries rs = map (\<lambda>r. (cr_name r, cr_source r))
        (takeWhile (\<lambda>r. \<not> hit L res ev r) (rs_rules rs) @ r\<lparr>cr_matches := cr_matches r + 1\<rparr> # rest)"
      by (subst entries_def) (metis (no_types, lifting) compiledRule.select_convs(1,2) compiledRule.surjective
          compiledRule.update_convs(4) list.simps(9) map_append)
    with Cons show ?thesis
      using match_rules_eq [OF tot] spec_match_eq [OF plans, of res ev] entries_def [of rs]
      by (simp add: Match_def entries_def del: dropWhile_eq_Nil_conv)
  qed
qed

section \<open>Counters\<close>

lemma Stats_eq:
  assumes "distinct (map cr_name (rs_rules rs))"
  shows "Stats rs name = map_of (map (\<lambda>r. (cr_name r, cr_matches r)) (rs_rules rs)) name"
proof -
  have "fold (\<lambda>r out. out(cr_name r \<mapsto> cr_matches r)) rules m name =
      (case map_of (map (\<lambda>r. (cr_name r, cr_matches r)) rules) name of None \<Rightarrow> m name | Some c \<Rightarrow> Some c)"
    if "distinct (map cr_name rules)" for m and rules :: "compiledRule list"
    using that
  proof (induction rules arbitrary: m)
    case (Cons r rules)
    have "map_of (map (\<lambda>r. (cr_name r, cr_matches r)) rules) (cr_name r) = None"
      using Cons.prems by (auto simp: map_of_eq_None_iff image_iff comp_def)
    with Cons show ?case by (auto split: option.splits)
  qed simp
  from this [OF assms, of Map.empty] show ?thesis
    by (simp add: Stats_def split: option.splits)
qed

lemma match_rules_hit: "match_rules L res ev rules = Some (Some n, rules') \<Longrightarrow> n \<in> cr_name ` set rules"
  by (induction rules arbitrary: rules') (auto split: option.splits bool.splits)

lemma match_rules_counter:
  assumes "match_rules L res ev rules = Some (x, rules')" "distinct (map cr_name rules)"
  shows "map_of (map (\<lambda>r. (cr_name r, cr_matches r)) rules') n =
    map_option (\<lambda>c. c + (if x = Some n then 1 else 0)) (map_of (map (\<lambda>r. (cr_name r, cr_matches r)) rules) n)"
  using assms
proof (induction rules arbitrary: rules')
  case (Cons r rules)
  then obtain b where b: "Plan_Eval L (Some (cr_plan r)) res ev = Some b" by (auto split: option.splits)
  show ?case
  proof (cases b)
    case True
    with b Cons.prems show ?thesis by (auto simp: option.map_id0 id_def [symmetric])
  next
    case False
    with b Cons.prems obtain rs1 where rs1: "match_rules L res ev rules = Some (x, rs1)" "rules' = r # rs1" by auto
    have "cr_name r \<notin> cr_name ` set rules" using Cons.prems(2) by simp
    then have "x \<noteq> Some (cr_name r)" using match_rules_hit rs1(1) by blast
    with Cons.IH [OF rs1(1)] Cons.prems(2) rs1(2) show ?thesis by simp
  qed
qed simp

lemma Stats_Match:
  assumes "rs_ok L rs" "Match L rs ev res = Some (v, rs')"
  shows "Stats rs' n = map_option (\<lambda>c. c + (if v = (n, True) then 1 else 0)) (Stats rs n)"
proof -
  have d: "distinct (map cr_name (rs_rules rs))" "distinct (map cr_name (rs_rules rs'))"
    using assms(1) Match_ok [OF assms] by (simp_all add: rs_ok_def)
  from assms(2) obtain x where x: "match_rules L res ev (rs_rules rs) = Some (x, rs_rules rs')"
    "v = (case x of None \<Rightarrow> ([], False) | Some m \<Rightarrow> (m, True))"
    by (auto simp: Match_def split: option.splits)
  then have "(v = (n, True)) = (x = Some n)" by (auto split: option.splits)
  with match_rules_counter [OF x(1) d(1), of n] show ?thesis by (simp add: Stats_eq d)
qed

text \<open>A sequence of calls of \<^verbatim>\<open>Match\<close> with the verdicts it returned.\<close>

fun match_all ::
  "golib \<Rightarrow> RuleSet \<Rightarrow> 'p resolver option \<Rightarrow> 'p Event option list \<Rightarrow> ((string \<times> bool) list \<times> RuleSet) option" where
  "match_all L rs res [] = Some ([], rs)"
| "match_all L rs res (ev # evs) =
     Option.bind (Match L rs ev res) (\<lambda>(v, rs1). map_option (map_prod ((#) v) id) (match_all L rs1 res evs))"

lemma match_all_counts:
  "rs_ok L rs \<Longrightarrow> \<exists>vs rs'. match_all L rs res evs = Some (vs, rs') \<and> length vs = length evs \<and>
     Stats rs' n = map_option (\<lambda>c. c + of_nat (count_list vs (n, True))) (Stats rs n)"
proof (induction evs arbitrary: rs)
  case Nil
  then show ?case by (auto simp: option.map_id0 id_def [symmetric])
next
  case (Cons ev evs)
  from Match_refines [OF Cons.prems] obtain v rs1 where m: "Match L rs ev res = Some (v, rs1)" by blast
  from Cons.IH [OF Match_ok [OF Cons.prems m]] obtain vs rs' where
    "match_all L rs1 res evs = Some (vs, rs')" "length vs = length evs"
    "Stats rs' n = map_option (\<lambda>c. c + of_nat (count_list vs (n, True))) (Stats rs1 n)" by blast
  with m Stats_Match [OF Cons.prems m, of n] show ?case
    by (auto simp: option.map_comp comp_def ac_simps)
qed

end
