(* ===== verification/Rule_Builder.thy ===== *)
theory Rule_Builder
  imports Rule_Set
begin

text \<open>
  The builder of rule sets, \<^verbatim>\<open>pkg/rule/builder/builder.go\<close>: it collects field declarations, registers
  them in a catalog that starts with the fields of the envelope, projects a scheme and makes a
  rule set. \<open>Ruleset\<close> returns the builder too, since the source registers in the builder's own
  catalog, also when it fails. \<^verbatim>\<open>CompileRules\<close> ranges over a Go map, whose order is not specified: the
  model takes the rules in the order of the iteration.

  The locale \<open>rule_table\<close> states what the loop of \<^verbatim>\<open>CompileRules\<close> needs from \<^verbatim>\<open>Add\<close>; \<open>field_resolver\<close>
  is interpreted here on the envelope resolver and the scheme of the envelope's fields.
\<close>

section \<open>State\<close>

datatype build_error =
    EmptyNamespaceOrName
  | CatalogError SchemeError
  | CompilerError CompileError
  | RuleSetError rs_error

record fieldDecl =
  fd_namespace :: string
  fd_name :: string
  fd_typ :: FieldType

record Builder =
  b_cat :: Catalog
  b_profile :: string
  b_fields :: "fieldDecl list"
  b_extraProfiles :: "string list"
  b_firstErr :: "build_error option"

text \<open>\<^verbatim>\<open>_ = cat.Register(...)\<close>: the error is ignored.\<close>

definition register_ignore :: "Catalog \<Rightarrow> string \<Rightarrow> string \<Rightarrow> FieldType \<Rightarrow> Catalog" where
  "register_ignore c ns name typ = (case Register c ns name typ of Inl _ \<Rightarrow> c | Inr c' \<Rightarrow> c')"

definition core_catalog :: Catalog where
  "core_catalog =
     (let c1 = register_ignore NewCatalog ''core'' ''timestamp'' TypeTimestamp;
          c2 = register_ignore c1 ''core'' ''stream'' TypeString;
          c3 = register_ignore c2 ''core'' ''source'' TypeString;
          c4 = register_ignore c3 ''core'' ''source_type'' TypeString
      in register_ignore c4 ''core'' ''level'' TypeString)"

definition NewBuilder :: "string \<Rightarrow> Builder" where
  "NewBuilder profile =
     \<lparr>b_cat = core_catalog, b_profile = profile, b_fields = [], b_extraProfiles = [], b_firstErr = None\<rparr>"

definition Field :: "Builder \<Rightarrow> string \<Rightarrow> string \<Rightarrow> FieldType \<Rightarrow> Builder" where
  "Field b namespace name typ =
     (if namespace = [] \<or> name = [] then
        (if b_firstErr b = None then b\<lparr>b_firstErr := Some EmptyNamespaceOrName\<rparr> else b)
      else b\<lparr>b_fields := b_fields b @ [\<lparr>fd_namespace = namespace, fd_name = name, fd_typ = typ\<rparr>]\<rparr>)"

definition Profiles :: "Builder \<Rightarrow> string list \<Rightarrow> Builder" where
  "Profiles b namespaces = b\<lparr>b_extraProfiles := b_extraProfiles b @ namespaces\<rparr>"

text \<open>The loop that registers the declared fields: the catalog so far and the first error.\<close>

fun register_fields :: "Catalog \<Rightarrow> fieldDecl list \<Rightarrow> Catalog \<times> SchemeError option" where
  "register_fields c [] = (c, None)"
| "register_fields c (f # fs) =
     (case Register c (fd_namespace f) (fd_name f) (fd_typ f) of
        Inl err \<Rightarrow> (c, Some err)
      | Inr c' \<Rightarrow> register_fields c' fs)"

definition register_profiles :: "Catalog \<Rightarrow> string list \<Rightarrow> Catalog" where
  "register_profiles c nss = fold (\<lambda>ns c. register_ignore c ns ''_'' TypeString) nss c"

definition Ruleset :: "Builder \<Rightarrow> (build_error + RuleSet) \<times> Builder" where
  "Ruleset b =
     (case b_firstErr b of
        Some err \<Rightarrow> (Inl err, b)
      | None \<Rightarrow>
          (case register_fields (b_cat b) (b_fields b) of
             (c1, Some err) \<Rightarrow> (Inl (CatalogError err), b\<lparr>b_cat := c1\<rparr>)
           | (c1, None) \<Rightarrow>
               let c2 = register_profiles c1 (b_extraProfiles b);
                   b2 = b\<lparr>b_cat := c2\<rparr>;
                   nsArgs = [b_profile b, ''core''] @ b_extraProfiles b;
                   scheme = Project c2 nsArgs
               in (case NewCompiler (Some scheme) of
                    Inl cerr \<Rightarrow> (Inl (CompilerError cerr), b2)
                  | Inr cmplr \<Rightarrow>
                      (case NewWithCompiler (Some c2) (Some scheme) (Some cmplr) (b_profile b) of
                         Inl err \<Rightarrow> (Inl (RuleSetError err), b2)
                       | Inr rs \<Rightarrow> (Inr rs, b2)))))"

text \<open>The loop of \<^verbatim>\<open>CompileRules\<close>, over any table of rules: it stops at the first error.\<close>

fun add_all :: "('s \<Rightarrow> string \<Rightarrow> string \<Rightarrow> 'e + 's) \<Rightarrow> 's \<Rightarrow> (string \<times> string) list \<Rightarrow> 's \<times> 'e option" where
  "add_all add s [] = (s, None)"
| "add_all add s ((name, e) # rules) =
     (case add s name e of
        Inl err \<Rightarrow> (s, Some err)
      | Inr s' \<Rightarrow> add_all add s' rules)"

definition CompileRules ::
  "golib \<Rightarrow> Builder \<Rightarrow> (string \<times> string) list \<Rightarrow> (RuleSet option \<times> build_error option) \<times> Builder" where
  "CompileRules L b rules =
     (case Ruleset b of
        (Inl err, b2) \<Rightarrow> ((None, Some err), b2)
      | (Inr rs, b2) \<Rightarrow>
          (case add_all (Add L) rs rules of
             (rs', err) \<Rightarrow> ((Some rs', map_option RuleSetError err), b2)))"

definition Err :: "Builder \<Rightarrow> build_error option" where
  "Err b = b_firstErr b"

section \<open>Adding a batch of rules\<close>

locale rule_table =
  fixes add :: "'s \<Rightarrow> string \<Rightarrow> string \<Rightarrow> 'e + 's"
    and ents :: "'s \<Rightarrow> (string \<times> string) list"
    and accepts :: "'s \<Rightarrow> string \<Rightarrow> bool"
    and good :: "'s \<Rightarrow> bool"
  assumes add_ents: "good s \<Longrightarrow> add s n e = Inr s' \<Longrightarrow> ents s' = ents s @ [(n, e)]"
    and add_good: "good s \<Longrightarrow> add s n e = Inr s' \<Longrightarrow> good s'"
    and add_accepts: "good s \<Longrightarrow> add s n e = Inr s' \<Longrightarrow> accepts s' = accepts s"
    and add_iff: "good s \<Longrightarrow> (\<exists>s'. add s n e = Inr s') \<longleftrightarrow> n \<noteq> [] \<and> n \<notin> fst ` set (ents s) \<and> accepts s e"
begin

text \<open>A batch is accepted exactly when every rule would be; the table then holds it, in order.\<close>

lemma add_all_ok:
  assumes "good s" "distinct (map fst (ents s @ rules))" "list_all (\<lambda>(n, e). n \<noteq> [] \<and> accepts s e) rules"
  shows "\<exists>s'. add_all add s rules = (s', None) \<and> good s' \<and> ents s' = ents s @ rules"
  using assms
proof (induction rules arbitrary: s)
  case (Cons r rules)
  obtain n e where r: "r = (n, e)" by (cases r)
  with Cons.prems have "n \<noteq> []" "n \<notin> fst ` set (ents s)" "accepts s e" by auto
  with add_iff [OF Cons.prems(1)] obtain s1 where s1: "add s n e = Inr s1" by blast
  note g = add_ents [OF Cons.prems(1) s1] add_good [OF Cons.prems(1) s1] add_accepts [OF Cons.prems(1) s1]
  have "\<exists>s'. add_all add s1 rules = (s', None) \<and> good s' \<and> ents s' = ents s1 @ rules"
    using Cons.prems r g by (intro Cons.IH) auto
  with s1 r g show ?case by simp
qed simp

text \<open>In every case the table holds the rules before the first that was refused.\<close>

lemma add_all_prefix:
  assumes "good s" "add_all add s rules = (s', err)"
  shows "\<exists>k \<le> length rules. good s' \<and> ents s' = ents s @ take k rules \<and> (err = None \<longleftrightarrow> k = length rules)"
  using assms
proof (induction rules arbitrary: s)
  case Nil
  then show ?case by simp
next
  case (Cons r rules)
  obtain n e where r: "r = (n, e)" by (cases r)
  show ?case
  proof (cases "add s n e")
    case (Inl x)
    with Cons.prems r show ?thesis by (intro exI [of _ 0]) auto
  next
    case (Inr s1)
    note g = add_ents [OF Cons.prems(1) Inr] add_good [OF Cons.prems(1) Inr]
    from Inr r Cons.prems(2) have "add_all add s1 rules = (s', err)" by simp
    from Cons.IH [OF g(2) this] obtain k where "k \<le> length rules" "good s'" "ents s' = ents s1 @ take k rules"
      "(err = None) = (k = length rules)" by blast
    with g r show ?thesis by (intro exI [of _ "Suc k"]) auto
  qed
qed

end

definition compiles :: "golib \<Rightarrow> RuleSet \<Rightarrow> string \<Rightarrow> bool" where
  "compiles L rs e = (case compileExpr L (rs_compiler rs) e of Inl _ \<Rightarrow> False | Inr _ \<Rightarrow> True)"

interpretation rules: rule_table "Add L" entries "compiles L" "rs_ok L" for L
proof
  fix s n e s' assume ok: "rs_ok L s"
  show "Add L s n e = Inr s' \<Longrightarrow> entries s' = entries s @ [(n, e)]" by (rule entries_Add)
  show "Add L s n e = Inr s' \<Longrightarrow> rs_ok L s'" using ok by (rule Add_ok)
  show "Add L s n e = Inr s' \<Longrightarrow> compiles L s' = compiles L s" by (auto simp: Add_Inr compiles_def)
  have "fst ` set (entries s) = cr_name ` set (rs_rules s)"
    using arg_cong [OF entries_names [of s], of set] by simp
  then show "(\<exists>s'. Add L s n e = Inr s') = (n \<noteq> [] \<and> n \<notin> fst ` set (entries s) \<and> compiles L s e)"
    by (auto simp: Add_Inr compiles_def split: sum.splits)
qed

section \<open>Envelope fields\<close>

lemma core_catalog_reachable: "catalog_reachable core_catalog"
proof -
  have "catalog_reachable (register_ignore c ns n t)" if "catalog_reachable c" for c ns n t
    using that by (auto simp: register_ignore_def intro: catalog_reachable.intros split: sum.splits)
  then show ?thesis by (simp add: core_catalog_def Let_def catalog_reachable.new)
qed

lemma core_catalog_fields: "map snd (cat_fields core_catalog) =
    [\<lparr>Namespace = ''core'', Name = ''level'', Type = TypeString\<rparr>,
     \<lparr>Namespace = ''core'', Name = ''source_type'', Type = TypeString\<rparr>,
     \<lparr>Namespace = ''core'', Name = ''source'', Type = TypeString\<rparr>,
     \<lparr>Namespace = ''core'', Name = ''stream'', Type = TypeString\<rparr>,
     \<lparr>Namespace = ''core'', Name = ''timestamp'', Type = TypeTimestamp\<rparr>]"
  by code_simp

lemma core_scheme_fields:
  "f \<in> set (sch_fields (Project core_catalog nss)) \<Longrightarrow> f \<in> set (map snd (cat_fields core_catalog))"
  by (auto simp: Project_eq in_namespaces_def)

interpretation envelope: field_resolver "Project core_catalog nss" EnvelopeResolver for nss
proof
  fix f ev v assume f: "f \<in> set (sch_fields (Project core_catalog nss))" and r: "EnvelopeResolver (FullName f) ev = Some v"
  from core_scheme_fields [OF f] r show "Kind_of v = kindFromFieldType (Type f)"
    unfolding core_catalog_fields
    by (cases ev)
       (auto simp: EnvelopeResolver_def CutPrefix_def HasPrefix_def corePrefix_def FullName_def resolveCore_def
         kindFromFieldType_def FieldType_defs go_simps)
qed

lemma Ruleset_ok:
  assumes "Ruleset b = (Inr rs, b2)"
  shows "rs_ok L rs \<and> entries rs = []"
  using assms NewCompiler_ok
  by (fastforce simp: Ruleset_def Let_def NewWithCompiler_def rs_ok_def entries_def
      split: option.splits sum.splits prod.splits)

end
