(* ===== verification/Dedup_Window.thy ===== *)
theory Dedup_Window
  imports Go_Prelude "HOL-Library.AList"
begin

text \<open>
  The deduplication window, \<^verbatim>\<open>pkg/dedup/window.go\<close>: a map from keys to the instant they expire. The
  receiver may be nil (\<open>None\<close>), the map is created at the first \<^verbatim>\<open>Mark\<close> (\<open>None\<close> before), and the clock
  \<^verbatim>\<open>nowFn\<close> is an argument of the methods that read it. Every method runs under the mutex, except
  \<^verbatim>\<open>IsDuplicate\<close>, which takes it twice; it is modelled as the two calls in sequence.

  The lemmas show that the window implements the specification \<open>marked\<close>: as long as the clock does not
  run backwards, a key is in the window exactly when its last mark is younger than the time to live,
  although expired entries are only removed by later marks; and that \<^verbatim>\<open>MarkBatch\<close> is repeated \<^verbatim>\<open>Mark\<close>.
\<close>

section \<open>The window\<close>

record Window =
  w_ttl :: i64
  w_entries :: "(string \<times> gotime) list option"

definition NewWindow :: "i64 \<Rightarrow> Window" where
  "NewWindow ttl = \<lparr>w_ttl = (if sint ttl < 0 then 0 else ttl), w_entries = None\<rparr>"

definition Window_Contains :: "Window option \<Rightarrow> gotime \<Rightarrow> string \<Rightarrow> bool" where
  "Window_Contains w now key =
     (case w of
        None \<Rightarrow> False
      | Some w \<Rightarrow>
          if w_ttl w = 0 then False
          else case w_entries w of
                 None \<Rightarrow> False
               | Some es \<Rightarrow> (case map_of es key of
                     None \<Rightarrow> False
                   | Some existing \<Rightarrow> time_After existing now))"

text \<open>The cleanup: the expired keys are collected, then deleted.\<close>

definition cleanup :: "gotime \<Rightarrow> (string \<times> gotime) list \<Rightarrow> (string \<times> gotime) list" where
  "cleanup now es =
     (let expired = map fst (filter (\<lambda>(k, t). \<not> time_After t now) es)
      in fold AList.delete expired es)"

definition Window_Mark :: "Window option \<Rightarrow> gotime \<Rightarrow> string \<Rightarrow> Window option" where
  "Window_Mark w now key =
     (case w of
        None \<Rightarrow> None
      | Some w \<Rightarrow>
          if w_ttl w = 0 then Some w
          else let es = (case w_entries w of None \<Rightarrow> [] | Some es \<Rightarrow> es)
               in Some (w\<lparr>w_entries := Some (cleanup now (AList.update key (time_Add now (w_ttl w)) es))\<rparr>))"

definition IsDuplicate :: "Window option \<Rightarrow> gotime \<Rightarrow> gotime \<Rightarrow> string \<Rightarrow> bool \<times> Window option" where
  "IsDuplicate w now1 now2 key =
     (if Window_Contains w now1 key then (True, w) else (False, Window_Mark w now2 key))"

definition Size :: "Window option \<Rightarrow> nat" where
  "Size w =
     (case w of
        None \<Rightarrow> 0
      | Some w \<Rightarrow> if w_ttl w = 0 then 0 else (case w_entries w of None \<Rightarrow> 0 | Some es \<Rightarrow> length es))"

definition MarkBatch :: "Window option \<Rightarrow> gotime \<Rightarrow> string list \<Rightarrow> Window option" where
  "MarkBatch w now ks =
     (case w of
        None \<Rightarrow> None
      | Some w \<Rightarrow>
          if w_ttl w = 0 then Some w
          else if ks = [] then Some w
          else let es = (case w_entries w of None \<Rightarrow> [] | Some es \<Rightarrow> es);
                   deadline = time_Add now (w_ttl w)
               in Some (w\<lparr>w_entries := Some (cleanup now (fold (\<lambda>k. AList.update k deadline) ks es))\<rparr>))"

section \<open>Specification\<close>

text \<open>The last instant at which a key was marked, in a history with the newest mark first.\<close>

definition marked :: "i64 \<Rightarrow> (string \<times> gotime) list \<Rightarrow> gotime \<Rightarrow> string \<Rightarrow> bool" where
  "marked ttl hist now key =
     (case map_of hist key of
        None \<Rightarrow> False
      | Some t \<Rightarrow> 0 < sint ttl \<and> t_ns now < t_ns t + sint ttl)"

definition run_marks :: "i64 \<Rightarrow> (string \<times> gotime) list \<Rightarrow> Window option" where
  "run_marks ttl hist = foldr (\<lambda>(k, t) w. Window_Mark w t k) hist (Some (NewWindow ttl))"

text \<open>The clock does not run backwards.\<close>

fun clock_ok :: "gotime \<Rightarrow> (string \<times> gotime) list \<Rightarrow> bool" where
  "clock_ok now [] = True"
| "clock_ok now ((k, t) # hist) = (t_ns t \<le> t_ns now \<and> clock_ok t hist)"

section \<open>Lemmas\<close>

lemma run_marks_Cons: "run_marks ttl ((k, t) # hist) = Window_Mark (run_marks ttl hist) t k"
  by (simp add: run_marks_def)

lemma sint_pos: "0 \<le> sint (w :: i64) \<Longrightarrow> w \<noteq> 0 \<Longrightarrow> 0 < sint w"
  by (metis order.order_iff_strict signed_0 signed_word_eqI)

lemma map_of_fold_delete: "map_of (fold AList.delete ks es) k = (if k \<in> set ks then None else map_of es k)"
  by (induction ks arbitrary: es) (auto simp: AList.delete_conv')

lemma distinct_fold_delete: "distinct (map fst es) \<Longrightarrow> distinct (map fst (fold AList.delete ks es))"
  by (induction ks arbitrary: es) (auto simp: AList.distinct_delete)

lemma distinct_fold_update: "distinct (map fst es) \<Longrightarrow> distinct (map fst (fold (\<lambda>k. AList.update k v) ks es))"
  by (induction ks arbitrary: es) (auto simp: AList.distinct_update)

lemma map_of_fold_update: "map_of (fold (\<lambda>k. AList.update k v) ks es) k = (if k \<in> set ks then Some v else map_of es k)"
  by (induction ks arbitrary: es) (auto simp: AList.update_conv')

lemma map_of_cleanup:
  assumes "distinct (map fst es)"
  shows "map_of (cleanup now es) k =
    (case map_of es k of None \<Rightarrow> None | Some t \<Rightarrow> if time_After t now then Some t else None)"
proof (cases "map_of es k")
  case None
  then show ?thesis by (simp add: cleanup_def map_of_fold_delete)
next
  case (Some t)
  have "k \<in> fst ` {x \<in> set es. \<not> time_After (snd x) now} \<longleftrightarrow> \<not> time_After t now"
  proof
    assume "k \<in> fst ` {x \<in> set es. \<not> time_After (snd x) now}"
    then obtain u where "(k, u) \<in> set es" "\<not> time_After u now" by auto
    with Some assms show "\<not> time_After t now" by (metis map_of_eq_Some_iff option.inject)
  next
    assume "\<not> time_After t now"
    with map_of_SomeD [OF Some] show "k \<in> fst ` {x \<in> set es. \<not> time_After (snd x) now}" by force
  qed
  with Some show ?thesis by (simp add: cleanup_def map_of_fold_delete case_prod_unfold)
qed

lemma distinct_cleanup: "distinct (map fst es) \<Longrightarrow> distinct (map fst (cleanup now es))"
  by (simp add: cleanup_def distinct_fold_delete)

definition window_ok :: "Window \<Rightarrow> bool" where
  "window_ok w = (0 \<le> sint (w_ttl w) \<and> (case w_entries w of None \<Rightarrow> True | Some es \<Rightarrow> distinct (map fst es)))"

text \<open>What the map holds for a key.\<close>

definition deadline_of :: "Window \<Rightarrow> string \<Rightarrow> gotime option" where
  "deadline_of w k = (case w_entries w of None \<Rightarrow> None | Some es \<Rightarrow> map_of es k)"

lemma NewWindow_ok: "window_ok (NewWindow ttl)"
  by (simp add: NewWindow_def window_ok_def)

lemma Mark_ok: "window_ok w \<Longrightarrow> Window_Mark (Some w) now k = Some w' \<Longrightarrow> window_ok w' \<and> w_ttl w' = w_ttl w"
  by (auto simp: Window_Mark_def window_ok_def Let_def distinct_cleanup AList.distinct_update split: if_splits option.splits)

lemma Mark_total: "\<exists>w'. Window_Mark (Some w) now k = Some w'"
  by (auto simp: Window_Mark_def Let_def)

lemma deadline_Mark:
  assumes "window_ok w" "w_ttl w \<noteq> 0" "Window_Mark (Some w) now k = Some w'"
  shows "deadline_of w' k' =
    (if k' = k then Some (time_Add now (w_ttl w))
     else case deadline_of w k' of None \<Rightarrow> None | Some t \<Rightarrow> if time_After t now then Some t else None)"
proof -
  have pos: "0 < sint (w_ttl w)"
    using assms(1,2) by (simp add: window_ok_def sint_pos)
  have "distinct (map fst (AList.update k (time_Add now (w_ttl w)) (case w_entries w of None \<Rightarrow> [] | Some es \<Rightarrow> es)))"
    using assms(1) by (auto simp: window_ok_def AList.distinct_update split: option.splits)
  with assms pos show ?thesis
    by (auto simp: Window_Mark_def Let_def deadline_of_def map_of_cleanup AList.update_conv' time_After_def time_Add_def
        split: option.splits)
qed

lemma Contains_iff:
  "Window_Contains (Some w) now k \<longleftrightarrow>
     w_ttl w \<noteq> 0 \<and> (case deadline_of w k of None \<Rightarrow> False | Some t \<Rightarrow> time_After t now)"
  by (auto simp: Window_Contains_def deadline_of_def split: option.splits)

text \<open>
  The map of a run: a key's deadline is that of its last mark; it may be gone once it has expired
  before the last mark of the run.
\<close>

lemma run_marks_deadline:
  assumes "0 < sint ttl" "clock_ok now hist"
  shows "\<exists>w. run_marks ttl hist = Some w \<and> window_ok w \<and> w_ttl w = ttl \<and>
    (\<forall>k. case map_of hist k of
           None \<Rightarrow> deadline_of w k = None
         | Some t \<Rightarrow> deadline_of w k = Some (time_Add t ttl) \<or>
             deadline_of w k = None \<and> t_ns t + sint ttl \<le> t_ns now)"
  using assms(2)
proof (induction hist arbitrary: now)
  case Nil
  then show ?case using assms(1) NewWindow_ok [of ttl]
    by (simp add: run_marks_def deadline_of_def NewWindow_def)
next
  case (Cons kt hist)
  obtain k t where kt: "kt = (k, t)" by (cases kt)
  with Cons.prems have t: "t_ns t \<le> t_ns now" and c: "clock_ok t hist" by auto
  from Cons.IH [OF c] obtain w where w: "run_marks ttl hist = Some w" "window_ok w" "w_ttl w = ttl"
    "\<And>k. case map_of hist k of None \<Rightarrow> deadline_of w k = None
       | Some s \<Rightarrow> deadline_of w k = Some (time_Add s ttl) \<or> deadline_of w k = None \<and> t_ns s + sint ttl \<le> t_ns t"
    by blast
  obtain w' where w': "Window_Mark (Some w) t k = Some w'" using Mark_total by blast
  have nz: "w_ttl w \<noteq> 0" using w(3) assms(1) by auto
  have run: "run_marks ttl (kt # hist) = Some w'" using w(1) w' kt by (simp add: run_marks_def)
  have "case map_of (kt # hist) k' of None \<Rightarrow> deadline_of w' k' = None
       | Some s \<Rightarrow> deadline_of w' k' = Some (time_Add s ttl) \<or> deadline_of w' k' = None \<and> t_ns s + sint ttl \<le> t_ns now" for k'
    using w(4) [of k'] deadline_Mark [OF w(2) nz w', of k'] t w(3) kt
    by (auto simp: time_After_def time_Add_def split: option.splits if_splits)
  with run Mark_ok [OF w(2) w'] w(3) show ?case by auto
qed

lemma Contains_run_marks:
  assumes "clock_ok now hist"
  shows "Window_Contains (run_marks ttl hist) now k = marked ttl hist now k"
proof (cases "0 < sint ttl")
  case True
  from run_marks_deadline [OF True assms] obtain w where w: "run_marks ttl hist = Some w" "w_ttl w = ttl"
    "case map_of hist k of None \<Rightarrow> deadline_of w k = None
       | Some t \<Rightarrow> deadline_of w k = Some (time_Add t ttl) \<or> deadline_of w k = None \<and> t_ns t + sint ttl \<le> t_ns now"
    by blast
  with True show ?thesis
    by (auto simp: Contains_iff marked_def time_After_def time_Add_def split: option.splits)
next
  case False
  have z: "w_ttl (NewWindow ttl) = 0"
    using False sint_pos [of ttl] by (cases "sint ttl < 0") (auto simp: NewWindow_def)
  have "run_marks ttl hist = Some (NewWindow ttl)"
    using z by (induction hist) (auto simp: run_marks_def Window_Mark_def)
  with False z show ?thesis by (simp add: marked_def Window_Contains_def split: option.split)
qed

section \<open>Batches\<close>

lemma deadline_MarkBatch:
  assumes "window_ok w" "w_ttl w \<noteq> 0" "ks \<noteq> []" "MarkBatch (Some w) now ks = Some w'"
  shows "deadline_of w' k =
    (if k \<in> set ks then Some (time_Add now (w_ttl w))
     else case deadline_of w k of None \<Rightarrow> None | Some t \<Rightarrow> if time_After t now then Some t else None)"
proof -
  have pos: "0 < sint (w_ttl w)"
    using assms(1,2) by (simp add: window_ok_def sint_pos)
  have "distinct (map fst (fold (\<lambda>k. AList.update k (time_Add now (w_ttl w))) ks
      (case w_entries w of None \<Rightarrow> [] | Some es \<Rightarrow> es)))"
    using assms(1) by (auto simp: window_ok_def distinct_fold_update split: option.splits)
  with assms pos show ?thesis
    by (auto simp: MarkBatch_def Let_def deadline_of_def map_of_cleanup map_of_fold_update time_After_def time_Add_def
        split: option.splits)
qed

lemma fold_Mark_deadline:
  assumes "window_ok w" "w_ttl w \<noteq> 0" "ks \<noteq> []"
  shows "\<exists>w'. fold (\<lambda>k w. Window_Mark w now k) ks (Some w) = Some w' \<and>
    (\<forall>k. deadline_of w' k =
      (if k \<in> set ks then Some (time_Add now (w_ttl w))
       else case deadline_of w k of None \<Rightarrow> None | Some t \<Rightarrow> if time_After t now then Some t else None))"
  using assms
proof (induction ks arbitrary: w)
  case (Cons x ks)
  have pos: "0 < sint (w_ttl w)"
    using Cons.prems(1,2) by (simp add: window_ok_def sint_pos)
  obtain w1 where w1: "Window_Mark (Some w) now x = Some w1" using Mark_total by blast
  note d1 = deadline_Mark [OF Cons.prems(1,2) w1]
  have ok1: "window_ok w1" "w_ttl w1 = w_ttl w" using Mark_ok [OF Cons.prems(1) w1] by auto
  show ?case
  proof (cases "ks = []")
    case True
    with w1 d1 show ?thesis by auto
  next
    case False
    from Cons.IH [OF ok1(1) _ False] ok1(2) Cons.prems(2) obtain w' where
      "fold (\<lambda>k w. Window_Mark w now k) ks (Some w1) = Some w'"
      "\<And>k. deadline_of w' k = (if k \<in> set ks then Some (time_Add now (w_ttl w))
         else case deadline_of w1 k of None \<Rightarrow> None | Some t \<Rightarrow> if time_After t now then Some t else None)"
      by auto
    with w1 d1 pos show ?thesis
      by (auto simp: time_After_def time_Add_def split: option.splits)
  qed
qed simp

lemma Contains_deadline_cong:
  "w_ttl w = w_ttl w' \<Longrightarrow> deadline_of w k = deadline_of w' k \<Longrightarrow>
   Window_Contains (Some w) now k = Window_Contains (Some w') now k"
  by (simp add: Contains_iff)

lemma fold_Mark_ttl:
  "window_ok w \<Longrightarrow> fold (\<lambda>k w. Window_Mark w now k) ks (Some w) = Some w' \<Longrightarrow> w_ttl w' = w_ttl w"
proof (induction ks arbitrary: w)
  case (Cons x ks)
  obtain w1 where w1: "Window_Mark (Some w) now x = Some w1" using Mark_total by blast
  with Cons.prems Cons.IH [of w1] Mark_ok [OF Cons.prems(1) w1] show ?case by simp
qed simp

lemma fold_Mark_disabled: "w_ttl w = 0 \<Longrightarrow> fold (\<lambda>k w. Window_Mark w now k) ks (Some w) = Some w"
  by (induction ks) (simp_all add: Window_Mark_def)

lemma MarkBatch_ttl: "MarkBatch (Some w) now ks = Some w' \<Longrightarrow> w_ttl w' = w_ttl w"
  by (auto simp: MarkBatch_def Let_def split: if_splits)

section \<open>Properties\<close>

text \<open>
  C35: the window implements its specification. After any history of marks under a clock that does
  not run backwards, \<^verbatim>\<open>Contains\<close> holds of a key exactly when its last mark is younger than the time to
  live, and \<^verbatim>\<open>IsDuplicate\<close> answers the same and adds a mark exactly when the answer is no; a time to
  live that is not positive disables the window.
\<close>

theorem window_implements_last_mark:
  assumes "clock_ok now hist"
  shows "Window_Contains (run_marks ttl hist) now k = marked ttl hist now k \<and>
    IsDuplicate (run_marks ttl hist) now now' k =
      (if marked ttl hist now k then (True, run_marks ttl hist) else (False, run_marks ttl ((k, now') # hist)))"
  using Contains_run_marks [OF assms, of ttl k]
  by (simp add: IsDuplicate_def run_marks_Cons)

theorem window_implements_last_mark_witness:
  "Window_Contains (run_marks 10 [(''b'', \<lparr>t_ns = 5, t_off = 0\<rparr>), (''a'', \<lparr>t_ns = 0, t_off = 0\<rparr>)]) \<lparr>t_ns = 9, t_off = 0\<rparr> ''a'' =
     marked 10 [(''b'', \<lparr>t_ns = 5, t_off = 0\<rparr>), (''a'', \<lparr>t_ns = 0, t_off = 0\<rparr>)] \<lparr>t_ns = 9, t_off = 0\<rparr> ''a''"
  by (rule conjunct1 [OF window_implements_last_mark]) simp

text \<open>
  \<^verbatim>\<open>MarkBatch\<close> is repeated \<^verbatim>\<open>Mark\<close>: with one reading of the clock, the window after the batch
  contains the same keys at every later instant as after marking them one by one.
\<close>

theorem mark_batch_is_repeated_mark:
  assumes "window_ok w"
  shows "Window_Contains (MarkBatch (Some w) now ks) t k =
    Window_Contains (fold (\<lambda>k w. Window_Mark w now k) ks (Some w)) t k"
proof (cases "w_ttl w = 0 \<or> ks = []")
  case True
  then show ?thesis by (auto simp: MarkBatch_def fold_Mark_disabled)
next
  case False
  then have F: "w_ttl w \<noteq> 0" "ks \<noteq> []" by auto
  from fold_Mark_deadline [OF assms F, of now] obtain w1 where
    w1: "fold (\<lambda>k w. Window_Mark w now k) ks (Some w) = Some w1"
    "deadline_of w1 k = (if k \<in> set ks then Some (time_Add now (w_ttl w))
       else case deadline_of w k of None \<Rightarrow> None | Some t \<Rightarrow> if time_After t now then Some t else None)"
    by blast
  obtain w2 where w2: "MarkBatch (Some w) now ks = Some w2" using F by (simp add: MarkBatch_def Let_def)
  show ?thesis
    using deadline_MarkBatch [OF assms F w2, of k] w1 w2 MarkBatch_ttl [OF w2] fold_Mark_ttl [OF assms w1(1)]
    by (simp add: Contains_deadline_cong)
qed

theorem mark_batch_is_repeated_mark_witness:
  "Window_Contains (MarkBatch (Some (NewWindow 10)) \<lparr>t_ns = 0, t_off = 0\<rparr> [''a'', ''b'', ''a'']) \<lparr>t_ns = 3, t_off = 0\<rparr> ''a'' =
   Window_Contains (fold (\<lambda>k w. Window_Mark w \<lparr>t_ns = 0, t_off = 0\<rparr> k) [''a'', ''b'', ''a''] (Some (NewWindow 10)))
     \<lparr>t_ns = 3, t_off = 0\<rparr> ''a''"
  by (rule mark_batch_is_repeated_mark) (rule NewWindow_ok)

end
