(* ===== verification/Queue_Spec.thy ===== *)
theory Queue_Spec
  imports Go_Prelude
begin

text \<open>
  The contract of the event queues, \<^verbatim>\<open>pkg/executor/queue/queue.go\<close> and \<^verbatim>\<open>config.go\<close>: the errors, the
  configuration, Go's \<^verbatim>\<open>select\<close>, and the interface \<^verbatim>\<open>Queue\<close> as the locale \<open>fifo_queue\<close>.

  A context is given by its error: \<open>None\<close> while it is not done, \<open>Some e\<close> once \<^verbatim>\<open>ctx.Done()\<close> is closed. A
  method that selects over channels may go on in several ways; it is the list of its possible
  outcomes, and the empty list when it blocks. The lemmas of the locale hold for every outcome, so
  for every scheduler.
\<close>

section \<open>Errors and configuration\<close>

datatype queue_error =
    ErrQueueFull
  | ErrQueueClosed
  | CtxErr string
  | ErrQueueCorrupted
  | ErrBucketNotFound
  | StoreErr string
  | BrpopErr string

type_synonym ctx = "string option"

text \<open>\<^verbatim>\<open>QueueType\<close> is a string type; any string may come out of the configuration file.\<close>

abbreviation QueueTypeMemory :: string where "QueueTypeMemory \<equiv> ''memory''"
abbreviation QueueTypeBbolt :: string where "QueueTypeBbolt \<equiv> ''bbolt''"
abbreviation QueueTypeRedis :: string where "QueueTypeRedis \<equiv> ''redis''"

record QueueConfig =
  qc_Type :: string
  qc_Path :: string
  qc_Bucket :: string
  qc_URL :: string
  qc_Key :: string

text \<open>The panics of the two accessors are the result \<open>None\<close>.\<close>

definition EffectiveBucket :: "QueueConfig \<Rightarrow> string option" where
  "EffectiveBucket c = (if qc_Bucket c = [] then None else Some (qc_Bucket c))"

definition EffectiveKey :: "QueueConfig \<Rightarrow> string \<Rightarrow> string option" where
  "EffectiveKey c name = (if qc_Key c = [] then None else Some (qc_Key c))"

record ExecutorSourceRef =
  esr_Name :: string
  esr_Queue :: "QueueConfig option"

section \<open>Select\<close>

text \<open>
  A \<^verbatim>\<open>select\<close> goes on with any of its ready cases. With a \<^verbatim>\<open>default\<close>, that one is taken when none is
  ready; without, the goroutine blocks.
\<close>

definition ready_if :: "bool \<Rightarrow> 'a \<Rightarrow> 'a list" where
  "ready_if b x = (if b then [x] else [])"

definition ready_done :: "ctx \<Rightarrow> (string \<Rightarrow> 'a) \<Rightarrow> 'a list" where
  "ready_done c f = (case c of None \<Rightarrow> [] | Some e \<Rightarrow> [f e])"

definition select_default :: "'a list \<Rightarrow> 'a list \<Rightarrow> 'a list" where
  "select_default ready dflt = (if ready = [] then dflt else ready)"

lemma in_ready_if [go_simps]: "y \<in> set (ready_if b x) \<longleftrightarrow> b \<and> y = x"
  by (cases b) (simp_all add: ready_if_def)

lemma in_ready_done [go_simps]: "y \<in> set (ready_done c f) \<longleftrightarrow> (\<exists>e. c = Some e \<and> y = f e)"
  by (auto simp: ready_done_def split: option.splits)

lemma in_select_default [go_simps]:
  "y \<in> set (select_default r d) \<longleftrightarrow> y \<in> set r \<or> r = [] \<and> y \<in> set d"
  by (simp add: select_default_def)

lemma select_default_blocks [go_simps]: "select_default r d = [] \<longleftrightarrow> r = [] \<and> d = []"
  by (simp add: select_default_def)

lemma ready_if_Nil [go_simps]: "ready_if b x = [] \<longleftrightarrow> \<not> b"
  by (simp add: ready_if_def)

lemma ready_done_Nil [go_simps]: "ready_done c f = [] \<longleftrightarrow> c = None"
  by (simp add: ready_done_def split: option.split)

section \<open>Histories\<close>

text \<open>
  A history of a queue: the payloads that a \<^verbatim>\<open>Push\<close> accepted and those a \<^verbatim>\<open>Pop\<close> returned, in the order of
  the calls; calls that fail are \<open>Refused\<close>, and \<open>Closing\<close> is \<^verbatim>\<open>Close\<close>. The predicate \<open>full\<close> says where
  the backend's own range ends and a push is no longer covered.
\<close>

datatype 'p qevent = Pushed 'p | Popped 'p | Refused queue_error | Closing

fun pushed :: "'p qevent list \<Rightarrow> 'p list" where
  "pushed [] = []"
| "pushed (Pushed p # es) = p # pushed es"
| "pushed (e # es) = pushed es"

fun popped :: "'p qevent list \<Rightarrow> 'p list" where
  "popped [] = []"
| "popped (Popped p # es) = p # popped es"
| "popped (e # es) = popped es"

inductive queue_run ::
  "('q \<Rightarrow> ctx \<Rightarrow> 'p \<Rightarrow> (queue_error option \<times> 'q) list) \<Rightarrow> ('q \<Rightarrow> ctx \<Rightarrow> ((queue_error + 'p) \<times> 'q) list) \<Rightarrow>
   ('q \<Rightarrow> 'q) \<Rightarrow> ('q \<Rightarrow> bool) \<Rightarrow> 'q \<Rightarrow> 'p qevent list \<Rightarrow> 'q \<Rightarrow> bool"
  for push pop close full where
  none: "queue_run push pop close full q [] q"
| push: "\<not> full q \<Longrightarrow> (None, q1) \<in> set (push q c p) \<Longrightarrow> queue_run push pop close full q1 es q' \<Longrightarrow>
    queue_run push pop close full q (Pushed p # es) q'"
| push_err: "\<not> full q \<Longrightarrow> (Some e, q1) \<in> set (push q c p) \<Longrightarrow> queue_run push pop close full q1 es q' \<Longrightarrow>
    queue_run push pop close full q (Refused e # es) q'"
| pop: "(Inr p, q1) \<in> set (pop q c) \<Longrightarrow> queue_run push pop close full q1 es q' \<Longrightarrow>
    queue_run push pop close full q (Popped p # es) q'"
| pop_err: "(Inl e, q1) \<in> set (pop q c) \<Longrightarrow> queue_run push pop close full q1 es q' \<Longrightarrow>
    queue_run push pop close full q (Refused e # es) q'"
| close: "queue_run push pop close full (close q) es q' \<Longrightarrow> queue_run push pop close full q (Closing # es) q'"

section \<open>The interface\<close>

locale fifo_queue =
  fixes content :: "'q \<Rightarrow> 'p list"
    and ok :: "'q \<Rightarrow> bool"
    and full :: "'q \<Rightarrow> bool"
    and push :: "'q \<Rightarrow> ctx \<Rightarrow> 'p \<Rightarrow> (queue_error option \<times> 'q) list"
    and pop :: "'q \<Rightarrow> ctx \<Rightarrow> ((queue_error + 'p) \<times> 'q) list"
    and close :: "'q \<Rightarrow> 'q"
  assumes push_accepts: "ok q \<Longrightarrow> \<not> full q \<Longrightarrow> (None, q') \<in> set (push q c p) \<Longrightarrow> ok q' \<and> content q' = content q @ [p]"
    and push_refuses: "ok q \<Longrightarrow> \<not> full q \<Longrightarrow> (Some e, q') \<in> set (push q c p) \<Longrightarrow> ok q' \<and> content q' = content q"
    and pop_returns: "ok q \<Longrightarrow> (Inr p, q') \<in> set (pop q c) \<Longrightarrow> ok q' \<and> content q = p # content q'"
    and pop_refuses: "ok q \<Longrightarrow> (Inl e, q') \<in> set (pop q c) \<Longrightarrow> ok q' \<and> content q' = content q"
    and close_keeps: "ok q \<Longrightarrow> ok (close q) \<and> content (close q) = content q"
begin

text \<open>First in, first out, nothing lost and nothing invented.\<close>

lemma run_fifo:
  "queue_run push pop close full q es q' \<Longrightarrow> ok q \<Longrightarrow>
   ok q' \<and> content q @ pushed es = popped es @ content q'"
proof (induction rule: queue_run.induct)
  case (push q q1 c p es q')
  with push_accepts [OF push.prems push.hyps(1,2)] show ?case by simp
next
  case (push_err q e q1 c p es q')
  with push_refuses [OF push_err.prems push_err.hyps(1,2)] show ?case by simp
next
  case (pop p q1 q c es q')
  with pop_returns [OF pop.prems pop.hyps(1)] show ?case by simp
next
  case (pop_err e q1 q c es q')
  with pop_refuses [OF pop_err.prems pop_err.hyps(1)] show ?case by simp
next
  case (close q es q')
  with close_keeps [OF close.prems] show ?case by simp
qed simp

lemma run_popped_prefix:
  assumes "queue_run push pop close full q es q'" "ok q" "content q = []"
  shows "popped es = take (length (popped es)) (pushed es)"
  using run_fifo [OF assms(1,2)] assms(3) by simp

end

end
