(* ===== verification/Queue_Memory.thy ===== *)
theory Queue_Memory
  imports Queue_Spec
begin

text \<open>
  The in-memory queue, \<^verbatim>\<open>pkg/executor/queue/memory.go\<close>: a buffered channel, never closed, and a second
  channel whose closing marks the shutdown. A send into a buffered channel is ready while the buffer
  has room, a receive while it holds something.

  The queue is interpreted as a \<open>fifo_queue\<close>. It also shows that its buffer is bounded, that \<^verbatim>\<open>Push\<close>
  never blocks, that \<^verbatim>\<open>Pop\<close> blocks only on an open, empty queue with a live context, and what a closed
  queue may still do.
\<close>

record MemoryQueue =
  mq_ch :: "bytes list"
  mq_cap :: nat
  mq_closed :: bool

definition NewMemoryQueue :: "int \<Rightarrow> MemoryQueue" where
  "NewMemoryQueue bufferSize =
     (let n = (if bufferSize \<le> 0 then 1000 else bufferSize)
      in \<lparr>mq_ch = [], mq_cap = nat n, mq_closed = False\<rparr>)"

definition mq_Push :: "MemoryQueue \<Rightarrow> ctx \<Rightarrow> bytes \<Rightarrow> (queue_error option \<times> MemoryQueue) list" where
  "mq_Push q ctx payload =
     select_default
       (ready_if (mq_closed q) (Some ErrQueueClosed, q) @
        ready_if (length (mq_ch q) < mq_cap q) (None, q\<lparr>mq_ch := mq_ch q @ [payload]\<rparr>) @
        ready_done ctx (\<lambda>e. (Some (CtxErr e), q)))
       [(Some ErrQueueFull, q)]"

text \<open>The receive case of a channel.\<close>

definition mq_recv :: "MemoryQueue \<Rightarrow> ((queue_error + bytes) \<times> MemoryQueue) list" where
  "mq_recv q = (case mq_ch q of [] \<Rightarrow> [] | payload # rest \<Rightarrow> [(Inr payload, q\<lparr>mq_ch := rest\<rparr>)])"

definition mq_Pop :: "MemoryQueue \<Rightarrow> ctx \<Rightarrow> ((queue_error + bytes) \<times> MemoryQueue) list" where
  "mq_Pop q ctx =
     (if mq_closed q then select_default (mq_recv q) [(Inl ErrQueueClosed, q)] else []) @
     mq_recv q @
     ready_done ctx (\<lambda>e. (Inl (CtxErr e), q))"

definition mq_Len :: "MemoryQueue \<Rightarrow> nat" where
  "mq_Len q = length (mq_ch q)"

definition mq_Close :: "MemoryQueue \<Rightarrow> MemoryQueue" where
  "mq_Close q = q\<lparr>mq_closed := True\<rparr>"

section \<open>The contract\<close>

definition mq_ok :: "MemoryQueue \<Rightarrow> bool" where
  "mq_ok q = (0 < mq_cap q \<and> length (mq_ch q) \<le> mq_cap q)"

lemma NewMemoryQueue_ok: "mq_ok (NewMemoryQueue n)" "mq_ch (NewMemoryQueue n) = []"
  by (simp_all add: mq_ok_def NewMemoryQueue_def Let_def)

lemma mq_recv_iff:
  "(r, q') \<in> set (mq_recv q) \<longleftrightarrow> (\<exists>p rest. mq_ch q = p # rest \<and> r = Inr p \<and> q' = q\<lparr>mq_ch := rest\<rparr>)"
  by (cases "mq_ch q") (auto simp: mq_recv_def)

lemma mq_recv_Nil: "mq_recv q = [] \<longleftrightarrow> mq_ch q = []"
  by (simp add: mq_recv_def split: list.split)

lemma mq_Push_iff:
  "(r, q') \<in> set (mq_Push q c p) \<longleftrightarrow>
     mq_closed q \<and> r = Some ErrQueueClosed \<and> q' = q \<or>
     length (mq_ch q) < mq_cap q \<and> r = None \<and> q' = q\<lparr>mq_ch := mq_ch q @ [p]\<rparr> \<or>
     (\<exists>e. c = Some e \<and> r = Some (CtxErr e) \<and> q' = q) \<or>
     \<not> mq_closed q \<and> mq_cap q \<le> length (mq_ch q) \<and> c = None \<and> r = Some ErrQueueFull \<and> q' = q"
  by (auto simp: mq_Push_def go_simps)

lemma mq_Pop_iff:
  "(r, q') \<in> set (mq_Pop q c) \<longleftrightarrow>
     (\<exists>p rest. mq_ch q = p # rest \<and> r = Inr p \<and> q' = q\<lparr>mq_ch := rest\<rparr>) \<or>
     mq_closed q \<and> mq_ch q = [] \<and> r = Inl ErrQueueClosed \<and> q' = q \<or>
     (\<exists>e. c = Some e \<and> r = Inl (CtxErr e) \<and> q' = q)"
  by (auto simp: mq_Pop_def go_simps mq_recv_iff mq_recv_Nil)

interpretation memory: fifo_queue mq_ch mq_ok "\<lambda>_. False" mq_Push mq_Pop mq_Close
proof
  show "mq_ok q' \<and> mq_ch q' = mq_ch q @ [p]" if "mq_ok q" "(None, q') \<in> set (mq_Push q c p)" for q q' c p
    using that by (auto simp: mq_Push_iff mq_ok_def)
  show "mq_ok q' \<and> mq_ch q' = mq_ch q" if "mq_ok q" "(Some e, q') \<in> set (mq_Push q c p)" for q q' c p e
    using that by (auto simp: mq_Push_iff)
  show "mq_ok q' \<and> mq_ch q = p # mq_ch q'" if "mq_ok q" "(Inr p, q') \<in> set (mq_Pop q c)" for q q' c p
    using that by (auto simp: mq_Pop_iff mq_ok_def)
  show "mq_ok q' \<and> mq_ch q' = mq_ch q" if "mq_ok q" "(Inl e, q') \<in> set (mq_Pop q c)" for q q' c e
    using that by (auto simp: mq_Pop_iff)
  show "mq_ok (mq_Close q) \<and> mq_ch (mq_Close q) = mq_ch q" if "mq_ok q" for q
    using that by (simp add: mq_Close_def mq_ok_def)
qed

lemma mq_Push_cap: "(r, q') \<in> set (mq_Push q c p) \<Longrightarrow> mq_cap q' = mq_cap q"
  by (auto simp: mq_Push_iff)

lemma mq_Pop_cap: "(r, q') \<in> set (mq_Pop q c) \<Longrightarrow> mq_cap q' = mq_cap q"
  by (auto simp: mq_Pop_iff)

lemma mq_run_cap: "queue_run mq_Push mq_Pop mq_Close (\<lambda>_. False) q es q' \<Longrightarrow> mq_cap q' = mq_cap q"
  by (induction rule: queue_run.induct) (auto simp: mq_Push_cap mq_Pop_cap mq_Close_def)

section \<open>Properties\<close>

text \<open>
  C18: the in-memory queue is first in, first out, and bounded: in every history of pushes, pops and
  closings, whatever the ready cases the calls select, the payloads returned followed by those still
  buffered are exactly the payloads accepted, in order, and the buffer is never above its size.
\<close>

theorem memory_queue_fifo:
  assumes "queue_run mq_Push mq_Pop mq_Close (\<lambda>_. False) (NewMemoryQueue n) es q"
  shows "pushed es = popped es @ mq_ch q \<and> mq_Len q \<le> (if n \<le> 0 then 1000 else nat n)"
proof -
  have "mq_ok q \<and> mq_ch (NewMemoryQueue n) @ pushed es = popped es @ mq_ch q"
    using memory.run_fifo [OF assms NewMemoryQueue_ok(1)] by simp
  then show ?thesis using mq_run_cap [OF assms] NewMemoryQueue_ok(2)
    by (auto simp: mq_ok_def mq_Len_def NewMemoryQueue_def Let_def)
qed

lemma demo_memory_run:
  "queue_run mq_Push mq_Pop mq_Close (\<lambda>_. False) (NewMemoryQueue 2)
     [Pushed [1], Pushed [2], Refused ErrQueueFull, Popped [1], Closing] \<lparr>mq_ch = [[2]], mq_cap = 2, mq_closed = True\<rparr>"
  by (rule queue_run.push [where c = None] queue_run.push_err [where c = None and p = "[3]"]
      queue_run.pop [where c = None] queue_run.close queue_run.none |
      simp add: mq_Push_iff mq_Pop_iff NewMemoryQueue_def mq_Close_def)+

theorem memory_queue_fifo_witness:
  "pushed [Pushed [1], Pushed [2], Refused ErrQueueFull, Popped [1], Closing] =
     popped [Pushed [1], Pushed [2], Refused ErrQueueFull, Popped [1], Closing] @ [[2 :: 8 word]]"
  using memory_queue_fifo [OF demo_memory_run] by simp

text \<open>
  C33: no call of \<^verbatim>\<open>Push\<close> blocks, and a call of \<^verbatim>\<open>Pop\<close> blocks exactly while the queue is open and empty and
  the context is not done: after \<^verbatim>\<open>Close\<close> a consumer always returns.
\<close>

theorem memory_queue_never_stuck:
  "mq_Push q c p \<noteq> [] \<and> (mq_Pop q c = [] \<longleftrightarrow> \<not> mq_closed q \<and> mq_ch q = [] \<and> c = None) \<and>
   mq_Pop (mq_Close q) c \<noteq> []"
  by (simp add: mq_Push_def mq_Pop_def mq_Close_def go_simps mq_recv_Nil)

text \<open>
  What \<^verbatim>\<open>Push\<close> may do after \<^verbatim>\<open>Close\<close>: while the buffer has room the send is ready too, so the payload may
  still be accepted, against the contract of the interface.
\<close>

lemma push_after_close_may_accept:
  "mq_Push (mq_Close (NewMemoryQueue 1)) None p =
     [(Some ErrQueueClosed, mq_Close (NewMemoryQueue 1)),
      (None, (mq_Close (NewMemoryQueue 1))\<lparr>mq_ch := [p]\<rparr>)]"
  by (simp add: mq_Push_def mq_Close_def NewMemoryQueue_def select_default_def ready_if_def ready_done_def)

end
