(* ===== verification/Queue_Bbolt.thy ===== *)
theory Queue_Bbolt
  imports Queue_Spec "HOL-Library.Multiset"
begin

text \<open>
  The persistent queue, \<^verbatim>\<open>pkg/executor/queue/bbolt.go\<close>. The embedded database \<^verbatim>\<open>go.etcd.io/bbolt\<close> is a
  parameter, the record \<open>bboltlib\<close> of the operations the code calls on a state of type \<open>'d\<close>; what the
  queue relies on is the predicate \<open>bbolt_laws\<close> (a value that was put is the one that is got, a deleted
  key is gone, a new bucket is empty, other keys and buckets stay).

  First come the transactions: the counters are eight big-endian bytes, a payload is stored under
  its sequence number, a claim reads, deletes and advances in one transaction. They refine a list of
  payloads, for counters that wrap at \<open>2 ^ 64\<close>, as long as fewer than \<open>2 ^ 64 - 1\<close> payloads are pending.
  Then comes the concurrent part: any number of clients in \<^verbatim>\<open>Push\<close> and \<^verbatim>\<open>Pop\<close>, the channel of requests and
  the one goroutine of \<^verbatim>\<open>writeLoop\<close>, as a step relation in which every select goes on with any ready case.
\<close>

section \<open>Big-endian counters\<close>

definition PutUint64 :: "u64 \<Rightarrow> bytes" where
  "PutUint64 v = [ucast (drop_bit 56 v), ucast (drop_bit 48 v), ucast (drop_bit 40 v), ucast (drop_bit 32 v),
     ucast (drop_bit 24 v), ucast (drop_bit 16 v), ucast (drop_bit 8 v), ucast v]"

text \<open>\<^verbatim>\<open>binary.BigEndian.Uint64\<close> of the first eight bytes; the callers check the length.\<close>

definition Uint64 :: "bytes \<Rightarrow> u64" where
  "Uint64 b = ucast (b ! 7) OR push_bit 8 (ucast (b ! 6)) OR push_bit 16 (ucast (b ! 5)) OR
     push_bit 24 (ucast (b ! 4)) OR push_bit 32 (ucast (b ! 3)) OR push_bit 40 (ucast (b ! 2)) OR
     push_bit 48 (ucast (b ! 1)) OR push_bit 56 (ucast (b ! 0))"

lemma length_PutUint64 [simp]: "length (PutUint64 v) = 8"
  by (simp add: PutUint64_def)

lemma bit_byte_at:
  fixes v :: u64
  assumes "i + 8 \<le> 64"
  shows "bit (push_bit i (ucast (ucast (drop_bit i v) :: 8 word) :: u64)) n \<longleftrightarrow> i \<le> n \<and> n < i + 8 \<and> bit v n"
  using assms by (auto simp: bit_push_bit_iff bit_unsigned_iff bit_drop_bit_eq not_le)

lemma Uint64_PutUint64 [simp]: "Uint64 (PutUint64 v) = v"
proof (rule bit_word_eqI)
  fix n assume "n < LENGTH(64)"
  moreover have "bit (ucast (ucast v :: 8 word) :: u64) n \<longleftrightarrow> n < 8 \<and> bit v n"
    using bit_byte_at [of 0 v n] by simp
  ultimately show "bit (Uint64 (PutUint64 v)) n = bit v n"
    unfolding Uint64_def PutUint64_def
    by (simp only: bit_or_iff bit_byte_at nth_Cons_numeral nth_Cons_0) (simp add: bit_byte_at bit_or_iff, arith)
qed

lemma PutUint64_eq_iff [simp]: "PutUint64 v = PutUint64 w \<longleftrightarrow> v = w"
  by (metis Uint64_PutUint64)

section \<open>The database\<close>

record 'd bboltlib =
  d_Open :: "string \<Rightarrow> string + 'd"
  d_Create :: "'d \<Rightarrow> bytes \<Rightarrow> string + 'd"
  d_Bucket :: "'d \<Rightarrow> bytes \<Rightarrow> bool"
  d_Get :: "'d \<Rightarrow> bytes \<Rightarrow> bytes \<Rightarrow> bytes option"
  d_Put :: "'d \<Rightarrow> bytes \<Rightarrow> bytes \<Rightarrow> bytes \<Rightarrow> string + 'd"
  d_Delete :: "'d \<Rightarrow> bytes \<Rightarrow> bytes \<Rightarrow> string + 'd"
  d_Commit :: "'d \<Rightarrow> string option"

definition bbolt_laws :: "'d bboltlib \<Rightarrow> bool" where
  "bbolt_laws L \<longleftrightarrow>
     (\<forall>d n d'. d_Create L d n = Inr d' \<longrightarrow> d_Bucket L d' n \<and>
        (\<forall>k. d_Get L d' n k = (if d_Bucket L d n then d_Get L d n k else None))) \<and>
     (\<forall>d n k v d'. d_Put L d n k v = Inr d' \<longrightarrow> d_Bucket L d' n = d_Bucket L d n \<and>
        (\<forall>k'. d_Get L d' n k' = (if k' = k then Some v else d_Get L d n k'))) \<and>
     (\<forall>d n k d'. d_Delete L d n k = Inr d' \<longrightarrow> d_Bucket L d' n = d_Bucket L d n \<and>
        (\<forall>k'. d_Get L d' n k' = (if k' = k then None else d_Get L d n k')))"

lemma bbolt_laws_Create: "bbolt_laws L \<Longrightarrow> d_Create L d n = Inr d' \<Longrightarrow>
    d_Bucket L d' n \<and> d_Get L d' n k = (if d_Bucket L d n then d_Get L d n k else None)"
  by (simp add: bbolt_laws_def)

lemma bbolt_laws_Put: "bbolt_laws L \<Longrightarrow> d_Put L d n k v = Inr d' \<Longrightarrow>
    d_Bucket L d' n = d_Bucket L d n \<and> d_Get L d' n k' = (if k' = k then Some v else d_Get L d n k')"
  by (simp add: bbolt_laws_def)

lemma bbolt_laws_Delete: "bbolt_laws L \<Longrightarrow> d_Delete L d n k = Inr d' \<Longrightarrow>
    d_Bucket L d' n = d_Bucket L d n \<and> d_Get L d' n k' = (if k' = k then None else d_Get L d n k')"
  by (simp add: bbolt_laws_def)

text \<open>An error of the database, handed on by the code.\<close>

definition store :: "string + 'a \<Rightarrow> queue_error + 'a" where
  "store r = (case r of Inl e \<Rightarrow> Inl (StoreErr e) | Inr x \<Rightarrow> Inr x)"

lemma store_Inr [simp]: "store r = Inr x \<longleftrightarrow> r = Inr x"
  by (simp add: store_def split: sum.split)

text \<open>\<^verbatim>\<open>db.Update\<close>: an error of the function or of the commit rolls the transaction back.\<close>

definition db_Update :: "'d bboltlib \<Rightarrow> 'd \<Rightarrow> ('d \<Rightarrow> queue_error + 'a \<times> 'd) \<Rightarrow> (queue_error + 'a) \<times> 'd" where
  "db_Update L d f =
     (case f d of
        Inl e \<Rightarrow> (Inl e, d)
      | Inr (x, d') \<Rightarrow> (case d_Commit L d' of Some e \<Rightarrow> (Inl (StoreErr e), d) | None \<Rightarrow> (Inr x, d')))"

section \<open>Transactions\<close>

definition seqKey :: bytes where "seqKey = [0, 115, 101, 113]"
definition readKey :: bytes where "readKey = [0, 114, 101, 97, 100]"

definition init_counter :: "'d bboltlib \<Rightarrow> bytes \<Rightarrow> bytes \<Rightarrow> 'd \<Rightarrow> queue_error + 'd" where
  "init_counter L bucket k d =
     (if d_Get L d bucket k = None then store (d_Put L d bucket k (PutUint64 1)) else Inr d)"

definition init_bucket :: "'d bboltlib \<Rightarrow> bytes \<Rightarrow> 'd \<Rightarrow> queue_error + unit \<times> 'd" where
  "init_bucket L bucket d =
     try_then (store (d_Create L d bucket)) (\<lambda>d1.
     try_then (init_counter L bucket seqKey d1) (\<lambda>d2.
     try_then (init_counter L bucket readKey d2) (\<lambda>d3. Inr ((), d3))))"

definition writePush :: "'d bboltlib \<Rightarrow> bytes \<Rightarrow> bytes \<Rightarrow> 'd \<Rightarrow> queue_error + unit \<times> 'd" where
  "writePush L bucket payload d =
     fail_if (\<not> d_Bucket L d bucket) ErrBucketNotFound
       (case d_Get L d bucket seqKey of
          None \<Rightarrow> Inl ErrQueueCorrupted
        | Some seqBytes \<Rightarrow>
            fail_if (length seqBytes \<noteq> 8) ErrQueueCorrupted
              (let seq = Uint64 seqBytes
               in try_then (store (d_Put L d bucket (PutUint64 seq) payload)) (\<lambda>d1.
                  try_then (store (d_Put L d1 bucket seqKey (PutUint64 (seq + 1)))) (\<lambda>d2. Inr ((), d2)))))"

definition readAndClaim :: "'d bboltlib \<Rightarrow> bytes \<Rightarrow> 'd \<Rightarrow> queue_error + bytes option \<times> 'd" where
  "readAndClaim L bucket d =
     fail_if (\<not> d_Bucket L d bucket) ErrBucketNotFound
       (case d_Get L d bucket readKey of
          None \<Rightarrow> Inl ErrQueueCorrupted
        | Some readBytes \<Rightarrow>
            fail_if (length readBytes \<noteq> 8) ErrQueueCorrupted
              (let read = Uint64 readBytes
               in case d_Get L d bucket (PutUint64 read) of
                    None \<Rightarrow> Inr (None, d)
                  | Some data \<Rightarrow>
                      try_then (store (d_Delete L d bucket (PutUint64 read))) (\<lambda>d1.
                      try_then (store (d_Put L d1 bucket readKey (PutUint64 (read + 1)))) (\<lambda>d2.
                      Inr (Some data, d2)))))"

text \<open>\<^verbatim>\<open>Len\<close>: the counters of a read transaction; -1 when it fails (\<open>open\<close> is false once \<^verbatim>\<open>Close\<close> ran).\<close>

definition read_counter :: "'d bboltlib \<Rightarrow> bytes \<Rightarrow> bytes \<Rightarrow> 'd \<Rightarrow> u64" where
  "read_counter L bucket k d =
     (case d_Get L d bucket k of None \<Rightarrow> 0 | Some b \<Rightarrow> if length b = 8 then Uint64 b else 0)"

definition bb_Len :: "'d bboltlib \<Rightarrow> bool \<Rightarrow> bytes \<Rightarrow> 'd \<Rightarrow> int" where
  "bb_Len L db_open bucket d =
     (if \<not> db_open then -1
      else if \<not> d_Bucket L d bucket then -1
      else let seq = read_counter L bucket seqKey d; read = read_counter L bucket readKey d
           in if seq < read then 0 else sint (seq - read))"

section \<open>The queue held by a database\<close>

definition bb_seq :: "'d bboltlib \<Rightarrow> bytes \<Rightarrow> 'd \<Rightarrow> u64" where
  "bb_seq L n d = read_counter L n seqKey d"

definition bb_read :: "'d bboltlib \<Rightarrow> bytes \<Rightarrow> 'd \<Rightarrow> u64" where
  "bb_read L n d = read_counter L n readKey d"

definition bb_pending :: "'d bboltlib \<Rightarrow> bytes \<Rightarrow> 'd \<Rightarrow> nat" where
  "bb_pending L n d = unat (bb_seq L n d - bb_read L n d)"

definition bb_content :: "'d bboltlib \<Rightarrow> bytes \<Rightarrow> 'd \<Rightarrow> bytes list" where
  "bb_content L n d = map (\<lambda>i. the (d_Get L d n (PutUint64 (bb_read L n d + of_nat i)))) [0..<bb_pending L n d]"

text \<open>Both counters are there, and the numbers between them, and only they, hold payloads.\<close>

definition bb_ok :: "'d bboltlib \<Rightarrow> bytes \<Rightarrow> 'd \<Rightarrow> bool" where
  "bb_ok L n d \<longleftrightarrow> d_Bucket L d n \<and>
     d_Get L d n seqKey = Some (PutUint64 (bb_seq L n d)) \<and> d_Get L d n readKey = Some (PutUint64 (bb_read L n d)) \<and>
     (\<forall>i. d_Get L d n (PutUint64 i) \<noteq> None \<longleftrightarrow> unat (i - bb_read L n d) < bb_pending L n d)"

definition bb_full :: "'d bboltlib \<Rightarrow> bytes \<Rightarrow> 'd \<Rightarrow> bool" where
  "bb_full L n d \<longleftrightarrow> bb_pending L n d = 2 ^ 64 - 1"

lemma keys_distinct [simp]:
  "PutUint64 i \<noteq> seqKey" "PutUint64 i \<noteq> readKey" "seqKey \<noteq> PutUint64 i" "readKey \<noteq> PutUint64 i"
  "seqKey \<noteq> readKey" "readKey \<noteq> seqKey"
  by (simp_all add: PutUint64_def seqKey_def readKey_def)

lemma bb_eqI:
  assumes "d_Get L d n seqKey = Some (PutUint64 s)" "d_Get L d n readKey = Some (PutUint64 r)"
  shows "bb_seq L n d = s" "bb_read L n d = r" "bb_pending L n d = unat (s - r)"
  using assms by (simp_all add: bb_seq_def bb_read_def bb_pending_def read_counter_def)

lemma writePush_iff:
  "writePush L n p d = Inr (u, d2) \<longleftrightarrow>
     (\<exists>seqBytes d1. d_Bucket L d n \<and> d_Get L d n seqKey = Some seqBytes \<and> length seqBytes = 8 \<and>
        d_Put L d n (PutUint64 (Uint64 seqBytes)) p = Inr d1 \<and>
        d_Put L d1 n seqKey (PutUint64 (Uint64 seqBytes + 1)) = Inr d2)"
  by (auto simp: writePush_def res_Inr Let_def split: option.splits)

lemma readAndClaim_None:
  "readAndClaim L n d = Inr (None, d2) \<longleftrightarrow>
     (\<exists>readBytes. d_Bucket L d n \<and> d_Get L d n readKey = Some readBytes \<and> length readBytes = 8 \<and>
        d_Get L d n (PutUint64 (Uint64 readBytes)) = None \<and> d2 = d)"
  by (auto simp: readAndClaim_def res_Inr Let_def split: option.splits)

lemma readAndClaim_Some:
  "readAndClaim L n d = Inr (Some p, d2) \<longleftrightarrow>
     (\<exists>readBytes d1. d_Bucket L d n \<and> d_Get L d n readKey = Some readBytes \<and> length readBytes = 8 \<and>
        d_Get L d n (PutUint64 (Uint64 readBytes)) = Some p \<and>
        d_Delete L d n (PutUint64 (Uint64 readBytes)) = Inr d1 \<and>
        d_Put L d1 n readKey (PutUint64 (Uint64 readBytes + 1)) = Inr d2)"
  by (auto simp: readAndClaim_def res_Inr Let_def split: option.splits)

lemma unat_u64: "unat (x :: u64) < 18446744073709551616"
  by (rule order_less_le_trans [OF unsigned_less]) simp

lemma unat_plus1:
  fixes x :: u64
  assumes "unat x \<noteq> 2 ^ 64 - 1"
  shows "unat (x + 1) = unat x + 1"
  using assms unat_u64 [of x] by (simp add: unat_word_ariths)

text \<open>A committed push appends.\<close>

lemma writePush_content:
  assumes L: "bbolt_laws L" and ok: "bb_ok L n d" and room: "\<not> bb_full L n d" and w: "writePush L n p d = Inr (u, d2)"
  shows "bb_ok L n d2 \<and> bb_content L n d2 = bb_content L n d @ [p]"
proof -
  define s where "s = bb_seq L n d"
  define r where "r = bb_read L n d"
  have sr: "d_Get L d n seqKey = Some (PutUint64 s)" "d_Get L d n readKey = Some (PutUint64 r)"
    using ok by (simp_all add: bb_ok_def s_def r_def)
  from w sr obtain d1 where d1: "d_Put L d n (PutUint64 s) p = Inr d1" "d_Put L d1 n seqKey (PutUint64 (s + 1)) = Inr d2"
    by (auto simp: writePush_iff)
  have get: "d_Get L d2 n k = (if k = seqKey then Some (PutUint64 (s + 1)) else if k = PutUint64 s then Some p
      else d_Get L d n k)" for k
    using bbolt_laws_Put [OF L d1(1), of k] bbolt_laws_Put [OF L d1(2), of k] by simp
  have bucket: "d_Bucket L d2 n" using ok bbolt_laws_Put [OF L d1(1)] bbolt_laws_Put [OF L d1(2)] by (simp add: bb_ok_def)
  note e1 = bb_eqI [OF sr]
  have e2: "bb_seq L n d2 = s + 1" "bb_read L n d2 = r" "bb_pending L n d2 = unat (s + 1 - r)"
    using get sr by (simp_all add: bb_eqI)
  have nf: "unat (s - r) \<noteq> 2 ^ 64 - 1" using room e1 by (simp add: bb_full_def)
  have pend: "bb_pending L n d2 = bb_pending L n d + 1"
    using unat_plus1 [OF nf] e1 e2 by (simp add: algebra_simps)
  have held: "d_Get L d2 n (PutUint64 i) \<noteq> None \<longleftrightarrow> unat (i - r) < bb_pending L n d2" for i
  proof (cases "i = s")
    case True
    then show ?thesis using get pend e1 by simp
  next
    case False
    then have "unat (i - r) \<noteq> unat (s - r)" by (metis diff_add_cancel word_unat_eq_iff)
    moreover have "d_Get L d n (PutUint64 i) \<noteq> None \<longleftrightarrow> unat (i - r) < unat (s - r)"
      using ok e1(3) unfolding bb_ok_def r_def by metis
    ultimately show ?thesis using False e1(3) by (simp add: get pend less_Suc_eq)
  qed
  have "bb_ok L n d2" using bucket get sr e2 held by (simp add: bb_ok_def)
  moreover have "bb_content L n d2 = bb_content L n d @ [p]"
  proof -
    have "d_Get L d2 n (PutUint64 (r + of_nat i)) = d_Get L d n (PutUint64 (r + of_nat i))"
      if "i < bb_pending L n d" for i
    proof -
      have "r + of_nat i \<noteq> s"
      proof
        assume "r + of_nat i = s"
        then have "s - r = of_nat i" by auto
        moreover have "i < 2 ^ 64" using that e1 unat_u64 [of "s - r"] by simp
        ultimately show False using that e1 by (simp add: unat_of_nat take_bit_nat_eq_self)
      qed
      then show ?thesis using get by simp
    qed
    moreover have "d_Get L d2 n (PutUint64 (r + of_nat (bb_pending L n d))) = Some p"
      using get e1 by simp
    ultimately show ?thesis using pend e1 e2 by (simp add: bb_content_def)
  qed
  ultimately show ?thesis by blast
qed

text \<open>A committed claim takes the head, and there is none exactly when nothing is pending.\<close>

lemma readAndClaim_content:
  assumes L: "bbolt_laws L" and ok: "bb_ok L n d" and w: "readAndClaim L n d = Inr (Some p, d2)"
  shows "bb_ok L n d2 \<and> bb_content L n d = p # bb_content L n d2"
proof -
  define s where "s = bb_seq L n d"
  define r where "r = bb_read L n d"
  have sr: "d_Get L d n seqKey = Some (PutUint64 s)" "d_Get L d n readKey = Some (PutUint64 r)"
    using ok by (simp_all add: bb_ok_def s_def r_def)
  from w sr obtain d1 where d1: "d_Get L d n (PutUint64 r) = Some p" "d_Delete L d n (PutUint64 r) = Inr d1"
    "d_Put L d1 n readKey (PutUint64 (r + 1)) = Inr d2"
    by (auto simp: readAndClaim_Some)
  have get: "d_Get L d2 n k = (if k = readKey then Some (PutUint64 (r + 1)) else if k = PutUint64 r then None
      else d_Get L d n k)" for k
    using bbolt_laws_Delete [OF L d1(2), of k] bbolt_laws_Put [OF L d1(3), of k] by simp
  have bucket: "d_Bucket L d2 n"
    using ok bbolt_laws_Delete [OF L d1(2)] bbolt_laws_Put [OF L d1(3)] by (simp add: bb_ok_def)
  note e1 = bb_eqI [OF sr]
  have e2: "bb_seq L n d2 = s" "bb_read L n d2 = r + 1" "bb_pending L n d2 = unat (s - (r + 1))"
    using get sr by (simp_all add: bb_eqI)
  have "unat (r - r) < bb_pending L n d" using ok d1(1) by (metis bb_ok_def option.distinct(1) r_def)
  then have pos: "0 < bb_pending L n d" by simp
  have minus1: "unat (x - 1) = unat x - 1" if "0 < unat x" for x :: u64
    using that by (metis One_nat_def Suc_pred unat_minus_one unat_gt_0 diff_Suc_1)
  have pend: "bb_pending L n d = Suc (bb_pending L n d2)"
    using minus1 [of "s - r"] pos e1 e2 by (simp add: algebra_simps)
  have held: "d_Get L d2 n (PutUint64 i) \<noteq> None \<longleftrightarrow> unat (i - (r + 1)) < bb_pending L n d2" for i
  proof (cases "i = r")
    case True
    have "unat (- 1 :: u64) = 2 ^ 64 - 1" by (simp add: unsigned_minus_1_eq_mask mask_eq_exp_minus_1)
    moreover have "bb_pending L n d2 < 2 ^ 64 - 1" using pend e1 unat_u64 [of "s - r"] by simp
    ultimately show ?thesis using True get by simp
  next
    case False
    then have "0 < unat (i - r)" by (simp add: unat_gt_0)
    moreover have "d_Get L d n (PutUint64 i) \<noteq> None \<longleftrightarrow> unat (i - r) < Suc (bb_pending L n d2)"
      using ok pend unfolding bb_ok_def r_def by metis
    moreover have "unat (i - (r + 1)) = unat (i - r) - 1" using minus1 [of "i - r"] calculation(1) by (simp add: algebra_simps)
    ultimately show ?thesis using False by (simp add: get) arith
  qed
  have "bb_ok L n d2" using bucket get sr e2 held by (simp add: bb_ok_def)
  moreover have "bb_content L n d = p # bb_content L n d2"
  proof -
    have "d_Get L d2 n (PutUint64 (r + 1 + of_nat i)) = d_Get L d n (PutUint64 (r + of_nat (Suc i)))"
      if "i < bb_pending L n d2" for i
    proof -
      have "Suc i < 2 ^ 64" using that pend e1 unat_u64 [of "s - r"] by simp
      then have "unat (of_nat (Suc i) :: u64) = Suc i" by (simp add: unat_of_nat take_bit_nat_eq_self del: of_nat_Suc)
      then have "r + of_nat (Suc i) \<noteq> r" by (metis add_cancel_left_right nat.distinct(1) unsigned_0)
      then show ?thesis using get by (simp add: algebra_simps)
    qed
    then show ?thesis using pend e1 e2 d1(1)
      by (simp add: bb_content_def upt_conv_Cons map_Suc_upt [symmetric] del: upt_Suc)
  qed
  ultimately show ?thesis by blast
qed

lemma readAndClaim_empty:
  assumes "bb_ok L n d"
  shows "readAndClaim L n d = Inr (None, d2) \<Longrightarrow> bb_content L n d = [] \<and> d2 = d"
    and "bb_content L n d = [] \<Longrightarrow> readAndClaim L n d = Inr (None, d)"
proof -
  have r: "d_Get L d n readKey = Some (PutUint64 (bb_read L n d))" "d_Bucket L d n" using assms by (simp_all add: bb_ok_def)
  have e: "d_Get L d n (PutUint64 (bb_read L n d)) = None \<longleftrightarrow> bb_pending L n d = 0"
  proof -
    have "d_Get L d n (PutUint64 (bb_read L n d)) \<noteq> None \<longleftrightarrow> unat (bb_read L n d - bb_read L n d) < bb_pending L n d"
      using assms unfolding bb_ok_def by blast
    then show ?thesis by auto
  qed
  show "bb_content L n d = [] \<and> d2 = d" if "readAndClaim L n d = Inr (None, d2)"
    using that r e by (auto simp: readAndClaim_None bb_content_def)
  show "readAndClaim L n d = Inr (None, d)" if "bb_content L n d = []"
    using that r e by (simp add: readAndClaim_None bb_content_def)
qed

section \<open>The queue and its goroutines\<close>

text \<open>
  The reply channels \<^verbatim>\<open>result\<close> and \<^verbatim>\<open>popResult\<close> of a request have room for the one reply; a request
  carries the number of its channel, and the replies that were sent and not yet received are kept
  with it.
\<close>

datatype writeOp = opPush bytes nat | opPopAndAdvance nat

record popResult =
  pr_payload :: bytes
  pr_found :: bool
  pr_err :: "queue_error option"

text \<open>Where \<^verbatim>\<open>writeLoop\<close> stands: at its select, sending a reply, or returned.\<close>

datatype writer = WLoop | WPushed nat "queue_error option" | WClaimed nat popResult | WReturned

record 'd BboltQueue =
  bq_db :: 'd
  bq_bucket :: bytes
  bq_writes :: "writeOp list"
  bq_done :: bool
  bq_writer :: writer
  bq_open :: bool
  bq_results :: "(nat \<times> queue_error option) list"
  bq_popResults :: "(nat \<times> popResult) list"
  bq_next :: nat

definition NewBboltQueue :: "'d bboltlib \<Rightarrow> string \<Rightarrow> string \<Rightarrow> queue_error + 'd BboltQueue" where
  "NewBboltQueue L path bucket =
     try_then (store (d_Open L path)) (\<lambda>d.
       case db_Update L d (init_bucket L (bytes_of_string bucket)) of
         (Inl e, _) \<Rightarrow> Inl e
       | (Inr _, d') \<Rightarrow>
           Inr \<lparr>bq_db = d', bq_bucket = bytes_of_string bucket, bq_writes = [], bq_done = False, bq_writer = WLoop,
             bq_open = True, bq_results = [], bq_popResults = [], bq_next = 0\<rparr>)"

text \<open>
  The claim of \<^verbatim>\<open>writeLoop\<close>: the closure writes the payload into the result before the commit, so a
  failing commit leaves it there beside the error.
\<close>

definition exec_pop :: "'d bboltlib \<Rightarrow> bytes \<Rightarrow> 'd \<Rightarrow> popResult \<times> 'd" where
  "exec_pop L bucket d =
     (let captured = (case readAndClaim L bucket d of Inr (x, _) \<Rightarrow> x | Inl _ \<Rightarrow> None);
          (r, d') = db_Update L d (readAndClaim L bucket)
      in (\<lparr>pr_payload = (case captured of None \<Rightarrow> [] | Some p \<Rightarrow> p), pr_found = (captured \<noteq> None),
            pr_err = (case r of Inl e \<Rightarrow> Some e | Inr _ \<Rightarrow> None)\<rparr>, d'))"

definition exec_push :: "'d bboltlib \<Rightarrow> bytes \<Rightarrow> bytes \<Rightarrow> 'd \<Rightarrow> queue_error option \<times> 'd" where
  "exec_push L bucket payload d =
     (let (r, d') = db_Update L d (writePush L bucket payload)
      in (case r of Inl e \<Rightarrow> Some e | Inr _ \<Rightarrow> None, d'))"

text \<open>The visible events: a payload is committed, claimed, or returned by a \<^verbatim>\<open>Pop\<close>.\<close>

datatype bb_event = Silent | Stored bytes | Claimed bytes | Delivered bytes

definition claim_event :: "popResult \<Rightarrow> bb_event" where
  "claim_event r = (if pr_found r \<and> pr_err r = None then Claimed (pr_payload r) else Silent)"

definition writeLoop_step :: "'d bboltlib \<Rightarrow> 'd BboltQueue \<Rightarrow> (bb_event \<times> 'd BboltQueue) list" where
  "writeLoop_step L q =
     (case bq_writer q of
        WLoop \<Rightarrow>
          ready_if (bq_done q) (Silent, q\<lparr>bq_writer := WReturned\<rparr>) @
          (case bq_writes q of
             [] \<Rightarrow> []
           | opPush p i # rest \<Rightarrow>
               (let (r, d') = exec_push L (bq_bucket q) p (bq_db q)
                in [(if r = None then Stored p else Silent,
                     q\<lparr>bq_writes := rest, bq_db := d', bq_writer := WPushed i r\<rparr>)])
           | opPopAndAdvance i # rest \<Rightarrow>
               (let (r, d') = exec_pop L (bq_bucket q) (bq_db q)
                in [(claim_event r, q\<lparr>bq_writes := rest, bq_db := d', bq_writer := WClaimed i r\<rparr>)]))
      | WPushed i r \<Rightarrow>
          [(Silent, q\<lparr>bq_results := bq_results q @ [(i, r)], bq_writer := WLoop\<rparr>)] @
          ready_if (bq_done q) (Silent, q\<lparr>bq_writer := WLoop\<rparr>)
      | WClaimed i r \<Rightarrow>
          [(Silent, q\<lparr>bq_popResults := bq_popResults q @ [(i, r)], bq_writer := WLoop\<rparr>)] @
          ready_if (bq_done q) (Silent, q\<lparr>bq_writer := WLoop\<rparr>)
      | WReturned \<Rightarrow> [])"

text \<open>Where a call of \<^verbatim>\<open>Push\<close> (with \<^verbatim>\<open>safeSend\<close>) or \<^verbatim>\<open>Pop\<close> (with \<^verbatim>\<open>claimOnce\<close>) stands.\<close>

datatype client =
    PushStart bytes | PushSend bytes | PushWait nat | PushReturned "queue_error option"
  | PopStart | PopSend | PopWait nat | PopTick | PopReturned "queue_error + bytes"

definition take_result :: "nat \<Rightarrow> (nat \<times> 'r) list \<Rightarrow> ('r \<times> (nat \<times> 'r) list) list" where
  "take_result i xs = (case map_of xs i of None \<Rightarrow> [] | Some r \<Rightarrow> [(r, remove1 (i, r) xs)])"

definition Push_step :: "'d BboltQueue \<Rightarrow> ctx \<Rightarrow> client \<Rightarrow> (bb_event \<times> client \<times> 'd BboltQueue) list" where
  "Push_step q ctx c =
     (case c of
        PushStart p \<Rightarrow>
          select_default (ready_if (bq_done q) (Silent, PushReturned (Some ErrQueueClosed), q)) [(Silent, PushSend p, q)]
      | PushSend p \<Rightarrow>
          ready_if (bq_done q) (Silent, PushReturned (Some ErrQueueClosed), q) @
          ready_done ctx (\<lambda>e. (Silent, PushReturned (Some (CtxErr e)), q)) @
          ready_if (length (bq_writes q) < 64)
            (Silent, PushWait (bq_next q), q\<lparr>bq_writes := bq_writes q @ [opPush p (bq_next q)], bq_next := bq_next q + 1\<rparr>)
      | PushWait i \<Rightarrow>
          ready_if (bq_done q) (Silent, PushReturned (Some ErrQueueClosed), q) @
          ready_done ctx (\<lambda>e. (Silent, PushReturned (Some (CtxErr e)), q)) @
          map (\<lambda>(r, rest). (Silent, PushReturned r, q\<lparr>bq_results := rest\<rparr>)) (take_result i (bq_results q))
      | _ \<Rightarrow> [])"

text \<open>What \<^verbatim>\<open>Pop\<close> does with the values \<^verbatim>\<open>claimOnce\<close> returned.\<close>

definition after_claim :: "popResult \<Rightarrow> 'd BboltQueue \<Rightarrow> bb_event \<times> client \<times> 'd BboltQueue" where
  "after_claim r q =
     (case pr_err r of
        Some e \<Rightarrow> (Silent, PopReturned (Inl e), q)
      | None \<Rightarrow> if pr_found r then (Delivered (pr_payload r), PopReturned (Inr (pr_payload r)), q)
                else (Silent, PopTick, q))"

definition Pop_step :: "'d BboltQueue \<Rightarrow> ctx \<Rightarrow> client \<Rightarrow> (bb_event \<times> client \<times> 'd BboltQueue) list" where
  "Pop_step q ctx c =
     (let closed = (Silent, PopReturned (Inl ErrQueueClosed), q);
          cancelled = (\<lambda>e. (Silent, PopReturned (Inl (CtxErr e)), q))
      in case c of
           PopStart \<Rightarrow>
             select_default (ready_if (bq_done q) closed @ ready_done ctx cancelled) [(Silent, PopSend, q)]
         | PopSend \<Rightarrow>
             ready_if (bq_done q) closed @ ready_done ctx cancelled @
             ready_if (length (bq_writes q) < 64)
               (Silent, PopWait (bq_next q),
                q\<lparr>bq_writes := bq_writes q @ [opPopAndAdvance (bq_next q)], bq_next := bq_next q + 1\<rparr>)
         | PopWait i \<Rightarrow>
             (let received = map (\<lambda>(r, rest). after_claim r (q\<lparr>bq_popResults := rest\<rparr>)) (take_result i (bq_popResults q))
              in (if bq_done q then select_default received [closed] else []) @ received)
         | PopTick \<Rightarrow>
             ready_if (bq_done q) closed @ ready_done ctx cancelled @ [(Silent, PopStart, q)]
         | _ \<Rightarrow> [])"

text \<open>\<^verbatim>\<open>Close\<close>: the first call closes \<^verbatim>\<open>done\<close>; the database is closed once the goroutine has returned.\<close>

definition bq_Close :: "'d BboltQueue \<Rightarrow> 'd BboltQueue" where
  "bq_Close q = q\<lparr>bq_done := True\<rparr>"

definition bq_CloseDB :: "'d BboltQueue \<Rightarrow> 'd BboltQueue" where
  "bq_CloseDB q = (if bq_done q \<and> bq_writer q = WReturned then q\<lparr>bq_open := False\<rparr> else q)"

section \<open>Interleavings\<close>

text \<open>
  Any number of calls is in progress, by number; each step is one of a call, of the goroutine or of
  \<^verbatim>\<open>Close\<close>. The context of a call may be done at any step.
\<close>

inductive bb_step :: "'d bboltlib \<Rightarrow> 'd BboltQueue \<times> (nat \<Rightarrow> client option) \<Rightarrow> bb_event \<Rightarrow>
    'd BboltQueue \<times> (nat \<Rightarrow> client option) \<Rightarrow> bool" for L where
  start_push: "cl j = None \<Longrightarrow> bb_step L (q, cl) Silent (q, cl(j \<mapsto> PushStart p))"
| start_pop: "cl j = None \<Longrightarrow> bb_step L (q, cl) Silent (q, cl(j \<mapsto> PopStart))"
| push_call: "cl j = Some c \<Longrightarrow> (e, c', q') \<in> set (Push_step q ctx c) \<Longrightarrow> bb_step L (q, cl) e (q', cl(j \<mapsto> c'))"
| pop_call: "cl j = Some c \<Longrightarrow> (e, c', q') \<in> set (Pop_step q ctx c) \<Longrightarrow> bb_step L (q, cl) e (q', cl(j \<mapsto> c'))"
| writer: "\<not> bb_full L (bq_bucket q) (bq_db q) \<Longrightarrow> (e, q') \<in> set (writeLoop_step L q) \<Longrightarrow> bb_step L (q, cl) e (q', cl)"
| close: "bb_step L (q, cl) Silent (bq_Close q, cl)"
| close_db: "bb_step L (q, cl) Silent (bq_CloseDB q, cl)"

inductive bb_run :: "'d bboltlib \<Rightarrow> 'd BboltQueue \<times> (nat \<Rightarrow> client option) \<Rightarrow> bb_event list \<Rightarrow>
    'd BboltQueue \<times> (nat \<Rightarrow> client option) \<Rightarrow> bool" for L where
  none: "bb_run L s [] s"
| step: "bb_step L s e s1 \<Longrightarrow> bb_run L s1 es s' \<Longrightarrow> bb_run L s (e # es) s'"

fun stored :: "bb_event list \<Rightarrow> bytes list" where
  "stored [] = []"
| "stored (Stored p # es) = p # stored es"
| "stored (e # es) = stored es"

fun claimed :: "bb_event list \<Rightarrow> bytes list" where
  "claimed [] = []"
| "claimed (Claimed p # es) = p # claimed es"
| "claimed (e # es) = claimed es"

fun delivered :: "bb_event list \<Rightarrow> bytes list" where
  "delivered [] = []"
| "delivered (Delivered p # es) = p # delivered es"
| "delivered (e # es) = delivered es"

section \<open>What the interleavings keep\<close>

definition owed :: "popResult \<Rightarrow> bytes list" where
  "owed r = (if pr_found r \<and> pr_err r = None then [pr_payload r] else [])"

text \<open>The payloads claimed and on the way to a caller.\<close>

definition outstanding :: "'d BboltQueue \<Rightarrow> bytes multiset" where
  "outstanding q = mset (concat (map (\<lambda>(i, r). owed r) (bq_popResults q))) +
     mset (case bq_writer q of WClaimed i r \<Rightarrow> owed r | _ \<Rightarrow> [])"

abbreviation q_content :: "'d bboltlib \<Rightarrow> 'd BboltQueue \<Rightarrow> bytes list" where
  "q_content L q \<equiv> bb_content L (bq_bucket q) (bq_db q)"

abbreviation q_ok :: "'d bboltlib \<Rightarrow> 'd BboltQueue \<Rightarrow> bool" where
  "q_ok L q \<equiv> bb_ok L (bq_bucket q) (bq_db q)"

lemma event_lists_Cons:
  "stored (e # es) = stored [e] @ stored es"
  "claimed (e # es) = claimed [e] @ claimed es"
  "delivered (e # es) = delivered [e] @ delivered es"
  by (cases e; simp)+

lemma db_Update_cases:
  obtains (failed) e where "db_Update L d f = (Inl e, d)"
  | (committed) x d' where "f d = Inr (x, d')" "db_Update L d f = (Inr x, d')"
proof (cases "f d")
  case (Inl e)
  then show ?thesis using failed by (simp add: db_Update_def)
next
  case (Inr xd)
  obtain x d' where xd: "xd = (x, d')" by fastforce
  show ?thesis
  proof (cases "d_Commit L d'")
    case None
    with Inr xd committed show ?thesis by (simp add: db_Update_def)
  next
    case (Some e)
    with Inr xd failed show ?thesis by (simp add: db_Update_def)
  qed
qed

lemma exec_push_content:
  assumes "bbolt_laws L" "bb_ok L n d" "\<not> bb_full L n d" "exec_push L n p d = (r, d')"
  shows "bb_ok L n d' \<and> bb_content L n d' = bb_content L n d @ (if r = None then [p] else [])"
proof (cases rule: db_Update_cases [of L d "writePush L n p"])
  case (failed e)
  with assms show ?thesis by (auto simp: exec_push_def Let_def)
next
  case (committed x d'')
  with assms writePush_content [OF assms(1-3)] show ?thesis by (auto simp: exec_push_def Let_def)
qed

lemma exec_pop_content:
  assumes "bbolt_laws L" "bb_ok L n d" "exec_pop L n d = (r, d')"
  shows "bb_ok L n d' \<and> bb_content L n d = owed r @ bb_content L n d'"
proof (cases rule: db_Update_cases [of L d "readAndClaim L n"])
  case (failed e)
  with assms show ?thesis by (auto simp: exec_pop_def Let_def owed_def)
next
  case (committed x d'')
  show ?thesis
  proof (cases x)
    case None
    with committed assms readAndClaim_empty(1) [OF assms(2), of d''] show ?thesis
      by (auto simp: exec_pop_def Let_def owed_def)
  next
    case (Some p)
    with committed assms readAndClaim_content [OF assms(1,2), of p d''] show ?thesis
      by (auto simp: exec_pop_def Let_def owed_def)
  qed
qed

lemma claim_event_lists [simp]:
  "stored [claim_event r] = []" "claimed [claim_event r] = owed r" "delivered [claim_event r] = []"
  by (simp_all add: claim_event_def owed_def)

lemma take_result_owed:
  "(r, rest) \<in> set (take_result i xs) \<Longrightarrow>
   mset (concat (map (\<lambda>(i, r). owed r) xs)) = mset (owed r) + mset (concat (map (\<lambda>(i, r). owed r) rest))"
proof -
  assume "(r, rest) \<in> set (take_result i xs)"
  then have "(i, r) \<in> set xs" "rest = remove1 (i, r) xs"
    by (cases "map_of xs i"; auto simp: take_result_def dest: map_of_SomeD)+
  then show ?thesis by (induction xs arbitrary: rest) auto
qed

lemma Push_step_frame:
  "(e, c', q') \<in> set (Push_step q ctx c) \<Longrightarrow>
   e = Silent \<and> bq_db q' = bq_db q \<and> bq_bucket q' = bq_bucket q \<and> outstanding q' = outstanding q"
  by (auto simp: Push_step_def go_simps outstanding_def split: client.splits)

lemma after_claim_frame:
  "after_claim r q = (e, c', q') \<Longrightarrow> q' = q \<and> stored [e] = [] \<and> claimed [e] = [] \<and> delivered [e] = owed r"
  by (auto simp: after_claim_def owed_def split: option.splits if_splits)

lemma Pop_step_frame:
  assumes "(e, c', q') \<in> set (Pop_step q ctx c)"
  shows "stored [e] = [] \<and> claimed [e] = [] \<and> bq_db q' = bq_db q \<and> bq_bucket q' = bq_bucket q \<and>
    mset (delivered [e]) + outstanding q' = outstanding q"
proof (cases "\<exists>i r rest. (r, rest) \<in> set (take_result i (bq_popResults q)) \<and>
    after_claim r (q\<lparr>bq_popResults := rest\<rparr>) = (e, c', q')")
  case True
  then show ?thesis by (auto dest!: after_claim_frame take_result_owed simp: outstanding_def)
next
  case False
  then have "e = Silent \<and> bq_db q' = bq_db q \<and> bq_bucket q' = bq_bucket q \<and> outstanding q' = outstanding q"
    using assms by (cases c) (auto simp: Pop_step_def Let_def go_simps outstanding_def split: if_splits dest: sym)
  then show ?thesis by simp
qed

lemma writeLoop_step_frame:
  assumes "bbolt_laws L" "q_ok L q" "\<not> bb_full L (bq_bucket q) (bq_db q)" "(e, q') \<in> set (writeLoop_step L q)"
  shows "bq_bucket q' = bq_bucket q \<and> q_ok L q' \<and> q_content L q @ stored [e] = claimed [e] @ q_content L q' \<and>
    delivered [e] = [] \<and> outstanding q' \<subseteq># mset (claimed [e]) + outstanding q"
proof (cases "bq_writer q")
  case WLoop
  show ?thesis
  proof (cases "e = Silent \<and> q' = q\<lparr>bq_writer := WReturned\<rparr>")
    case True
    with WLoop assms(2) show ?thesis by (simp add: outstanding_def)
  next
    case False
    with WLoop assms(4) obtain op rest where ops: "bq_writes q = op # rest"
      by (cases "bq_writes q") (auto simp: writeLoop_step_def go_simps)
    show ?thesis
    proof (cases op)
      case (opPush p i)
      obtain r d' where r: "exec_push L (bq_bucket q) p (bq_db q) = (r, d')" by fastforce
      with False WLoop assms(4) ops opPush have "e = (if r = None then Stored p else Silent)"
        "q' = q\<lparr>bq_writes := rest, bq_db := d', bq_writer := WPushed i r\<rparr>"
        by (auto simp: writeLoop_step_def go_simps)
      then show ?thesis using exec_push_content [OF assms(1-3) r] WLoop by (simp add: outstanding_def)
    next
      case (opPopAndAdvance i)
      obtain r d' where r: "exec_pop L (bq_bucket q) (bq_db q) = (r, d')" by fastforce
      with False WLoop assms(4) ops opPopAndAdvance have "e = claim_event r"
        "q' = q\<lparr>bq_writes := rest, bq_db := d', bq_writer := WClaimed i r\<rparr>"
        by (auto simp: writeLoop_step_def go_simps)
      then show ?thesis using exec_pop_content [OF assms(1,2) r] WLoop by (simp add: outstanding_def)
    qed
  qed
next
  case (WPushed i r)
  with assms(2,4) show ?thesis by (auto simp: writeLoop_step_def go_simps outstanding_def)
next
  case (WClaimed i r)
  with assms(2,4) show ?thesis by (auto simp: writeLoop_step_def go_simps outstanding_def)
next
  case WReturned
  with assms(4) show ?thesis by (simp add: writeLoop_step_def)
qed

lemma bb_step_frame:
  assumes "bb_step L s e s'" "bbolt_laws L" "q_ok L (fst s)"
  shows "q_ok L (fst s') \<and> q_content L (fst s) @ stored [e] = claimed [e] @ q_content L (fst s') \<and>
    mset (delivered [e]) + outstanding (fst s') \<subseteq># mset (claimed [e]) + outstanding (fst s)"
  using assms
proof cases
  case (push_call cl j c c' q' q ctx)
  with Push_step_frame [OF push_call(4)] assms(3) show ?thesis by simp
next
  case (pop_call cl j c c' q' q ctx)
  with Pop_step_frame [OF pop_call(4)] assms(3) show ?thesis by simp
next
  case (writer q q' cl)
  with writeLoop_step_frame [OF assms(2) _ writer(3,4)] assms(3) show ?thesis by auto
qed (auto simp: bq_Close_def bq_CloseDB_def outstanding_def)

lemma bb_run_frame:
  "bb_run L s es s' \<Longrightarrow> bbolt_laws L \<Longrightarrow> q_ok L (fst s) \<Longrightarrow>
   q_ok L (fst s') \<and> q_content L (fst s) @ stored es = claimed es @ q_content L (fst s') \<and>
   mset (delivered es) + outstanding (fst s') \<subseteq># mset (claimed es) + outstanding (fst s)"
proof (induction rule: bb_run.induct)
  case (step s e s1 es s')
  note a = bb_step_frame [OF step.hyps(1) step.prems]
  from a step have b: "q_ok L (fst s') \<and> q_content L (fst s1) @ stored es = claimed es @ q_content L (fst s')"
    "mset (delivered es) + outstanding (fst s') \<subseteq># mset (claimed es) + outstanding (fst s1)" by auto
  have "q_content L (fst s) @ stored (e # es) = (claimed [e] @ q_content L (fst s1)) @ stored es"
    using a by (simp add: event_lists_Cons(1) [of e es])
  also have "\<dots> = claimed (e # es) @ q_content L (fst s')"
    using b(1) by (simp add: event_lists_Cons(2) [of e es])
  finally have c: "q_content L (fst s) @ stored (e # es) = claimed (e # es) @ q_content L (fst s')" .
  have "mset (delivered [e]) + (mset (delivered es) + outstanding (fst s')) \<subseteq>#
      mset (delivered [e]) + (mset (claimed es) + outstanding (fst s1))" using b(2) by simp
  also have "\<dots> \<subseteq># mset (claimed es) + (mset (claimed [e]) + outstanding (fst s))"
    using a by (simp add: subset_mset.add_left_mono add.left_commute)
  finally have "mset (delivered (e # es)) + outstanding (fst s') \<subseteq># mset (claimed (e # es)) + outstanding (fst s)"
    by (simp add: event_lists_Cons(2,3) [of e es] ac_simps)
  with b(1) c show ?case by simp
qed simp

section \<open>Opening\<close>

lemma init_counter_get:
  assumes "bbolt_laws L" "init_counter L n k d = Inr d'"
  shows "d_Bucket L d' n = d_Bucket L d n \<and>
    d_Get L d' n k' = (if k' = k \<and> d_Get L d n k = None then Some (PutUint64 1) else d_Get L d n k')"
  using assms bbolt_laws_Put [OF assms(1), of d n k "PutUint64 1" d' k']
  by (auto simp: init_counter_def split: if_splits)

lemma init_bucket_get:
  assumes "bbolt_laws L" "init_bucket L n d = Inr (u, d')"
  shows "d_Bucket L d' n \<and>
    d_Get L d' n k = (let old = (if d_Bucket L d n then d_Get L d n k else None)
      in if (k = seqKey \<or> k = readKey) \<and> old = None then Some (PutUint64 1) else old)"
proof -
  from assms(2) obtain d1 d2 where d: "d_Create L d n = Inr d1" "init_counter L n seqKey d1 = Inr d2"
    "init_counter L n readKey d2 = Inr d'"
    by (auto simp: init_bucket_def res_Inr)
  show ?thesis
    using bbolt_laws_Create [OF assms(1) d(1)] init_counter_get [OF assms(1) d(2)] init_counter_get [OF assms(1) d(3), of k]
    by (auto simp: Let_def)
qed

lemma init_bucket_content:
  assumes "bbolt_laws L" "init_bucket L n d = Inr (u, d')" "\<not> d_Bucket L d n \<or> bb_ok L n d"
  shows "bb_ok L n d' \<and> bb_content L n d' = (if d_Bucket L d n then bb_content L n d else [])"
proof (cases "d_Bucket L d n")
  case True
  with assms(3) have ok: "bb_ok L n d" by simp
  have get: "d_Bucket L d' n" "d_Get L d' n k = d_Get L d n k" for k
    using init_bucket_get [OF assms(1,2), of k] True ok by (auto simp: bb_ok_def Let_def)
  then have eq: "bb_seq L n d' = bb_seq L n d" "bb_read L n d' = bb_read L n d" "bb_pending L n d' = bb_pending L n d"
    by (simp_all add: bb_seq_def bb_read_def bb_pending_def read_counter_def)
  have "bb_ok L n d'" using ok unfolding bb_ok_def get(2) eq using get(1) by blast
  moreover have "bb_content L n d' = bb_content L n d" by (simp add: bb_content_def eq get)
  ultimately show ?thesis using True by simp
next
  case False
  have get: "d_Bucket L d' n" "d_Get L d' n seqKey = Some (PutUint64 1)" "d_Get L d' n readKey = Some (PutUint64 1)"
    "d_Get L d' n (PutUint64 i) = None" for i
    using init_bucket_get [OF assms(1,2)] False by (simp_all add: Let_def)
  have "bb_pending L n d' = 0" using bb_eqI(3) [OF get(2,3)] by simp
  then show ?thesis using False get bb_eqI(1,2) [OF get(2,3)] by (simp add: bb_ok_def bb_content_def)
qed

lemma bb_Len_content:
  assumes "bb_ok L n d" "bb_read L n d \<le> bb_seq L n d" "bb_pending L n d < 2 ^ 63"
  shows "bb_Len L True n d = int (length (bb_content L n d))"
proof -
  have "sint (bb_seq L n d - bb_read L n d) = int (bb_pending L n d)"
    using sint_of_small [OF assms(3)] by (simp add: bb_pending_def)
  then show ?thesis using assms(1,2)
    by (simp add: bb_Len_def bb_ok_def bb_seq_def [symmetric] bb_read_def [symmetric] Let_def bb_content_def linorder_not_less [symmetric])
qed

lemma NewBboltQueue_opens:
  assumes "NewBboltQueue L path bucket = Inr q"
  obtains d where "d_Open L path = Inr d" "init_bucket L (bytes_of_string bucket) d = Inr ((), bq_db q)"
    "bq_bucket q = bytes_of_string bucket" "outstanding q = {#}" "\<not> bq_done q"
proof -
  obtain d where d: "d_Open L path = Inr d" using assms by (auto simp: NewBboltQueue_def try_then_Inr)
  show ?thesis
  proof (cases rule: db_Update_cases [of L d "init_bucket L (bytes_of_string bucket)"])
    case (failed e)
    with assms d show ?thesis by (simp add: NewBboltQueue_def store_def)
  next
    case (committed x d')
    with assms d have "q = \<lparr>bq_db = d', bq_bucket = bytes_of_string bucket, bq_writes = [], bq_done = False,
        bq_writer = WLoop, bq_open = True, bq_results = [], bq_popResults = [], bq_next = 0\<rparr>"
      by (simp add: NewBboltQueue_def store_def)
    with d committed(1) show ?thesis by (intro that) (simp_all add: outstanding_def)
  qed
qed

section \<open>Properties\<close>

text \<open>
  C5: a payload committed to the persistent queue is claimed at most once, and in order. In every
  interleaving of any number of producers, consumers, the writing goroutine and \<^verbatim>\<open>Close\<close>, what was in
  the queue followed by what was committed is exactly what was claimed followed by what is in the
  queue; and the payloads \<^verbatim>\<open>Pop\<close> returned are, with multiplicity, among the claimed ones.
\<close>

theorem bbolt_claims_once_in_order:
  assumes "bbolt_laws L" "NewBboltQueue L path bucket = Inr q0" "q_ok L q0" "bb_run L (q0, Map.empty) es (q, cl)"
  shows "q_content L q0 @ stored es = claimed es @ q_content L q \<and> mset (delivered es) \<subseteq># mset (claimed es)"
proof -
  have none: "outstanding q0 = {#}" using assms(2) by (rule NewBboltQueue_opens)
  have "q_content L q0 @ stored es = claimed es @ q_content L q"
    "mset (delivered es) + outstanding q \<subseteq># mset (claimed es)"
    using bb_run_frame [OF assms(4,1)] assms(3) none by simp_all
  moreover have "mset (delivered es) \<subseteq># mset (delivered es) + outstanding q" by simp
  ultimately show ?thesis by (blast intro: subset_mset.order_trans)
qed

definition mem_lib :: "(bytes \<Rightarrow> (bytes \<Rightarrow> bytes option) option) bboltlib" where
  "mem_lib = \<lparr>d_Open = (\<lambda>_. Inr (\<lambda>_. None)),
     d_Create = (\<lambda>d n. Inr (if d n = None then d(n \<mapsto> (\<lambda>_. None)) else d)),
     d_Bucket = (\<lambda>d n. d n \<noteq> None),
     d_Get = (\<lambda>d n k. case d n of None \<Rightarrow> None | Some b \<Rightarrow> b k),
     d_Put = (\<lambda>d n k v. case d n of None \<Rightarrow> Inl ''no bucket'' | Some b \<Rightarrow> Inr (d(n \<mapsto> b(k \<mapsto> v)))),
     d_Delete = (\<lambda>d n k. case d n of None \<Rightarrow> Inl ''no bucket'' | Some b \<Rightarrow> Inr (d(n \<mapsto> b(k := None)))),
     d_Commit = (\<lambda>_. None)\<rparr>"

lemma mem_laws: "bbolt_laws mem_lib"
  by (auto simp: bbolt_laws_def mem_lib_def split: option.splits if_splits)

definition mem_queue :: "(bytes \<Rightarrow> (bytes \<Rightarrow> bytes option) option) BboltQueue" where
  "mem_queue = \<lparr>bq_db = [bytes_of_string ''b'' \<mapsto> [seqKey \<mapsto> PutUint64 1, readKey \<mapsto> PutUint64 1]],
     bq_bucket = bytes_of_string ''b'', bq_writes = [], bq_done = False, bq_writer = WLoop,
     bq_open = True, bq_results = [], bq_popResults = [], bq_next = 0\<rparr>"

lemma mem_init: "init_bucket mem_lib n (\<lambda>_. None) = Inr ((), [n \<mapsto> [seqKey \<mapsto> PutUint64 1, readKey \<mapsto> PutUint64 1]])"
  by (simp add: init_bucket_def init_counter_def mem_lib_def store_def)

lemma mem_open: "NewBboltQueue mem_lib ''f'' ''b'' = Inr mem_queue"
  using mem_init by (simp add: NewBboltQueue_def db_Update_def mem_queue_def) (simp add: mem_lib_def store_def)

lemma mem_ok: "q_ok mem_lib mem_queue" "q_content mem_lib mem_queue = []"
  using init_bucket_content [OF mem_laws mem_init, of "bytes_of_string ''b''"]
  by (simp_all add: mem_queue_def) (simp_all add: mem_lib_def)

definition mem_queue' :: "(bytes \<Rightarrow> (bytes \<Rightarrow> bytes option) option) BboltQueue" where
  "mem_queue' = mem_queue\<lparr>bq_next := 1, bq_writer := WPushed 0 None, bq_db := [bytes_of_string ''b'' \<mapsto>
     [seqKey \<mapsto> PutUint64 1, readKey \<mapsto> PutUint64 1, PutUint64 1 \<mapsto> [7], seqKey \<mapsto> PutUint64 2]]\<rparr>"

lemma mem_push:
  "exec_push mem_lib (bq_bucket mem_queue) [7] (bq_db mem_queue) = (None, bq_db mem_queue')"
  by (simp add: exec_push_def db_Update_def writePush_def mem_queue_def mem_queue'_def mem_lib_def store_def Let_def)

lemma mem_run:
  "bb_run mem_lib (mem_queue, Map.empty) [Silent, Silent, Silent, Stored [7]] (mem_queue', [0 \<mapsto> PushWait 0])"
proof -
  define q1 where "q1 = mem_queue\<lparr>bq_writes := [opPush [7] 0], bq_next := 1\<rparr>"
  have 1: "bb_step mem_lib (mem_queue, Map.empty) Silent (mem_queue, Map.empty(0 \<mapsto> PushStart [7]))"
    by (rule bb_step.start_push) simp
  have 2: "bb_step mem_lib (mem_queue, Map.empty(0 \<mapsto> PushStart [7])) Silent
      (mem_queue, Map.empty(0 \<mapsto> PushStart [7], 0 \<mapsto> PushSend [7]))"
    by (rule bb_step.push_call [where ctx = None]) (auto simp: Push_step_def go_simps mem_queue_def)
  have 3: "bb_step mem_lib (mem_queue, [0 \<mapsto> PushSend [7]]) Silent
      (q1, Map.empty(0 \<mapsto> PushSend [7], 0 \<mapsto> PushWait 0))"
    by (rule bb_step.push_call [where ctx = None]) (auto simp: Push_step_def go_simps mem_queue_def q1_def)
  have "(Stored [7], mem_queue') \<in> set (writeLoop_step mem_lib q1)"
    using mem_push by (simp add: writeLoop_step_def q1_def) (simp add: mem_queue_def mem_queue'_def)
  moreover have "\<not> bb_full mem_lib (bq_bucket q1) (bq_db q1)"
    using mem_ok(2) by (simp add: bb_full_def bb_content_def q1_def)
  ultimately have 4: "bb_step mem_lib (q1, [0 \<mapsto> PushWait 0]) (Stored [7]) (mem_queue', [0 \<mapsto> PushWait 0])"
    by (intro bb_step.writer)
  from 1 2 3 4 show ?thesis by (auto intro!: bb_run.step bb_run.none)
qed

theorem bbolt_claims_once_in_order_witness:
  "q_content mem_lib mem_queue @ [[7]] = [] @ q_content mem_lib mem_queue' \<and> mset [] \<subseteq># (mset [] :: bytes multiset)"
  using bbolt_claims_once_in_order [OF mem_laws mem_open mem_ok(1) mem_run] by simp



end
