(* ===== verification/Queue_Redis.thy ===== *)
theory Queue_Redis
  imports Queue_Spec
begin

text \<open>
  The queue on a Redis list, \<^verbatim>\<open>pkg/executor/queue/redis.go\<close>. The client \<^verbatim>\<open>github.com/redis/go-redis\<close> is a
  parameter, the record \<open>redislib\<close> on a server state of type \<open>'r\<close>; \<open>redis_laws\<close> states what the commands
  do to a list: LPUSH puts at the left end, BRPOP takes from the right end, an error and a timeout
  leave it. Under these laws the queue meets the contract \<open>fifo_queue\<close>.

  \<^verbatim>\<open>Pop\<close> loops until it gets a payload, an error or the shutdown. Each round of the loop is given what
  its two selects find (\<open>done\<close> closed, the context done); the list of rounds bounds the loop, and a
  call that outlasts it has no outcome yet.
\<close>

datatype redis_reply = RNil | RErr string | RVals "bytes list"

record 'r redislib =
  r_ParseURL :: "string \<Rightarrow> string + 'r"
  r_LPush :: "'r \<Rightarrow> string \<Rightarrow> bytes \<Rightarrow> string option \<times> 'r"
  r_BRPop :: "'r \<Rightarrow> string \<Rightarrow> redis_reply \<times> 'r"
  r_LLen :: "'r \<Rightarrow> string \<Rightarrow> string + i64"
  r_list :: "'r \<Rightarrow> string \<Rightarrow> bytes list"

definition redis_laws :: "'r redislib \<Rightarrow> bool" where
  "redis_laws L \<longleftrightarrow>
     (\<forall>r k p e r'. r_LPush L r k p = (e, r') \<longrightarrow> r_list L r' k = (if e = None then p # r_list L r k else r_list L r k)) \<and>
     (\<forall>r k x r'. r_BRPop L r k = (x, r') \<longrightarrow>
        (case x of RVals vs \<Rightarrow> length vs = 2 \<and> r_list L r k = r_list L r' k @ [vs ! 1] | _ \<Rightarrow> r_list L r' k = r_list L r k))"

record 'r RedisQueue =
  rq_client :: 'r
  rq_key :: string
  rq_done :: bool

definition NewRedisQueue :: "'r redislib \<Rightarrow> string \<Rightarrow> string \<Rightarrow> string + 'r RedisQueue" where
  "NewRedisQueue L url key =
     (case r_ParseURL L url of
        Inl e \<Rightarrow> Inl (''queue: parse redis url: '' @ e)
      | Inr client \<Rightarrow> Inr \<lparr>rq_client = client, rq_key = key, rq_done = False\<rparr>)"

definition rq_Push :: "'r redislib \<Rightarrow> 'r RedisQueue \<Rightarrow> ctx \<Rightarrow> bytes \<Rightarrow> (queue_error option \<times> 'r RedisQueue) list" where
  "rq_Push L q ctx payload =
     select_default (ready_if (rq_done q) (Some ErrQueueClosed, q))
       (let (e, r') = r_LPush L (rq_client q) (rq_key q) payload
        in [(map_option StoreErr e, q\<lparr>rq_client := r'\<rparr>)])"

type_synonym redis_round = "(bool \<times> ctx) \<times> (bool \<times> ctx)"

definition stop_cases :: "bool \<times> ctx \<Rightarrow> 'q \<Rightarrow> ((queue_error + bytes) \<times> 'q) list" where
  "stop_cases dc q = ready_if (fst dc) (Inl ErrQueueClosed, q) @ ready_done (snd dc) (\<lambda>e. (Inl (CtxErr e), q))"

fun rq_Pop :: "'r redislib \<Rightarrow> 'r RedisQueue \<Rightarrow> redis_round list \<Rightarrow> ((queue_error + bytes) \<times> 'r RedisQueue) list" where
  "rq_Pop L q [] = []"
| "rq_Pop L q ((before, after) # rounds) =
     select_default (stop_cases before q)
       (case r_BRPop L (rq_client q) (rq_key q) of
          (RNil, r') \<Rightarrow> rq_Pop L (q\<lparr>rq_client := r'\<rparr>) rounds
        | (RErr e, r') \<Rightarrow>
            select_default (stop_cases after (q\<lparr>rq_client := r'\<rparr>))
              [(Inl (BrpopErr (''queue: brpop: '' @ e)), q\<lparr>rq_client := r'\<rparr>)]
        | (RVals vs, r') \<Rightarrow> [(Inr (vs ! 1), q\<lparr>rq_client := r'\<rparr>)])"

definition rq_Len :: "'r redislib \<Rightarrow> 'r RedisQueue \<Rightarrow> int" where
  "rq_Len L q = (case r_LLen L (rq_client q) (rq_key q) of Inl _ \<Rightarrow> 0 | Inr n \<Rightarrow> sint n)"

definition rq_Close :: "'r RedisQueue \<Rightarrow> 'r RedisQueue" where
  "rq_Close q = q\<lparr>rq_done := True\<rparr>"

section \<open>The contract\<close>

definition rq_content :: "'r redislib \<Rightarrow> 'r RedisQueue \<Rightarrow> bytes list" where
  "rq_content L q = rev (r_list L (rq_client q) (rq_key q))"

lemma redis_laws_LPush:
  "redis_laws L \<Longrightarrow> r_LPush L r k p = (e, r') \<Longrightarrow> r_list L r' k = (if e = None then p # r_list L r k else r_list L r k)"
  unfolding redis_laws_def by blast

lemma redis_laws_BRPop:
  "redis_laws L \<Longrightarrow> r_BRPop L r k = (x, r') \<Longrightarrow>
   (case x of RVals vs \<Rightarrow> length vs = 2 \<and> r_list L r k = r_list L r' k @ [vs ! 1] | _ \<Rightarrow> r_list L r' k = r_list L r k)"
  unfolding redis_laws_def by blast

lemma rq_Push_outcome:
  assumes "redis_laws L" "(e, q') \<in> set (rq_Push L q c p)"
  shows "rq_content L q' = rq_content L q @ (if e = None then [p] else [])"
proof -
  obtain x r' where r: "r_LPush L (rq_client q) (rq_key q) p = (x, r')" by fastforce
  from assms(2) r redis_laws_LPush [OF assms(1) r] show ?thesis
    by (auto simp: rq_Push_def go_simps rq_content_def)
qed

lemma rq_Pop_outcome:
  assumes "redis_laws L"
  shows "(x, q') \<in> set (rq_Pop L q rounds) \<Longrightarrow>
    (case x of Inr p \<Rightarrow> rq_content L q = p # rq_content L q' | Inl _ \<Rightarrow> rq_content L q' = rq_content L q)"
proof (induction rounds arbitrary: q)
  case (Cons ba rounds)
  obtain before after where ba: "ba = (before, after)" by (cases ba)
  obtain rep r' where r: "r_BRPop L (rq_client q) (rq_key q) = (rep, r')" by fastforce
  note law = redis_laws_BRPop [OF assms r]
  show ?case
  proof (cases "(x, q') \<in> set (stop_cases before q)")
    case True
    then show ?thesis by (auto simp: stop_cases_def go_simps)
  next
    case False
    with Cons.prems r ba have o: "(x, q') \<in> set (case rep of RNil \<Rightarrow> rq_Pop L (q\<lparr>rq_client := r'\<rparr>) rounds
        | RErr e \<Rightarrow> select_default (stop_cases after (q\<lparr>rq_client := r'\<rparr>))
              [(Inl (BrpopErr (''queue: brpop: '' @ e)), q\<lparr>rq_client := r'\<rparr>)]
        | RVals vs \<Rightarrow> [(Inr (vs ! 1), q\<lparr>rq_client := r'\<rparr>)])"
      by (auto simp: in_select_default split: redis_reply.splits)
    show ?thesis
    proof (cases rep)
      case RNil
      with Cons.IH [of "q\<lparr>rq_client := r'\<rparr>"] o law show ?thesis by (auto simp: rq_content_def split: sum.splits)
    next
      case (RErr e)
      with o law show ?thesis by (auto simp: go_simps stop_cases_def rq_content_def)
    next
      case (RVals vs)
      with o law show ?thesis by (simp add: rq_content_def)
    qed
  qed
qed simp

text \<open>For every list of rounds that a call may see.\<close>

lemma redis_fifo:
  assumes "redis_laws L"
  shows "fifo_queue (rq_content L) (\<lambda>_. True) (\<lambda>_. False) (rq_Push L) (\<lambda>q ctx. rq_Pop L q (rounds q ctx)) rq_Close"
proof
  fix q q' c p e
  show "True \<and> rq_content L q' = rq_content L q @ [p]" if "(None, q') \<in> set (rq_Push L q c p)"
    using rq_Push_outcome [OF assms that] by simp
  show "True \<and> rq_content L q' = rq_content L q" if "(Some e, q') \<in> set (rq_Push L q c p)"
    using rq_Push_outcome [OF assms that] by simp
  show "True \<and> rq_content L q = p # rq_content L q'" if "(Inr p, q') \<in> set (rq_Pop L q (rounds q c))"
    using rq_Pop_outcome [OF assms that] by simp
  show "True \<and> rq_content L q' = rq_content L q" if "(Inl e, q') \<in> set (rq_Pop L q (rounds q c))"
    using rq_Pop_outcome [OF assms that] by simp
  show "True \<and> rq_content L (rq_Close q) = rq_content L q"
    by (simp add: rq_Close_def rq_content_def)
qed

end
