(* ===== verification/Channel_Switch.thy ===== *)
theory Channel_Switch
  imports Queue_Memory Queue_Bbolt Queue_Redis
begin

text \<open>
  The named channel switch, \<^verbatim>\<open>pkg/ncs/channelswitch.go\<close>, which connects the sinks of the pipelines with
  the executors through named queues. The two package variables \<^verbatim>\<open>ncsQueues\<close> and \<^verbatim>\<open>ncsRefs\<close> are two maps;
  queues are shared objects, so the first map holds addresses into a store of queues, which the
  holders of a queue go on using. Every function runs under the lock and is one step.

  The lemmas show that the reference counter of a name is the number of its attached writers, that a
  registered queue is open, and that a queue is closed when its last writer detaches.
\<close>

section \<open>Queues of any backend\<close>

datatype ('d, 'r) NQueue = MemQ MemoryQueue | BboltQ "'d BboltQueue" | RedisQ "'r RedisQueue"

fun nq_Close :: "('d, 'r) NQueue \<Rightarrow> ('d, 'r) NQueue" where
  "nq_Close (MemQ q) = MemQ (mq_Close q)"
| "nq_Close (BboltQ q) = BboltQ (bq_Close q)"
| "nq_Close (RedisQ q) = RedisQ (rq_Close q)"

fun nq_closed :: "('d, 'r) NQueue \<Rightarrow> bool" where
  "nq_closed (MemQ q) = mq_closed q"
| "nq_closed (BboltQ q) = bq_done q"
| "nq_closed (RedisQ q) = rq_done q"

lemma nq_closed_Close [simp]: "nq_closed (nq_Close q)"
  by (cases q) (simp_all add: mq_Close_def bq_Close_def rq_Close_def)

section \<open>The switch\<close>

record ('d, 'r) Switch =
  ncsQueues :: "string \<rightharpoonup> nat"
  ncsRefs :: "string \<rightharpoonup> int"
  ncsHeap :: "('d, 'r) NQueue list"

definition ncs0 :: "('d, 'r) Switch" where
  "ncs0 = \<lparr>ncsQueues = Map.empty, ncsRefs = Map.empty, ncsHeap = []\<rparr>"

datatype ncs_error =
    BboltQueueErr string string queue_error
  | RedisQueueErr string string string
  | UnknownQueueType string string
  | SourceNotFound string
  | NcsPanic

text \<open>Reading a missing key of the map of counters gives 0.\<close>

definition refs_of :: "('d, 'r) Switch \<Rightarrow> string \<Rightarrow> int" where
  "refs_of s name = (case ncsRefs s name of None \<Rightarrow> 0 | Some n \<Rightarrow> n)"

definition new_queue :: "('d, 'r) NQueue \<Rightarrow> ('d, 'r) Switch \<Rightarrow> nat \<times> ('d, 'r) Switch" where
  "new_queue q s = (length (ncsHeap s), s\<lparr>ncsHeap := ncsHeap s @ [q]\<rparr>)"

definition AttachWriter :: "string \<Rightarrow> int \<Rightarrow> ('d, 'r) Switch \<Rightarrow> nat \<times> ('d, 'r) Switch" where
  "AttachWriter name bufferSize s =
     (let n = (if bufferSize \<le> 0 then 1000 else bufferSize)
      in case ncsQueues s name of
           Some q \<Rightarrow> (q, s\<lparr>ncsRefs := (ncsRefs s)(name \<mapsto> refs_of s name + 1)\<rparr>)
         | None \<Rightarrow>
             let (q, s1) = new_queue (MemQ (NewMemoryQueue n)) s
             in (q, s1\<lparr>ncsQueues := (ncsQueues s1)(name \<mapsto> q), ncsRefs := (ncsRefs s1)(name \<mapsto> 1)\<rparr>))"

definition AttachWriterWithQueue :: "string \<Rightarrow> nat \<Rightarrow> ('d, 'r) Switch \<Rightarrow> ('d, 'r) Switch" where
  "AttachWriterWithQueue name q s =
     (case ncsQueues s name of
        Some _ \<Rightarrow> s\<lparr>ncsRefs := (ncsRefs s)(name \<mapsto> refs_of s name + 1)\<rparr>
      | None \<Rightarrow> s\<lparr>ncsQueues := (ncsQueues s)(name \<mapsto> q), ncsRefs := (ncsRefs s)(name \<mapsto> 1)\<rparr>)"

definition RegisterSinkFromConfig ::
  "'d bboltlib \<Rightarrow> 'r redislib \<Rightarrow> string \<Rightarrow> QueueConfig option \<Rightarrow> ('d, 'r) Switch \<Rightarrow> ncs_error option \<times> ('d, 'r) Switch" where
  "RegisterSinkFromConfig B R name cfg s =
     (case cfg of
        None \<Rightarrow> (None, snd (AttachWriter name 0 s))
      | Some c \<Rightarrow>
          if qc_Type c = QueueTypeMemory \<or> qc_Type c = [] then (None, snd (AttachWriter name 0 s))
          else if qc_Type c = QueueTypeBbolt then
            (case EffectiveBucket c of
               None \<Rightarrow> (Some NcsPanic, s)
             | Some bucket \<Rightarrow>
                 (case NewBboltQueue B (qc_Path c) bucket of
                    Inl e \<Rightarrow> (Some (BboltQueueErr name (qc_Path c) e), s)
                  | Inr q \<Rightarrow> let (i, s1) = new_queue (BboltQ q) s in (None, AttachWriterWithQueue name i s1)))
          else if qc_Type c = QueueTypeRedis then
            (case EffectiveKey c name of
               None \<Rightarrow> (Some NcsPanic, s)
             | Some key \<Rightarrow>
                 (case NewRedisQueue R (qc_URL c) key of
                    Inl e \<Rightarrow> (Some (RedisQueueErr name (qc_URL c) e), s)
                  | Inr q \<Rightarrow> let (i, s1) = new_queue (RedisQ q) s in (None, AttachWriterWithQueue name i s1)))
          else (Some (UnknownQueueType (qc_Type c) name), s))"

definition AttachReader :: "string \<Rightarrow> ('d, 'r) Switch \<Rightarrow> ncs_error + nat" where
  "AttachReader name s = (case ncsQueues s name of None \<Rightarrow> Inl (SourceNotFound name) | Some q \<Rightarrow> Inr q)"

definition DetachWriter :: "string \<Rightarrow> ('d, 'r) Switch \<Rightarrow> ('d, 'r) Switch" where
  "DetachWriter name s =
     (if 1 < refs_of s name then s\<lparr>ncsRefs := (ncsRefs s)(name \<mapsto> refs_of s name - 1)\<rparr>
      else case ncsQueues s name of
             None \<Rightarrow> s
           | Some q \<Rightarrow>
               s\<lparr>ncsHeap := (ncsHeap s)[q := nq_Close (ncsHeap s ! q)],
                 ncsQueues := (ncsQueues s)(name := None), ncsRefs := (ncsRefs s)(name := None)\<rparr>)"

section \<open>Histories\<close>

text \<open>
  The calls of a run, with the effect that counts: a writer attached (by \<^verbatim>\<open>AttachWriter\<close> or by a
  registration that succeeded), a writer detached, or anything else: a registration that failed, or a
  holder of a queue using it.
\<close>

datatype ncs_event = Attached string | Detached string | Other

text \<open>A use of a queue changes that queue and leaves it open or closed as it was.\<close>

definition uses :: "('d, 'r) NQueue \<Rightarrow> ('d, 'r) NQueue \<Rightarrow> bool" where
  "uses q q' \<longleftrightarrow> nq_closed q' = nq_closed q \<and>
     (case q of MemQ m \<Rightarrow> (\<exists>m' c p r. q' = MemQ m' \<and> ((r, m') \<in> set (mq_Push m c p) \<or>
          (\<exists>x. (x, m') \<in> set (mq_Pop m c))))
      | BboltQ _ \<Rightarrow> (\<exists>b. q' = BboltQ b) | RedisQ _ \<Rightarrow> (\<exists>b. q' = RedisQ b))"

inductive ncs_run :: "'d bboltlib \<Rightarrow> 'r redislib \<Rightarrow> ncs_event list \<Rightarrow> ('d, 'r) Switch \<Rightarrow> bool" for B R where
  start: "ncs_run B R [] ncs0"
| attach: "ncs_run B R es s \<Longrightarrow> ncs_run B R (Attached name # es) (snd (AttachWriter name b s))"
| register: "ncs_run B R es s \<Longrightarrow> RegisterSinkFromConfig B R name cfg s = (None, s') \<Longrightarrow>
    ncs_run B R (Attached name # es) s'"
| refused: "ncs_run B R es s \<Longrightarrow> RegisterSinkFromConfig B R name cfg s = (Some e, s') \<Longrightarrow> ncs_run B R (Other # es) s'"
| detach: "ncs_run B R es s \<Longrightarrow> ncs_run B R (Detached name # es) (DetachWriter name s)"
| use: "ncs_run B R es s \<Longrightarrow> i < length (ncsHeap s) \<Longrightarrow> uses (ncsHeap s ! i) q \<Longrightarrow>
    ncs_run B R (Other # es) (s\<lparr>ncsHeap := (ncsHeap s)[i := q]\<rparr>)"

text \<open>The writers of a name, in a history with the newest call first.\<close>

fun writers :: "ncs_event list \<Rightarrow> string \<Rightarrow> nat" where
  "writers [] n = 0"
| "writers (Attached m # es) n = writers es n + (if m = n then 1 else 0)"
| "writers (Detached m # es) n = writers es n - (if m = n then 1 else 0)"
| "writers (Other # es) n = writers es n"

section \<open>The invariant\<close>

text \<open>
  Counters and queues belong to the same names; the counters are those of the history; the queues of
  different names are different and open; an in-memory queue that no name has is closed.
\<close>

definition ncs_ok :: "(string \<Rightarrow> nat) \<Rightarrow> ('d, 'r) Switch \<Rightarrow> bool" where
  "ncs_ok ws s \<longleftrightarrow>
     (\<forall>n. ncsRefs s n = (if ws n = 0 then None else Some (int (ws n)))) \<and>
     (\<forall>n. ncsQueues s n \<noteq> None \<longleftrightarrow> 0 < ws n) \<and>
     (\<forall>n i. ncsQueues s n = Some i \<longrightarrow> i < length (ncsHeap s) \<and> \<not> nq_closed (ncsHeap s ! i)) \<and>
     (\<forall>n m i. ncsQueues s n = Some i \<longrightarrow> ncsQueues s m = Some i \<longrightarrow> n = m) \<and>
     (\<forall>i m. i < length (ncsHeap s) \<longrightarrow> ncsHeap s ! i = MemQ m \<longrightarrow> mq_closed m \<or> (\<exists>n. ncsQueues s n = Some i))"

lemma ncs_okD:
  assumes "ncs_ok ws s"
  shows "ncsRefs s n = (if ws n = 0 then None else Some (int (ws n)))" "ncsQueues s n \<noteq> None \<longleftrightarrow> 0 < ws n"
    "ncsQueues s n = Some i \<Longrightarrow> i < length (ncsHeap s) \<and> \<not> nq_closed (ncsHeap s ! i)"
    "ncsQueues s n = Some i \<Longrightarrow> ncsQueues s m = Some i \<Longrightarrow> n = m"
    "i < length (ncsHeap s) \<Longrightarrow> ncsHeap s ! i = MemQ q \<Longrightarrow> mq_closed q \<or> (\<exists>n. ncsQueues s n = Some i)"
    "refs_of s n = int (ws n)"
  using assms unfolding ncs_ok_def refs_of_def by (blast | simp)+

lemma ncs_okI:
  assumes "\<And>n. ncsRefs s n = (if ws n = 0 then None else Some (int (ws n)))"
    "\<And>n. ncsQueues s n \<noteq> None \<longleftrightarrow> 0 < ws n"
    "\<And>n i. ncsQueues s n = Some i \<Longrightarrow> i < length (ncsHeap s) \<and> \<not> nq_closed (ncsHeap s ! i)"
    "\<And>n m i. ncsQueues s n = Some i \<Longrightarrow> ncsQueues s m = Some i \<Longrightarrow> n = m"
    "\<And>i m. i < length (ncsHeap s) \<Longrightarrow> ncsHeap s ! i = MemQ m \<Longrightarrow> mq_closed m \<or> (\<exists>n. ncsQueues s n = Some i)"
  shows "ncs_ok ws s"
  using assms unfolding ncs_ok_def by blast

lemma fan_in_ok:
  assumes "ncs_ok ws s" "ncsQueues s name = Some i"
  shows "ncs_ok (ws(name := ws name + 1)) (s\<lparr>ncsRefs := (ncsRefs s)(name \<mapsto> refs_of s name + 1)\<rparr>)"
proof -
  have "0 < ws name" using ncs_okD(2) [OF assms(1), of name] assms(2) by simp
  with assms(1) ncs_okD(6) [OF assms(1), of name] show ?thesis unfolding ncs_ok_def by simp
qed

text \<open>A queue that is fresh and open, put under a free name.\<close>

lemma fresh_ok:
  assumes ok: "ncs_ok ws s" and free: "ncsQueues s name = None" and q: "\<not> nq_closed q"
  shows "ncs_ok (ws(name := ws name + 1)) (s\<lparr>ncsHeap := ncsHeap s @ [q],
     ncsQueues := (ncsQueues s)(name \<mapsto> length (ncsHeap s)), ncsRefs := (ncsRefs s)(name \<mapsto> 1)\<rparr>)"
proof -
  have z: "ws name = 0" using ncs_okD(2) [OF ok, of name] free by simp
  have lt: "i < length (ncsHeap s)" "\<not> nq_closed (ncsHeap s ! i)" if "ncsQueues s n = Some i" for n i
    using ncs_okD(3) [OF ok that] by simp_all
  show ?thesis
  proof (rule ncs_okI, goal_cases)
    case (3 n i)
    then show ?case using lt [of n i] q by (auto simp: nth_append split: if_splits)
  next
    case (4 n m i)
    then show ?case using ncs_okD(4) [OF ok, of n i m] by (auto split: if_splits dest: lt(1))
  next
    case (5 i m)
    show ?case
    proof (cases "i = length (ncsHeap s)")
      case True
      then have "((ncsQueues s)(name \<mapsto> length (ncsHeap s))) name = Some i" by simp
      then show ?thesis by auto
    next
      case False
      with 5 ncs_okD(5) [OF ok, of i m] have "mq_closed m \<or> (\<exists>n. ncsQueues s n = Some i)" by (simp add: nth_append)
      then show ?thesis using free by auto (metis option.distinct(1))
    qed
  qed (use ncs_okD(1,2) [OF ok] z in \<open>simp_all\<close>)
qed

text \<open>A queue made and then ignored because the name is taken: an in-memory queue is never made then.\<close>

lemma ignored_ok:
  assumes "ncs_ok ws s" "\<And>m. q \<noteq> MemQ m"
  shows "ncs_ok ws (s\<lparr>ncsHeap := ncsHeap s @ [q]\<rparr>)"
  using assms ncs_okD(3) [OF assms(1)] unfolding ncs_ok_def
  by (auto simp: nth_append less_Suc_eq)

lemma AttachWriter_ok:
  assumes "ncs_ok ws s"
  shows "ncs_ok (ws(name := ws name + 1)) (snd (AttachWriter name b s))"
proof (cases "ncsQueues s name")
  case None
  then show ?thesis using fresh_ok [OF assms None, of "MemQ (NewMemoryQueue n)" for n]
    by (simp add: AttachWriter_def new_queue_def Let_def NewMemoryQueue_def)
next
  case (Some i)
  then show ?thesis using fan_in_ok [OF assms Some] by (simp add: AttachWriter_def Let_def)
qed

lemma AttachWriterWithQueue_ok:
  assumes "ncs_ok ws s" "new_queue q s = (i, s1)" "\<not> nq_closed q" "\<And>m. q \<noteq> MemQ m"
  shows "ncs_ok (ws(name := ws name + 1)) (AttachWriterWithQueue name i s1)"
proof (cases "ncsQueues s name")
  case None
  then show ?thesis using fresh_ok [OF assms(1) None assms(3)] assms(2)
    by (auto simp: AttachWriterWithQueue_def new_queue_def)
next
  case (Some j)
  have "ncs_ok ws s1" "ncsQueues s1 name = Some j" "i = length (ncsHeap s)"
    using ignored_ok [OF assms(1), of q] assms(2,4) Some by (auto simp: new_queue_def)
  with fan_in_ok [of ws s1 name j] show ?thesis by (simp add: AttachWriterWithQueue_def)
qed

lemma RegisterSinkFromConfig_cases:
  assumes "RegisterSinkFromConfig B R name cfg s = (e, s')"
  obtains (failed) x where "e = Some x" "s' = s"
  | (memory) "e = None" "s' = snd (AttachWriter name 0 s)"
  | (backend) q i s1 where "e = None" "new_queue q s = (i, s1)" "\<not> nq_closed q" "\<And>m. q \<noteq> MemQ m"
      "s' = AttachWriterWithQueue name i s1"
proof -
  have bb: "\<not> nq_closed (BboltQ q)" if "NewBboltQueue B path bucket = Inr q" for path bucket q
    using that by (rule NewBboltQueue_opens) simp
  have rr: "\<not> nq_closed (RedisQ q)" if "NewRedisQueue R url key = Inr q" for url key q
    using that by (auto simp: NewRedisQueue_def split: sum.splits)
  show ?thesis
  proof (cases cfg)
    case None
    with assms memory show ?thesis by (simp add: RegisterSinkFromConfig_def)
  next
    case (Some c)
    consider "qc_Type c = QueueTypeMemory \<or> qc_Type c = []" | "qc_Type c = QueueTypeBbolt"
      | "qc_Type c = QueueTypeRedis"
      | "\<not> (qc_Type c = QueueTypeMemory \<or> qc_Type c = [])" "qc_Type c \<noteq> QueueTypeBbolt" "qc_Type c \<noteq> QueueTypeRedis" by blast
    then show ?thesis
    proof cases
      case 1
      with assms Some memory show ?thesis by (simp add: RegisterSinkFromConfig_def)
    next
      case 2
      show ?thesis
      proof (cases "\<exists>b q. EffectiveBucket c = Some b \<and> NewBboltQueue B (qc_Path c) b = Inr q")
        case True
        then obtain b q where "EffectiveBucket c = Some b" "NewBboltQueue B (qc_Path c) b = Inr q" by blast
        with assms Some 2 bb show ?thesis
          by (intro backend [of "BboltQ q"]) (auto simp: RegisterSinkFromConfig_def new_queue_def)
      next
        case False
        with assms Some 2 failed show ?thesis
          by (auto simp: RegisterSinkFromConfig_def split: option.splits sum.splits)
      qed
    next
      case 3
      show ?thesis
      proof (cases "\<exists>k q. EffectiveKey c name = Some k \<and> NewRedisQueue R (qc_URL c) k = Inr q")
        case True
        then obtain k q where "EffectiveKey c name = Some k" "NewRedisQueue R (qc_URL c) k = Inr q" by blast
        with assms Some 3 rr show ?thesis
          by (intro backend [of "RedisQ q"]) (auto simp: RegisterSinkFromConfig_def new_queue_def)
      next
        case False
        with assms Some 3 failed show ?thesis
          by (auto simp: RegisterSinkFromConfig_def split: option.splits sum.splits)
      qed
    next
      case 4
      with assms Some failed show ?thesis by (auto simp: RegisterSinkFromConfig_def)
    qed
  qed
qed

lemma DetachWriter_ok:
  assumes ok: "ncs_ok ws s"
  shows "ncs_ok (ws(name := ws name - 1)) (DetachWriter name s)"
proof (cases "1 < ws name")
  case True
  with ok ncs_okD(6) [OF ok, of name] show ?thesis by (auto simp: DetachWriter_def ncs_ok_def)
next
  case False
  show ?thesis
  proof (cases "ncsQueues s name")
    case None
    with ncs_okD(2) [OF ok, of name] have "ws name = 0" by simp
    with ok None ncs_okD(6) [OF ok, of name] show ?thesis by (simp add: DetachWriter_def fun_upd_idem)
  next
    case (Some q)
    then have one: "ws name = 1" using False ncs_okD(2) [OF ok, of name] by simp
    have s': "DetachWriter name s = s\<lparr>ncsHeap := (ncsHeap s)[q := nq_Close (ncsHeap s ! q)],
        ncsQueues := (ncsQueues s)(name := None), ncsRefs := (ncsRefs s)(name := None)\<rparr>"
      using Some one ncs_okD(6) [OF ok, of name] by (simp add: DetachWriter_def)
    have other: "i \<noteq> q" if "n \<noteq> name" "ncsQueues s n = Some i" for n i
      using ncs_okD(4) [OF ok that(2)] Some that(1) by metis
    have closed: "mq_closed m \<or> (\<exists>n. n \<noteq> name \<and> ncsQueues s n = Some i)"
      if "i < length (ncsHeap s)" "(ncsHeap s)[q := nq_Close (ncsHeap s ! q)] ! i = MemQ m" for i m
    proof (cases "i = q")
      case True
      with that show ?thesis using nq_closed_Close [of "ncsHeap s ! q"] by simp
    next
      case False
      with that ncs_okD(5) [OF ok, of i m] Some show ?thesis by auto (metis option.inject)
    qed
    have still: "i < length (ncsHeap s) \<and> \<not> nq_closed ((ncsHeap s)[q := nq_Close (ncsHeap s ! q)] ! i)"
      if "n \<noteq> name" "ncsQueues s n = Some i" for n i
      using ncs_okD(3) [OF ok that(2)] other [OF that] by simp
    show ?thesis unfolding s'
    proof (rule ncs_okI, goal_cases)
      case (3 n i)
      then show ?case using still [of n i] by (simp split: if_splits)
    next
      case (4 n m i)
      then show ?case using ncs_okD(4) [OF ok, of n i m] by (simp split: if_splits)
    next
      case (5 i m)
      then show ?case using closed [of i m] by (simp add: conj_commute) blast
    qed (use ncs_okD(1,2) [OF ok] one in \<open>simp_all\<close>)
  qed
qed

lemma use_ok:
  assumes "ncs_ok ws s" "i < length (ncsHeap s)" "uses (ncsHeap s ! i) q"
  shows "ncs_ok ws (s\<lparr>ncsHeap := (ncsHeap s)[i := q]\<rparr>)"
proof -
  have c: "nq_closed q = nq_closed (ncsHeap s ! i)" using assms(3) by (simp add: uses_def)
  have m: "\<exists>m'. ncsHeap s ! i = MemQ m' \<and> mq_closed m' = mq_closed m" if "q = MemQ m" for m
    using assms(3) that by (cases "ncsHeap s ! i") (auto simp: uses_def)
  show ?thesis using assms(1,2) ncs_okD(3,5) [OF assms(1)] c m unfolding ncs_ok_def
    by (auto simp: nth_list_update split: if_splits) metis+
qed

lemma writers_Attached: "writers (Attached name # es) = (writers es)(name := writers es name + 1)"
  and writers_Detached: "writers (Detached name # es) = (writers es)(name := writers es name - 1)"
  and writers_Other: "writers (Other # es) = writers es"
  by (auto simp: fun_eq_iff)

lemma ncs_run_ok: "ncs_run B R es s \<Longrightarrow> ncs_ok (writers es) s"
proof (induction rule: ncs_run.induct)
  case start
  then show ?case by (simp add: ncs_ok_def ncs0_def)
next
  case (attach es s name b)
  show ?case unfolding writers_Attached by (rule AttachWriter_ok [OF attach.IH])
next
  case (register es s name cfg s')
  from register.hyps(2) show ?case unfolding writers_Attached
  proof (cases rule: RegisterSinkFromConfig_cases)
    case memory
    then show "ncs_ok ((writers es)(name := writers es name + 1)) s'"
      using AttachWriter_ok [OF register.IH] by blast
  next
    case backend
    then show "ncs_ok ((writers es)(name := writers es name + 1)) s'"
      using AttachWriterWithQueue_ok [OF register.IH] by blast
  qed simp
next
  case (refused es s name cfg e s')
  from refused.hyps(2) refused.IH show ?case
    unfolding writers_Other by (cases rule: RegisterSinkFromConfig_cases) simp_all
next
  case (detach es s name)
  show ?case unfolding writers_Detached by (rule DetachWriter_ok [OF detach.IH])
next
  case (use es s i q)
  show ?case unfolding writers_Other by (rule use_ok [OF use.IH use.hyps(2,3)])
qed

section \<open>Properties\<close>

text \<open>
  C11: a named queue lives exactly as long as it has writers. In every history, a reader finds a queue
  under a name exactly when some writer is attached; that queue is open and its counter is the
  number of writers; detaching a writer closes the queue and frees the name exactly when it was the
  last one.
\<close>

theorem switch_closes_at_last_detach:
  assumes "ncs_run B R es s" "AttachReader n s = r"
  shows "refs_of s n = int (writers es n) \<and>
    (case r of
       Inl e \<Rightarrow> writers es n = 0
     | Inr i \<Rightarrow> 0 < writers es n \<and> \<not> nq_closed (ncsHeap s ! i) \<and>
         (nq_closed (ncsHeap (DetachWriter n s) ! i) \<longleftrightarrow> writers es n = 1) \<and>
         AttachReader n (DetachWriter n s) = (if writers es n = 1 then Inl (SourceNotFound n) else Inr i))"
proof (cases "ncsQueues s n")
  case None
  with assms ncs_okD(2,6) [OF ncs_run_ok [OF assms(1)], of n] show ?thesis by (auto simp: AttachReader_def)
next
  case (Some i)
  with assms ncs_okD(2,6) [OF ncs_run_ok [OF assms(1)], of n] ncs_okD(3) [OF ncs_run_ok [OF assms(1)] Some]
  show ?thesis by (auto simp: AttachReader_def DetachWriter_def)
qed

lemma demo_ncs_run:
  "ncs_run mem_lib R [Attached ''a'', Attached ''a''] (snd (AttachWriter ''a'' 0 (snd (AttachWriter ''a'' 5 ncs0))))"
  by (intro ncs_run.attach ncs_run.start)

theorem switch_closes_at_last_detach_witness:
  "refs_of (snd (AttachWriter ''a'' 0 (snd (AttachWriter ''a'' 5 (ncs0 :: (bytes \<Rightarrow> (bytes \<Rightarrow> bytes option) option, unit) Switch))))) ''a'' =
     int (writers [Attached ''a'', Attached ''a''] ''a'')"
  using switch_closes_at_last_detach [OF demo_ncs_run refl] by blast

end
