(* ===== verification/Plugin_Registry.thy ===== *)
theory Plugin_Registry
  imports Go_Prelude "HOL-Library.AList"
begin

text \<open>
  The plugin registries: the generic store of \<^verbatim>\<open>pkg/pluginregistry/registry.go\<close> and the wrappers around
  it that build sources, sinks, detectors, processors and executors by name. The maps of the store are
  association lists without repeated keys; the panic on a duplicate is the result \<open>None\<close>. Factories
  are opaque functions, as they are for the store. The plugin of an external binary
  (\<^verbatim>\<open>execplugin.NewDetector\<close>, \<^verbatim>\<open>execplugin.NewExecutor\<close>) starts a process; it is an argument.

  The locale \<open>name_store\<close> is what the wrappers need of the store, and shows that a lookup returns what
  was registered last and not deleted since, in every history.
\<close>

section \<open>The generic store\<close>

record ('f, 'm) Registry =
  factories :: "(string \<times> 'f) list"
  manifests :: "(string \<times> 'm) list"

definition NewRegistry :: "('f, 'm) Registry" where
  "NewRegistry = \<lparr>factories = [], manifests = []\<rparr>"

definition reg_Register :: "('f, 'm) Registry \<Rightarrow> string \<Rightarrow> 'f \<Rightarrow> ('f, 'm) Registry option" where
  "reg_Register r name f =
     (if map_of (factories r) name \<noteq> None then None
      else Some (r\<lparr>factories := AList.update name f (factories r)\<rparr>))"

definition reg_Get :: "('f, 'm) Registry \<Rightarrow> string \<Rightarrow> 'f option" where
  "reg_Get r name = map_of (factories r) name"

definition reg_Names :: "('f, 'm) Registry \<Rightarrow> string list" where
  "reg_Names r = sort (map fst (factories r))"

definition reg_RegisterManifest :: "('f, 'm) Registry \<Rightarrow> string \<Rightarrow> 'm \<Rightarrow> ('f, 'm) Registry option" where
  "reg_RegisterManifest r name m =
     (if map_of (manifests r) name \<noteq> None then None
      else Some (r\<lparr>manifests := AList.update name m (manifests r)\<rparr>))"

definition reg_ManifestByName :: "('f, 'm) Registry \<Rightarrow> string \<Rightarrow> 'm option" where
  "reg_ManifestByName r name = map_of (manifests r) name"

definition reg_Delete :: "('f, 'm) Registry \<Rightarrow> string \<Rightarrow> ('f, 'm) Registry" where
  "reg_Delete r name =
     r\<lparr>factories := AList.delete name (factories r), manifests := AList.delete name (manifests r)\<rparr>"

definition reg_ok :: "('f, 'm) Registry \<Rightarrow> bool" where
  "reg_ok r = (distinct (map fst (factories r)) \<and> distinct (map fst (manifests r)))"

section \<open>The wrappers\<close>

datatype build_failure = UnknownPlugin string "string list" | FactoryError string

record SinkConfig =
  sc_Type :: string
  sc_Name :: string
  sc_Path :: string
  sc_Format :: string
  sc_Exec :: string

record 'p DetectorConfig =
  dc_Enabled :: bool
  dc_Params :: "(string \<times> 'p) list"
  dc_Exec :: string

record 'p ProcessorConfig =
  pc_Enabled :: bool
  pc_Params :: "(string \<times> 'p) list"

record 'p ExecutorConfig =
  ec_Name :: string
  ec_Type :: string
  ec_Exec :: string
  ec_Params :: "(string \<times> 'p) list"
  ec_Config :: "(string \<times> 'p) list"

definition source_Build ::
  "('cfg \<Rightarrow> 'opts \<Rightarrow> build_failure + 's, 'm) Registry \<Rightarrow> string \<Rightarrow> 'cfg \<Rightarrow> 'opts \<Rightarrow> build_failure + 's" where
  "source_Build reg name cfg opts =
     (case reg_Get reg name of
        None \<Rightarrow> Inl (UnknownPlugin name (reg_Names reg))
      | Some f \<Rightarrow> f cfg opts)"

definition sink_Build ::
  "('ctx \<Rightarrow> SinkConfig \<Rightarrow> build_failure + 's, 'm) Registry \<Rightarrow> 'ctx \<Rightarrow> SinkConfig \<Rightarrow> build_failure + 's" where
  "sink_Build reg ctx cfg =
     (case reg_Get reg (sc_Type cfg) of
        None \<Rightarrow> Inl (UnknownPlugin (sc_Type cfg) (reg_Names reg))
      | Some f \<Rightarrow> f ctx cfg)"

text \<open>A \<^verbatim>\<open>nil\<close> plugin without an error is \<open>Inr None\<close>.\<close>

definition detector_Build ::
  "(string \<Rightarrow> string \<Rightarrow> (string \<times> 'p) list \<Rightarrow> build_failure + 'd option) \<Rightarrow>
   ('p DetectorConfig \<Rightarrow> 'sh \<Rightarrow> build_failure + 'd option, 'm) Registry \<Rightarrow> string \<Rightarrow> 'p DetectorConfig \<Rightarrow> 'sh \<Rightarrow>
   build_failure + 'd option" where
  "detector_Build exec_NewDetector reg name cfg shared =
     (if \<not> dc_Enabled cfg then Inr None
      else case reg_Get reg name of
             None \<Rightarrow>
               if dc_Exec cfg \<noteq> [] then exec_NewDetector name (dc_Exec cfg) (dc_Params cfg)
               else Inl (UnknownPlugin name (reg_Names reg))
           | Some f \<Rightarrow> f cfg shared)"

definition processor_Build ::
  "('p ProcessorConfig \<Rightarrow> build_failure + 'd option, 'm) Registry \<Rightarrow> string \<Rightarrow> 'p ProcessorConfig \<Rightarrow>
   build_failure + 'd option" where
  "processor_Build reg name cfg =
     (if \<not> pc_Enabled cfg then Inr None
      else case reg_Get reg name of
             None \<Rightarrow> Inl (UnknownPlugin name (reg_Names reg))
           | Some f \<Rightarrow> f cfg)"

definition executor_Build ::
  "(string \<Rightarrow> string \<Rightarrow> (string \<times> 'p) list \<Rightarrow> build_failure + 'd) \<Rightarrow>
   ('p ExecutorConfig \<Rightarrow> 'log \<Rightarrow> build_failure + 'd, 'm) Registry \<Rightarrow> 'p ExecutorConfig \<Rightarrow> 'log \<Rightarrow> build_failure + 'd" where
  "executor_Build exec_NewExecutor reg cfg log =
     (case reg_Get reg (ec_Type cfg) of
        None \<Rightarrow>
          if ec_Exec cfg \<noteq> [] then exec_NewExecutor (ec_Name cfg) (ec_Exec cfg) (ec_Params cfg)
          else Inl (UnknownPlugin (ec_Type cfg) (reg_Names reg))
      | Some f \<Rightarrow> f cfg log)"

section \<open>The interface\<close>

datatype 'f reg_event = Registered string 'f | Deleted string

text \<open>What a name should have, in a history with the newest event first.\<close>

fun last_registered :: "'f reg_event list \<Rightarrow> string \<Rightarrow> 'f option" where
  "last_registered [] n = None"
| "last_registered (Registered m f # es) n = (if m = n then Some f else last_registered es n)"
| "last_registered (Deleted m # es) n = (if m = n then None else last_registered es n)"

inductive reg_run ::
  "'s \<Rightarrow> ('s \<Rightarrow> string \<Rightarrow> 'f \<Rightarrow> 's option) \<Rightarrow> ('s \<Rightarrow> string \<Rightarrow> 's) \<Rightarrow> ('s \<Rightarrow> string \<Rightarrow> 'm \<Rightarrow> 's option) \<Rightarrow>
   'f reg_event list \<Rightarrow> 's \<Rightarrow> bool"
  for start register delete register_manifest where
  none: "reg_run start register delete register_manifest [] start"
| register: "reg_run start register delete register_manifest es s \<Longrightarrow> register s n f = Some s' \<Longrightarrow>
    reg_run start register delete register_manifest (Registered n f # es) s'"
| delete: "reg_run start register delete register_manifest es s \<Longrightarrow>
    reg_run start register delete register_manifest (Deleted n # es) (delete s n)"
| manifest: "reg_run start register delete register_manifest es s \<Longrightarrow> register_manifest s n m = Some s' \<Longrightarrow>
    reg_run start register delete register_manifest es s'"

locale name_store =
  fixes start :: 's
    and register :: "'s \<Rightarrow> string \<Rightarrow> 'f \<Rightarrow> 's option"
    and delete :: "'s \<Rightarrow> string \<Rightarrow> 's"
    and register_manifest :: "'s \<Rightarrow> string \<Rightarrow> 'm \<Rightarrow> 's option"
    and lookup :: "'s \<Rightarrow> string \<Rightarrow> 'f option"
    and ok :: "'s \<Rightarrow> bool"
  assumes start_ok: "ok start" and lookup_start: "lookup start n = None"
    and register_ok: "ok s \<Longrightarrow> register s n f = Some s' \<Longrightarrow> ok s'"
    and lookup_register: "register s n f = Some s' \<Longrightarrow> lookup s' m = (if m = n then Some f else lookup s m)"
    and register_duplicate: "register s n f = None \<longleftrightarrow> lookup s n \<noteq> None"
    and delete_ok: "ok s \<Longrightarrow> ok (delete s n)"
    and lookup_delete: "lookup (delete s n) m = (if m = n then None else lookup s m)"
    and manifest_ok: "ok s \<Longrightarrow> register_manifest s n x = Some s' \<Longrightarrow> ok s'"
    and lookup_manifest: "register_manifest s n x = Some s' \<Longrightarrow> lookup s' = lookup s"
begin

lemma run_lookup:
  "reg_run start register delete register_manifest es s \<Longrightarrow> ok s \<and> lookup s = last_registered es"
proof (induction rule: reg_run.induct)
  case (register es s n f s')
  with register_ok [OF _ register.hyps(2)] lookup_register [OF register.hyps(2)] show ?case by auto
next
  case (manifest es s n m s')
  with manifest_ok [OF _ manifest.hyps(2)] lookup_manifest [OF manifest.hyps(2)] show ?case by auto
qed (auto simp: start_ok lookup_start delete_ok lookup_delete)

end

interpretation plugins: name_store NewRegistry reg_Register reg_Delete reg_RegisterManifest reg_Get reg_ok
  by unfold_locales
     (auto simp: reg_ok_def NewRegistry_def reg_Register_def reg_Get_def reg_Delete_def reg_RegisterManifest_def
       distinct_update AList.distinct_delete AList.update_conv' AList.delete_conv' split: if_splits)

lemma reg_Names_iff: "reg_ok r \<Longrightarrow> set (reg_Names r) = {n. reg_Get r n \<noteq> None}"
  by (auto simp: reg_Names_def reg_Get_def map_of_eq_None_iff dom_map_of_conv_image_fst)

lemma reg_Names_sorted: "reg_ok r \<Longrightarrow> sorted (reg_Names r) \<and> distinct (reg_Names r)"
  by (simp add: reg_Names_def reg_ok_def)

lemma reg_run_view:
  assumes "reg_run NewRegistry reg_Register reg_Delete reg_RegisterManifest es r"
  shows "reg_Get r = last_registered es" "reg_Names r = sorted_list_of_set {n. last_registered es n \<noteq> None}"
proof -
  have r: "reg_ok r" "reg_Get r = last_registered es" using plugins.run_lookup [OF assms] by auto
  then show "reg_Get r = last_registered es" by simp
  have "sorted_list_of_set (set (reg_Names r)) = reg_Names r"
    using reg_Names_sorted [OF r(1)] by (intro sorted_list_of_set.idem_if_sorted_distinct) auto
  with reg_Names_iff [OF r(1)] r(2) show "reg_Names r = sorted_list_of_set {n. last_registered es n \<noteq> None}" by simp
qed

section \<open>Properties\<close>

text \<open>
  Plugins are built by the factory registered last under their name. After any history of
  registrations and deletions, a disabled detector is no detector, whatever its name; an enabled one
  is made by the factory its name has, else by the configured binary, else refused with the sorted
  list of exactly the registered names. The same dispatch, without the switch, builds executors.
\<close>

theorem plugins_built_by_last_registration:
  assumes "reg_run NewRegistry reg_Register reg_Delete reg_RegisterManifest es r"
    "reg_run NewRegistry reg_Register reg_Delete reg_RegisterManifest es2 r2"
  shows "detector_Build X r name cfg shared =
      (if \<not> dc_Enabled cfg then Inr None
       else case last_registered es name of
              Some f \<Rightarrow> f cfg shared
            | None \<Rightarrow> if dc_Exec cfg \<noteq> [] then X name (dc_Exec cfg) (dc_Params cfg)
                      else Inl (UnknownPlugin name (sorted_list_of_set {n. last_registered es n \<noteq> None}))) \<and>
    executor_Build Y r2 ecfg log =
      (case last_registered es2 (ec_Type ecfg) of
         Some f \<Rightarrow> f ecfg log
       | None \<Rightarrow> if ec_Exec ecfg \<noteq> [] then Y (ec_Name ecfg) (ec_Exec ecfg) (ec_Params ecfg)
                 else Inl (UnknownPlugin (ec_Type ecfg) (sorted_list_of_set {n. last_registered es2 n \<noteq> None})))"
  unfolding detector_Build_def executor_Build_def reg_run_view [OF assms(1)] reg_run_view [OF assms(2)]
  by (simp split: option.split)

theorem plugins_built_by_last_registration_witness:
  "executor_Build (\<lambda>n x ps. Inl (FactoryError ''no binary''))
     (NewRegistry\<lparr>factories := [(''ban'', \<lambda>cfg log. Inr (ec_Name cfg))]\<rparr> :: (unit ExecutorConfig \<Rightarrow> unit \<Rightarrow> build_failure + string, unit) Registry)
     \<lparr>ec_Name = ''e'', ec_Type = ''ban'', ec_Exec = [], ec_Params = [], ec_Config = []\<rparr> () = Inr ''e''"
proof -
  have "reg_run NewRegistry reg_Register reg_Delete reg_RegisterManifest
      [Registered ''ban'' (\<lambda>cfg log. Inr (ec_Name cfg) :: build_failure + string)]
      (NewRegistry\<lparr>factories := [(''ban'', \<lambda>cfg log. Inr (ec_Name cfg))]\<rparr> :: (unit ExecutorConfig \<Rightarrow> unit \<Rightarrow> build_failure + string, unit) Registry)"
    by (rule reg_run.register [OF reg_run.none]) (simp add: reg_Register_def NewRegistry_def)
  from conjunct2 [OF plugins_built_by_last_registration [where log = "()", OF reg_run.none this]]
  show ?thesis by simp
qed

end
