(* ===== verification/Pipeline_Validator.thy ===== *)
theory Pipeline_Validator
  imports Go_Prelude
begin

text \<open>
  The validator of pipelines, \<^verbatim>\<open>pkg/pipeline/validator.go\<close>, with the manifests it reads
  (\<^verbatim>\<open>pkg/plugin/manifest.go\<close>, \<^verbatim>\<open>datatypes.go\<close>, \<^verbatim>\<open>roles.go\<close>). Every function is modelled, the printing of
  errors included. A Go map given to the validator is an association list.

  The lemmas state the contract the validator is to enforce, as the predicates \<open>pipeline_ok\<close> and
  \<open>wiring_ok\<close>, and show that a validation reports no error exactly when the contract holds.
\<close>

section \<open>Manifests\<close>

type_synonym DataType = string
type_synonym Role = string

definition TypeRawLog :: DataType where "TypeRawLog = ''raw_log''"
definition TypeStructured :: DataType where "TypeStructured = ''structured''"
definition TypeScoredEvent :: DataType where "TypeScoredEvent = ''scored_event''"
definition TypeAny :: DataType where "TypeAny = ''any''"
definition TypeNone :: DataType where "TypeNone = ''none''"

definition RoleSource :: Role where "RoleSource = ''source''"
definition RoleProcessor :: Role where "RoleProcessor = ''processor''"
definition RoleDetector :: Role where "RoleDetector = ''detector''"
definition RoleExecutor :: Role where "RoleExecutor = ''executor''"
definition RoleSink :: Role where "RoleSink = ''sink''"

record FieldDecl =
  decl_Name :: string
  decl_Required :: bool
  decl_Type :: string

record Manifest =
  PluginID :: string
  PluginVersion :: string
  man_Role :: Role
  InputType :: DataType
  OutputType :: DataType
  Tags :: "string list"
  Produces :: "FieldDecl list"
  Consumes :: "FieldDecl list"

section \<open>Errors\<close>

record SemanticError =
  StepIndex :: int
  StepAName :: string
  StepBName :: string
  se_Got :: DataType
  se_Want :: DataType
  StreamName :: string
  PipelineName :: string
  ConsumerType :: string
  ConsumerName :: string
  se_Note :: string

definition no_error :: SemanticError where
  "no_error = \<lparr>StepIndex = 0, StepAName = [], StepBName = [], se_Got = [], se_Want = [], StreamName = [],
     PipelineName = [], ConsumerType = [], ConsumerName = [], se_Note = []\<rparr>"

text \<open>
  The loop writes digits from the end of a buffer of twelve bytes; a number with more digits runs off
  its front, which panics (\<open>None\<close>). A negative number has no digits.
\<close>

fun itoa_loop :: "nat \<Rightarrow> nat \<Rightarrow> string \<Rightarrow> string option" where
  "itoa_loop i n buf =
     (if n = 0 then Some buf
      else if i = 0 then None
      else itoa_loop (i - 1) (n div 10) (digit_char (n mod 10) # buf))"

definition itoa :: "int \<Rightarrow> string option" where
  "itoa n = (if n = 0 then Some ''0'' else if n < 0 then Some [] else itoa_loop 12 (nat n) [])"

definition quoted :: "string \<Rightarrow> string" where
  "quoted s = CHR 39 # s @ [CHR 39]"

definition stream_prefix :: "SemanticError \<Rightarrow> string" where
  "stream_prefix e = (if StreamName e \<noteq> [] then ''stream '' @ quoted (StreamName e) @ '', '' else [])"

definition Error :: "SemanticError \<Rightarrow> string option" where
  "Error e =
     (if se_Note e \<noteq> [] \<and> ConsumerName e \<noteq> [] then
        Some (stream_prefix e @ ''pipeline '' @ quoted (PipelineName e) @ '', '' @ ConsumerType e @ '' '' @
          quoted (ConsumerName e) @ '': '' @ se_Note e)
      else if se_Note e \<noteq> [] then Some (se_Note e)
      else if ConsumerName e \<noteq> [] then
        Some (stream_prefix e @ ''pipeline '' @ quoted (PipelineName e) @ '', '' @ ConsumerType e @ '' '' @
          quoted (ConsumerName e) @ '': expects '' @ quoted (se_Want e) @ '' but spine produces '' @ quoted (se_Got e))
      else map_option (\<lambda>k. ''step '' @ k @ '': plugin '' @ quoted (StepAName e) @ '' outputs '' @ quoted (se_Got e) @
          '' but '' @ quoted (StepBName e) @ '' expects '' @ quoted (se_Want e)) (itoa (StepIndex e)))"

section \<open>Pipelines\<close>

record PipelineContext =
  ctx_StreamName :: string
  ctx_PipelineName :: string
  ctx_Spine :: "Manifest list"
  ctx_Sinks :: "Manifest list"

record PipelineResult =
  res_StreamName :: string
  res_PipelineName :: string
  ProducedType :: DataType
  res_Errors :: "SemanticError list"

definition validateFields :: "Manifest \<Rightarrow> Manifest \<Rightarrow> nat \<Rightarrow> SemanticError list" where
  "validateFields producer consumer stepIndex =
     (let producedNames = map decl_Name (Produces producer)
      in map (\<lambda>want. no_error\<lparr>StepIndex := int stepIndex, StepAName := PluginID producer, StepBName := PluginID consumer,
             se_Note := ''producer '' @ quoted (PluginID producer) @ '' does not emit required field '' @
               quoted (decl_Name want) @ '' required by consumer '' @ quoted (PluginID consumer)\<rparr>)
           (filter (\<lambda>want. decl_Required want \<and> decl_Name want \<notin> set producedNames) (Consumes consumer)))"

definition type_step :: "Manifest list \<Rightarrow> nat \<Rightarrow> SemanticError list" where
  "type_step chain i =
     (let got = OutputType (chain ! i); want = InputType (chain ! (i + 1))
      in if got = TypeAny \<or> want = TypeAny then []
         else if got = want then []
         else [no_error\<lparr>StepIndex := int i, StepAName := PluginID (chain ! i), StepBName := PluginID (chain ! (i + 1)),
                 se_Got := got, se_Want := want\<rparr>])"

definition field_step :: "Manifest list \<Rightarrow> nat \<Rightarrow> SemanticError list" where
  "field_step chain i =
     (if Produces (chain ! i) = [] \<or> Consumes (chain ! (i + 1)) = [] then []
      else validateFields (chain ! i) (chain ! (i + 1)) i)"

definition Validate :: "Manifest list \<Rightarrow> SemanticError list" where
  "Validate chain =
     (if length chain < 2 then []
      else concat (map (type_step chain) [0..<length chain - 1]) @
           concat (map (field_step chain) [0..<length chain - 1]))"

definition ValidateSpine :: "PipelineContext \<Rightarrow> DataType \<times> SemanticError list" where
  "ValidateSpine ctx =
     (let spine = ctx_Spine ctx;
          errs = map (\<lambda>e. e\<lparr>StreamName := ctx_StreamName ctx, PipelineName := ctx_PipelineName ctx,
                   ConsumerType := ''spine''\<rparr>) (Validate spine);
          producedType = (if 0 < length spine then OutputType (spine ! (length spine - 1)) else TypeNone)
      in (producedType, errs))"

definition ValidateTerminals :: "PipelineContext \<Rightarrow> DataType \<Rightarrow> SemanticError list" where
  "ValidateTerminals ctx producedType =
     concat (map (\<lambda>m.
       if InputType m = TypeAny \<or> producedType = TypeAny then []
       else if InputType m \<noteq> producedType then
         [no_error\<lparr>se_Got := producedType, se_Want := InputType m, StreamName := ctx_StreamName ctx,
            PipelineName := ctx_PipelineName ctx, ConsumerType := ''sink'', ConsumerName := PluginID m\<rparr>]
       else []) (ctx_Sinks ctx))"

definition validate_pipeline :: "PipelineContext \<Rightarrow> PipelineResult" where
  "validate_pipeline ctx =
     (let (produced, errs) = ValidateSpine ctx;
          termErrs = ValidateTerminals ctx produced
      in \<lparr>res_StreamName = ctx_StreamName ctx, res_PipelineName = ctx_PipelineName ctx, ProducedType = produced,
          res_Errors = (if 0 < length termErrs then errs @ termErrs else errs)\<rparr>)"

definition ValidatePipelines :: "PipelineContext list \<Rightarrow> PipelineResult list" where
  "ValidatePipelines pipes = map validate_pipeline pipes"

section \<open>Executors\<close>

record ExecutorBinding =
  eb_Name :: string
  eb_InputType :: DataType
  SourceNames :: "string list"

definition wire_errors :: "(string \<times> DataType) list \<Rightarrow> ExecutorBinding \<Rightarrow> string \<Rightarrow> SemanticError list" where
  "wire_errors channelTypes b srcName =
     (case map_of channelTypes srcName of
        None \<Rightarrow> [no_error\<lparr>se_Got := TypeNone, se_Want := eb_InputType b, ConsumerType := ''executor'',
                   ConsumerName := eb_Name b, se_Note := ''wired to unknown channel '' @ quoted srcName\<rparr>]
      | Some producedType \<Rightarrow>
          if producedType = TypeAny \<or> eb_InputType b = TypeAny then []
          else if producedType \<noteq> eb_InputType b then
            [no_error\<lparr>se_Got := producedType, se_Want := eb_InputType b, ConsumerType := ''executor'',
               ConsumerName := eb_Name b\<rparr>]
          else [])"

definition binding_errors :: "(string \<times> DataType) list \<Rightarrow> ExecutorBinding \<Rightarrow> SemanticError list" where
  "binding_errors channelTypes b =
     (if SourceNames b = [] then
        [no_error\<lparr>ConsumerType := ''executor'', ConsumerName := eb_Name b, se_Note := ''has no sources''\<rparr>]
      else concat (map (wire_errors channelTypes b) (SourceNames b)))"

definition ValidateExecutorWiring :: "ExecutorBinding list \<Rightarrow> (string \<times> DataType) list \<Rightarrow> SemanticError list" where
  "ValidateExecutorWiring bindings channelTypes =
     (let readChannels = concat (map SourceNames bindings);
          writtenNames = sort (map fst channelTypes)
      in map (\<lambda>name. no_error\<lparr>ConsumerType := ''channel'', ConsumerName := name, se_Note := ''has writer but no reader''\<rparr>)
           (filter (\<lambda>name. name \<notin> set readChannels) writtenNames) @
         concat (map (binding_errors channelTypes) bindings))"

section \<open>The contract\<close>

definition compatible :: "DataType \<Rightarrow> DataType \<Rightarrow> bool" where
  "compatible got want \<longleftrightarrow> got = TypeAny \<or> want = TypeAny \<or> got = want"

text \<open>A contract of fields holds when either side declares none, or all required fields are produced.\<close>

definition fields_met :: "Manifest \<Rightarrow> Manifest \<Rightarrow> bool" where
  "fields_met p c \<longleftrightarrow> Produces p = [] \<or>
     (\<forall>f \<in> set (Consumes c). decl_Required f \<longrightarrow> decl_Name f \<in> decl_Name ` set (Produces p))"

fun chain_ok :: "Manifest list \<Rightarrow> bool" where
  "chain_ok (p # c # ms) = (compatible (OutputType p) (InputType c) \<and> fields_met p c \<and> chain_ok (c # ms))"
| "chain_ok _ = True"

definition produced :: "Manifest list \<Rightarrow> DataType" where
  "produced spine = (if spine = [] then TypeNone else OutputType (last spine))"

definition pipeline_ok :: "PipelineContext \<Rightarrow> bool" where
  "pipeline_ok ctx \<longleftrightarrow> chain_ok (ctx_Spine ctx) \<and>
     (\<forall>m \<in> set (ctx_Sinks ctx). compatible (produced (ctx_Spine ctx)) (InputType m))"

text \<open>Every executor reads some channel, every channel it reads has a writer of its type, every channel has a reader.\<close>

definition wiring_ok :: "ExecutorBinding list \<Rightarrow> (string \<times> DataType) list \<Rightarrow> bool" where
  "wiring_ok bindings channelTypes \<longleftrightarrow>
     (\<forall>b \<in> set bindings. SourceNames b \<noteq> [] \<and>
        (\<forall>n \<in> set (SourceNames b). \<exists>t. map_of channelTypes n = Some t \<and> compatible t (eb_InputType b))) \<and>
     (\<forall>n \<in> fst ` set channelTypes. \<exists>b \<in> set bindings. n \<in> set (SourceNames b))"

section \<open>Lemmas\<close>

lemma type_step_Nil: "type_step chain i = [] \<longleftrightarrow> compatible (OutputType (chain ! i)) (InputType (chain ! (i + 1)))"
  by (simp add: type_step_def compatible_def Let_def)

lemma validateFields_Nil:
  "validateFields p c i = [] \<longleftrightarrow> (\<forall>f \<in> set (Consumes c). decl_Required f \<longrightarrow> decl_Name f \<in> decl_Name ` set (Produces p))"
  by (auto simp: validateFields_def Let_def filter_empty_conv)

lemma field_step_Nil: "field_step chain i = [] \<longleftrightarrow> fields_met (chain ! i) (chain ! (i + 1))"
  by (auto simp: field_step_def fields_met_def validateFields_Nil)

lemma chain_ok_nth:
  "chain_ok chain \<longleftrightarrow> (\<forall>i. i + 1 < length chain \<longrightarrow>
     compatible (OutputType (chain ! i)) (InputType (chain ! (i + 1))) \<and> fields_met (chain ! i) (chain ! (i + 1)))"
proof (induction chain rule: chain_ok.induct)
  case (1 p c ms)
  have split: "(\<forall>i. i + 1 < length (p # c # ms) \<longrightarrow> Q i) \<longleftrightarrow> Q 0 \<and> (\<forall>i. i + 1 < length (c # ms) \<longrightarrow> Q (Suc i))" for Q
    by (metis (no_types, lifting) Suc_eq_plus1 Suc_less_eq length_Cons not0_implies_Suc zero_less_Suc)
  show ?case using 1 by (subst split) simp
qed simp_all

lemma Validate_Nil: "Validate chain = [] \<longleftrightarrow> chain_ok chain"
proof (cases "length chain < 2")
  case True
  then show ?thesis by (cases chain rule: chain_ok.cases) (simp_all add: Validate_def)
next
  case False
  then have "Validate chain = [] \<longleftrightarrow> (\<forall>i < length chain - 1. type_step chain i = [] \<and> field_step chain i = [])"
    by (auto simp: Validate_def)
  also have "\<dots> \<longleftrightarrow> chain_ok chain"
    using False by (auto simp: chain_ok_nth type_step_Nil field_step_Nil less_diff_conv)
  finally show ?thesis .
qed

lemma ValidateSpine_produced: "fst (ValidateSpine ctx) = produced (ctx_Spine ctx)"
  by (simp add: ValidateSpine_def produced_def Let_def last_conv_nth)

lemma ValidateTerminals_Nil:
  "ValidateTerminals ctx t = [] \<longleftrightarrow> (\<forall>m \<in> set (ctx_Sinks ctx). compatible t (InputType m))"
  by (auto simp: ValidateTerminals_def compatible_def)

lemma validate_pipeline_Errors:
  "res_Errors (validate_pipeline ctx) = snd (ValidateSpine ctx) @ ValidateTerminals ctx (fst (ValidateSpine ctx))"
  by (auto simp: validate_pipeline_def Let_def split: prod.split)

lemma binding_errors_Nil:
  "binding_errors ct b = [] \<longleftrightarrow> SourceNames b \<noteq> [] \<and>
     (\<forall>n \<in> set (SourceNames b). \<exists>t. map_of ct n = Some t \<and> compatible t (eb_InputType b))"
  by (auto simp: binding_errors_def wire_errors_def compatible_def split: option.splits)

lemma ValidateExecutorWiring_Nil: "ValidateExecutorWiring bindings channelTypes = [] \<longleftrightarrow> wiring_ok bindings channelTypes"
  by (simp add: ValidateExecutorWiring_def wiring_ok_def Let_def binding_errors_Nil filter_empty_conv) blast

text \<open>The digits.\<close>

lemma itoa_loop_eq: "0 < n \<Longrightarrow> n < 10 ^ i \<Longrightarrow> itoa_loop i n buf = Some (nat_string n @ buf)"
proof (induction i arbitrary: n buf)
  case (Suc i)
  show ?case
  proof (cases "n < 10")
    case True
    with Suc.prems show ?thesis by (simp add: nat_string.simps [of n] itoa_loop.simps [of "Suc i"] itoa_loop.simps [of _ 0])
  next
    case False
    then have "0 < n div 10" "n div 10 < 10 ^ i" using Suc.prems by (auto simp: div_greater_zero_iff less_mult_imp_div_less mult.commute)
    from Suc.IH [OF this] Suc.prems False show ?thesis
      by (simp add: nat_string.simps [of n] itoa_loop.simps [of "Suc i"] del: itoa_loop.simps)
  qed
qed simp

lemma digit_char_0: "digit_char 0 = CHR ''0''"
  by code_simp

lemma itoa_eq: "0 \<le> n \<Longrightarrow> n < 10 ^ 12 \<Longrightarrow> itoa n = Some (FormatInt n)"
  using itoa_loop_eq [of "nat n" 12 "[]"]
  by (auto simp: itoa_def FormatInt_def nat_string.simps [of 0] digit_char_0 simp del: itoa_loop.simps)

section \<open>Properties\<close>

text \<open>
  C16: the validator accepts exactly the good configurations. A pipeline has no error exactly when
  along its spine every output type fits the next input type and every required field is produced
  (where both sides declare fields), and every sink fits what the spine produces.
\<close>

theorem pipeline_errors_iff_contract:
  "map (\<lambda>r. res_Errors r = []) (ValidatePipelines pipes) = map pipeline_ok pipes \<and>
   map ProducedType (ValidatePipelines pipes) = map (produced \<circ> ctx_Spine) pipes"
proof -
  have "res_Errors (validate_pipeline ctx) = [] \<longleftrightarrow> pipeline_ok ctx" for ctx
    by (simp add: validate_pipeline_Errors ValidateTerminals_Nil ValidateSpine_produced pipeline_ok_def)
       (simp add: ValidateSpine_def Let_def Validate_Nil)
  moreover have "ProducedType (validate_pipeline ctx) = produced (ctx_Spine ctx)" for ctx
    using ValidateSpine_produced [of ctx] by (auto simp: validate_pipeline_def Let_def split: prod.splits)
  ultimately show ?thesis by (simp add: ValidatePipelines_def)
qed

text \<open>
  C17: the wiring of executors is accepted exactly when it is complete: every executor reads at least
  one channel, every channel it reads is written with a type that fits, and every written channel is
  read by some executor.
\<close>

theorem executor_wiring_iff_complete:
  "ValidateExecutorWiring bindings channelTypes = [] \<longleftrightarrow> wiring_ok bindings channelTypes"
  by (rule ValidateExecutorWiring_Nil)

text \<open>
  The errors of the wiring carry no pipeline, yet \<^verbatim>\<open>Error\<close> prints an empty pipeline name in front,
  where its documentation shows the executor alone.
\<close>

lemma executor_error_text:
  "map Error (binding_errors ct \<lparr>eb_Name = ''cf-ban'', eb_InputType = t, SourceNames = []\<rparr>) =
     [Some (''pipeline '' @ quoted [] @ '', executor '' @ quoted ''cf-ban'' @ '': has no sources'')]"
  by (simp add: binding_errors_def Error_def no_error_def stream_prefix_def)

text \<open>The stream and pipeline names put into an error of the spine are not printed.\<close>

lemma spine_error_text:
  "e \<in> set (Validate chain) \<Longrightarrow>
   Error (e\<lparr>StreamName := s, PipelineName := p, ConsumerType := c\<rparr>) = Error e"
  by (auto simp: Validate_def type_step_def field_step_def validateFields_def Error_def no_error_def Let_def split: if_splits)

end
