(* ===== verification/Runtime_Engine.thy ===== *)
theory Runtime_Engine
  imports Rule_Types
begin

text \<open>
  The engine that runs a stream, \<^verbatim>\<open>pkg/runtime/engine.go\<close> with the types of \<^verbatim>\<open>types.go\<close> and \<^verbatim>\<open>spec.go\<close>, and
  the fan-in of the sources, \<^verbatim>\<open>pkg/input/merge.go\<close>.

  The processor, its factory and the sinks belong to the product: they are arguments, functions of the
  state \<open>'w\<close> of the world they read and write, and \<open>None\<close> is a panic inside them. What the engine does
  to the outside is recorded in a trace: calls of the processor with their result, writes to the
  sinks, metrics callbacks, log lines. The text of a log line is a constructor with the arguments of
  the \<^verbatim>\<open>Sprintf\<close>. The select loop of \<^verbatim>\<open>runPipeline\<close> is given the sequence of the cases it selects, so a
  statement about every sequence is one about every scheduling. The statistics goroutine \<open>runStats\<close> is given its ticks.

  The lemmas show that every entry received is processed exactly once and in order, that every
  published event goes to every sink exactly once whatever the other sinks do, and that the counters
  count; for the fan-in, that each source's events keep their order, that none is lost or invented,
  and that nothing is sent on the closed channel.
\<close>

section \<open>Types\<close>

record 'p Action =
  act_Skip :: bool
  act_Payload :: "'p Event option"

record EventContext =
  ev_StreamName :: string
  ev_PipelineName :: string
  ev_SourceName :: string
  ev_SourceType :: string
  ev_PipelineIdx :: int

text \<open>Which callbacks are set; the engine calls them and uses nothing they return.\<close>

record MetricsCallbacks =
  has_RecordLine :: bool
  has_RecordThreat :: bool
  has_RecordOutputEvent :: bool
  has_UpdateGauges :: bool

text \<open>A sink: its name, its write (an error or not), and its reload when it implements \<^verbatim>\<open>Reloader\<close>.\<close>

record ('p, 'w) RSink =
  sk_Name :: string
  sk_Write :: "bool \<Rightarrow> 'p Event \<Rightarrow> 'w \<Rightarrow> (string option \<times> 'w) option"
  sk_Reload :: "('w \<Rightarrow> (string option \<times> 'w) option) option"

text \<open>The first argument of \<open>sk_Write\<close> and \<open>process\<close> says whether the context they get is the live one.\<close>

record ('p, 'st, 'w) Product =
  process :: "bool \<Rightarrow> 'p Event \<Rightarrow> 'st \<Rightarrow> EventContext \<Rightarrow> 'w \<Rightarrow> ('p Action \<times> 'w) option"
  Build :: "string \<Rightarrow> string \<Rightarrow> int \<Rightarrow> 'w \<Rightarrow> ((string + 'st) \<times> 'w) option"
  Reload :: "'st \<Rightarrow> 'w \<Rightarrow> ((string + 'st) \<times> 'w) option"
  is_LineProcessor :: bool

record ('p, 'w) PipelineSpec =
  pipe_Name :: string
  pipe_Idx :: int
  pipe_Sources :: "string list"
  pipe_Sinks :: "('p, 'w) RSink list"

record ('p, 'w) StreamSpec =
  stream_Name :: string
  TrackerGroup :: string
  BufferSize :: int
  ShutdownTimeout :: i64
  StatsInterval :: i64
  Pipelines :: "('p, 'w) PipelineSpec list"

datatype tag = DefaultTag | StreamTag string | PipeTag string string

definition logTag :: "string \<Rightarrow> string \<Rightarrow> tag" where
  "logTag streamName pipelineName =
     (if streamName = [] \<and> pipelineName = [] then DefaultTag
      else if pipelineName = [] then StreamTag streamName
      else PipeTag streamName pipelineName)"

datatype log_line =
    PanicRecovered tag
  | BuildError tag string
  | PipelineStarted tag nat nat
  | Draining tag
  | DrainDone tag
  | ReloadError tag string
  | SinkReloadError tag string string
  | Reloaded tag
  | ChannelClosed tag
  | SinkWriteError tag string string
  | StatsLine tag i64 i64

datatype 'p rt_event =
    RecordLine string string string string
  | Processed "'p Event" "'p Action"
  | RecordThreat string string string
  | Written string "'p Event" "string option"
  | RecordOutputEvent string string string
  | SinkReloaded string
  | Logged log_line
  | UpdateGauges string string i64 i64

record ('p, 'w) rt =
  processedCount :: i64
  eventCount :: i64
  rt_trace :: "'p rt_event list"
  rt_world :: 'w

definition emit :: "'p rt_event \<Rightarrow> ('p, 'w) rt \<Rightarrow> ('p, 'w) rt" where
  "emit e s = s\<lparr>rt_trace := rt_trace s @ [e]\<rparr>"

definition emit_if :: "bool \<Rightarrow> 'p rt_event \<Rightarrow> ('p, 'w) rt \<Rightarrow> ('p, 'w) rt" where
  "emit_if b e s = (if b then emit e s else s)"

section \<open>One entry\<close>

text \<open>A computation that may panic gives \<open>(True, s)\<close> when it does, with the state reached so far.\<close>

fun write_sinks ::
  "MetricsCallbacks option \<Rightarrow> bool \<Rightarrow> EventContext \<Rightarrow> 'p Event \<Rightarrow> ('p, 'w) RSink list \<Rightarrow> ('p, 'w) rt \<Rightarrow> bool \<times> ('p, 'w) rt" where
  "write_sinks cb live evctx ev [] s = (False, s)"
| "write_sinks cb live evctx ev (sink # sinks) s =
     (case sk_Write sink live ev (rt_world s) of
        None \<Rightarrow> (True, s)
      | Some (err, w) \<Rightarrow>
          let s1 = emit (Written (sk_Name sink) ev err) (s\<lparr>rt_world := w\<rparr>)
          in case err of
               Some e \<Rightarrow>
                 write_sinks cb live evctx ev sinks
                   (emit (Logged (SinkWriteError (logTag (ev_StreamName evctx) (ev_PipelineName evctx)) (sk_Name sink) e)) s1)
             | None \<Rightarrow>
                 write_sinks cb live evctx ev sinks
                   (emit_if (case cb of None \<Rightarrow> False | Some c \<Rightarrow> has_RecordOutputEvent c)
                     (RecordOutputEvent (ev_StreamName evctx) (ev_PipelineName evctx) (sk_Name sink)) s1))"

definition dispatchEntry ::
  "('p, 'st, 'w) Product \<Rightarrow> MetricsCallbacks option \<Rightarrow> ('p, 'w) RSink list \<Rightarrow> EventContext \<Rightarrow> 'st \<Rightarrow> bool \<Rightarrow> 'p Event \<Rightarrow>
   ('p, 'w) rt \<Rightarrow> bool \<times> ('p, 'w) rt" where
  "dispatchEntry P cb sinks evctx ps live entry s =
     (let s1 = s\<lparr>processedCount := processedCount s + 1\<rparr>;
          s2 = emit_if (case cb of None \<Rightarrow> False | Some c \<Rightarrow> has_RecordLine c)
                 (RecordLine (ev_StreamName evctx) (ev_PipelineName evctx) (ev_SourceName evctx) (ev_SourceType evctx)) s1
      in case process P live entry ps evctx (rt_world s2) of
           None \<Rightarrow> (True, s2)
         | Some (action, w) \<Rightarrow>
             let s3 = emit (Processed entry action) (s2\<lparr>rt_world := w\<rparr>)
             in if act_Skip action then (False, s3)
                else case act_Payload action of
                       None \<Rightarrow> (False, s3)
                     | Some ev \<Rightarrow>
                         let s4 = (if Level ev = ''THREAT'' then s3\<lparr>eventCount := eventCount s3 + 1\<rparr> else s3);
                             s5 = emit_if (case cb of None \<Rightarrow> False | Some c \<Rightarrow> has_RecordThreat c)
                                    (RecordThreat (ev_StreamName evctx) (ev_PipelineName evctx) (Level ev)) s4
                         in write_sinks cb live evctx ev sinks s5)"

section \<open>A pipeline\<close>

definition sourceMetadata :: "string list \<Rightarrow> string \<times> string" where
  "sourceMetadata sources =
     (case sources of
        [] \<Rightarrow> ([], [])
      | name # _ \<Rightarrow> if HasPrefix name ''file:'' then (name, ''file'') else (name, ''stdin''))"

text \<open>\<^verbatim>\<open>for entry := range entries\<close>, after the shutdown: the entries until the channel is closed.\<close>

fun drain ::
  "('p, 'st, 'w) Product \<Rightarrow> MetricsCallbacks option \<Rightarrow> ('p, 'w) RSink list \<Rightarrow> EventContext \<Rightarrow> 'st \<Rightarrow> 'p Event list \<Rightarrow>
   ('p, 'w) rt \<Rightarrow> bool \<times> ('p, 'w) rt" where
  "drain P cb sinks evctx ps [] s = (False, s)"
| "drain P cb sinks evctx ps (e # es) s =
     (case dispatchEntry P cb sinks evctx ps False e s of
        (True, s') \<Rightarrow> (True, s')
      | (False, s') \<Rightarrow> drain P cb sinks evctx ps es s')"

fun reload_sinks :: "tag \<Rightarrow> ('p, 'w) RSink list \<Rightarrow> ('p, 'w) rt \<Rightarrow> bool \<times> ('p, 'w) rt" where
  "reload_sinks t [] s = (False, s)"
| "reload_sinks t (sink # sinks) s =
     (case sk_Reload sink of
        None \<Rightarrow> reload_sinks t sinks s
      | Some r \<Rightarrow>
          (case r (rt_world s) of
             None \<Rightarrow> (True, s)
           | Some (err, w) \<Rightarrow>
               let s1 = emit (SinkReloaded (sk_Name sink)) (s\<lparr>rt_world := w\<rparr>)
               in reload_sinks t sinks
                    (case err of None \<Rightarrow> s1 | Some e \<Rightarrow> emit (Logged (SinkReloadError t (sk_Name sink) e)) s1)))"

text \<open>
  What the select finds: the context done (with the entries still to come until the channel is
  closed), a reload, an entry, or the closed channel.
\<close>

datatype 'p sel = SelDone "'p Event list" | SelReload | SelEntry "'p Event" | SelClosed

datatype outcome = Waiting | Returned | Panicked

fun select_loop ::
  "('p, 'st, 'w) Product \<Rightarrow> MetricsCallbacks option \<Rightarrow> ('p, 'w) RSink list \<Rightarrow> tag \<Rightarrow> EventContext \<Rightarrow> 'st \<Rightarrow> 'p sel list \<Rightarrow>
   ('p, 'w) rt \<Rightarrow> outcome \<times> ('p, 'w) rt" where
  "select_loop P cb sinks t evctx ps [] s = (Waiting, s)"
| "select_loop P cb sinks t evctx ps (SelDone es # _) s =
     (case drain P cb sinks evctx ps es (emit (Logged (Draining t)) s) of
        (True, s') \<Rightarrow> (Panicked, s')
      | (False, s') \<Rightarrow> (Returned, emit (Logged (DrainDone t)) s'))"
| "select_loop P cb sinks t evctx ps (SelReload # sels) s =
     (case Reload P ps (rt_world s) of
        None \<Rightarrow> (Panicked, s)
      | Some (Inl err, w) \<Rightarrow>
          select_loop P cb sinks t evctx ps sels (emit (Logged (ReloadError t err)) (s\<lparr>rt_world := w\<rparr>))
      | Some (Inr newPs, w) \<Rightarrow>
          (case reload_sinks t sinks (s\<lparr>rt_world := w\<rparr>) of
             (True, s') \<Rightarrow> (Panicked, s')
           | (False, s') \<Rightarrow> select_loop P cb sinks t evctx newPs sels (emit (Logged (Reloaded t)) s')))"
| "select_loop P cb sinks t evctx ps (SelEntry e # sels) s =
     (case dispatchEntry P cb sinks evctx ps True e s of
        (True, s') \<Rightarrow> (Panicked, s')
      | (False, s') \<Rightarrow> select_loop P cb sinks t evctx ps sels s')"
| "select_loop P cb sinks t evctx ps (SelClosed # _) s = (Returned, emit (Logged (ChannelClosed t)) s)"

definition new_rt :: "'w \<Rightarrow> ('p, 'w) rt" where
  "new_rt w = \<lparr>processedCount = 0, eventCount = 0, rt_trace = [], rt_world = w\<rparr>"

text \<open>The size of the channel of \<^verbatim>\<open>Merge\<close>; making a channel of negative size panics.\<close>

definition pipeline_bufSize :: "('p, 'w) StreamSpec \<Rightarrow> int" where
  "pipeline_bufSize strm = (if BufferSize strm = 0 then 1000 else BufferSize strm)"

text \<open>The deferred recover logs and returns.\<close>

definition recovered :: "tag \<Rightarrow> outcome \<times> ('p, 'w) rt \<Rightarrow> outcome \<times> ('p, 'w) rt" where
  "recovered t r = (case r of (Panicked, s) \<Rightarrow> (Panicked, emit (Logged (PanicRecovered t)) s) | _ \<Rightarrow> r)"

definition runPipeline ::
  "('p, 'st, 'w) Product \<Rightarrow> MetricsCallbacks option \<Rightarrow> ('p, 'w) StreamSpec \<Rightarrow> ('p, 'w) PipelineSpec \<Rightarrow> 'p sel list \<Rightarrow> 'w \<Rightarrow>
   outcome \<times> ('p, 'w) rt" where
  "runPipeline P cb strm pipe sels w =
     (let t = logTag (stream_Name strm) (pipe_Name pipe)
      in recovered t
           (case Build P (stream_Name strm) (pipe_Name pipe) (pipe_Idx pipe) w of
              None \<Rightarrow> (Panicked, new_rt w)
            | Some (Inl err, w1) \<Rightarrow> (Returned, emit (Logged (BuildError t err)) (new_rt w1))
            | Some (Inr ps, w1) \<Rightarrow>
                let (name, typ) = (if 0 < length (pipe_Sources pipe) then sourceMetadata (pipe_Sources pipe) else ([], []));
                    evctx = \<lparr>ev_StreamName = stream_Name strm, ev_PipelineName = pipe_Name pipe, ev_SourceName = name,
                              ev_SourceType = typ, ev_PipelineIdx = pipe_Idx pipe\<rparr>
                in if pipeline_bufSize strm < 0 then (Panicked, new_rt w1)
                   else select_loop P cb (pipe_Sinks pipe) t evctx ps sels
                     (emit (Logged (PipelineStarted t (length (pipe_Sources pipe)) (length (pipe_Sinks pipe)))) (new_rt w1))))"

text \<open>One tick of \<^verbatim>\<open>runStats\<close>, on the counters it loads.\<close>

definition stats_tick :: "MetricsCallbacks option \<Rightarrow> ('p, 'w) StreamSpec \<Rightarrow> ('p, 'w) PipelineSpec \<Rightarrow> ('p, 'w) rt \<Rightarrow> ('p, 'w) rt" where
  "stats_tick cb strm pipe s =
     (let processed = processedCount s; events = eventCount s;
          s1 = emit (Logged (StatsLine (logTag (stream_Name strm) (pipe_Name pipe)) processed events)) s
      in emit_if (case cb of None \<Rightarrow> False | Some c \<Rightarrow> has_UpdateGauges c)
           (UpdateGauges (stream_Name strm) (pipe_Name pipe) processed events) s1)"

text \<open>
  \<^verbatim>\<open>runStats\<close>, a goroutine of its own: the ticks with the counters they load, until the context is done. \<^verbatim>\<open>None\<close> is the
  panic of \<^verbatim>\<open>time.NewTicker\<close> for an interval that is not positive, which no deferred call of that goroutine recovers.
\<close>

datatype stats_event = StatsTick i64 i64 | StatsDone

fun stats_loop :: "MetricsCallbacks option \<Rightarrow> ('p, 'w) StreamSpec \<Rightarrow> ('p, 'w) PipelineSpec \<Rightarrow> stats_event list \<Rightarrow> 'p rt_event list" where
  "stats_loop cb strm pipe [] = []"
| "stats_loop cb strm pipe (StatsDone # _) = []"
| "stats_loop cb strm pipe (StatsTick processed events # es) =
     Logged (StatsLine (logTag (stream_Name strm) (pipe_Name pipe)) processed events) #
     (if (case cb of None \<Rightarrow> False | Some c \<Rightarrow> has_UpdateGauges c)
      then [UpdateGauges (stream_Name strm) (pipe_Name pipe) processed events] else []) @
     stats_loop cb strm pipe es"

definition statsInterval_of :: "('p, 'w) StreamSpec \<Rightarrow> i64" where
  "statsInterval_of strm = (if StatsInterval strm = 0 then 30000000000 else StatsInterval strm)"

definition runStats ::
  "MetricsCallbacks option \<Rightarrow> ('p, 'w) StreamSpec \<Rightarrow> ('p, 'w) PipelineSpec \<Rightarrow> stats_event list \<Rightarrow> 'p rt_event list option" where
  "runStats cb strm pipe es =
     (if sint (statsInterval_of strm) \<le> 0 then None else Some (stats_loop cb strm pipe es))"

text \<open>
  \<^verbatim>\<open>Run\<close>: the type assertion, then every pipeline on its own; \<^verbatim>\<open>nil\<close> when all have returned (their
  outcomes are given with it). Each pipeline has its own schedule and world.
\<close>

definition Run ::
  "('p, 'st, 'w) Product \<Rightarrow> MetricsCallbacks option \<Rightarrow> ('p, 'w) StreamSpec \<Rightarrow> ('p sel list \<times> 'w) list \<Rightarrow>
   string + (outcome \<times> ('p, 'w) rt) list" where
  "Run P cb strm runs =
     (if \<not> is_LineProcessor P then Inl ''factory must also implement LineProcessor''
      else Inr (map (\<lambda>(pipe, sels, w). runPipeline P cb strm pipe sels w) (zip (Pipelines strm) runs)))"

section \<open>What a trace shows\<close>

fun processed_of :: "'p rt_event list \<Rightarrow> ('p Event \<times> 'p Action) list" where
  "processed_of [] = []"
| "processed_of (Processed e a # es) = (e, a) # processed_of es"
| "processed_of (_ # es) = processed_of es"

fun written_of :: "'p rt_event list \<Rightarrow> (string \<times> 'p Event) list" where
  "written_of [] = []"
| "written_of (Written n e err # es) = (n, e) # written_of es"
| "written_of (_ # es) = written_of es"

text \<open>The events an action publishes, and the writes they call for.\<close>

definition published :: "'p Action \<Rightarrow> 'p Event list" where
  "published a = (if act_Skip a then [] else case act_Payload a of None \<Rightarrow> [] | Some e \<Rightarrow> [e])"

definition fan_out :: "('p, 'w) RSink list \<Rightarrow> 'p Action list \<Rightarrow> (string \<times> 'p Event) list" where
  "fan_out sinks acts = concat (map (\<lambda>e. map (\<lambda>sk. (sk_Name sk, e)) sinks) (concat (map published acts)))"

definition threats :: "'p Action list \<Rightarrow> nat" where
  "threats acts = length (filter (\<lambda>e. Level e = ''THREAT'') (concat (map published acts)))"

text \<open>The entries a schedule delivers, and whether it ends the loop.\<close>

fun received :: "'p sel list \<Rightarrow> 'p Event list" where
  "received [] = []"
| "received (SelDone es # _) = es"
| "received (SelReload # sels) = received sels"
| "received (SelEntry e # sels) = e # received sels"
| "received (SelClosed # _) = []"

fun ends :: "'p sel list \<Rightarrow> bool" where
  "ends [] = False"
| "ends (SelDone es # _) = True"
| "ends (SelReload # sels) = ends sels"
| "ends (SelEntry e # sels) = ends sels"
| "ends (SelClosed # _) = True"

definition rt_ok :: "('p, 'w) RSink list \<Rightarrow> 'p Event list \<Rightarrow> ('p, 'w) rt \<Rightarrow> bool" where
  "rt_ok sinks es s \<longleftrightarrow>
     map fst (processed_of (rt_trace s)) = es \<and>
     written_of (rt_trace s) = fan_out sinks (map snd (processed_of (rt_trace s))) \<and>
     processedCount s = of_nat (length es) \<and>
     eventCount s = of_nat (threats (map snd (processed_of (rt_trace s))))"

text \<open>The product's code does not panic.\<close>

definition product_total :: "('p, 'st, 'w) Product \<Rightarrow> ('p, 'w) RSink list \<Rightarrow> bool" where
  "product_total P sinks \<longleftrightarrow>
     (\<forall>live e st ev w. process P live e st ev w \<noteq> None) \<and> (\<forall>st w. Reload P st w \<noteq> None) \<and>
     (\<forall>sk \<in> set sinks. (\<forall>live e w. sk_Write sk live e w \<noteq> None) \<and>
        (case sk_Reload sk of None \<Rightarrow> True | Some r \<Rightarrow> \<forall>w. r w \<noteq> None))"

lemma processed_of_append [simp]: "processed_of (xs @ ys) = processed_of xs @ processed_of ys"
  by (induction xs rule: processed_of.induct) simp_all

lemma written_of_append [simp]: "written_of (xs @ ys) = written_of xs @ written_of ys"
  by (induction xs rule: written_of.induct) simp_all

lemma fan_out_append [simp]: "fan_out sinks (xs @ ys) = fan_out sinks xs @ fan_out sinks ys"
  by (simp add: fan_out_def)

lemma fan_out_Nil [simp]: "fan_out sinks [] = []"
  by (simp add: fan_out_def)

lemma threats_append [simp]: "threats (xs @ ys) = threats xs + threats ys"
  by (simp add: threats_def)

lemma threats_Nil [simp]: "threats [] = 0"
  by (simp add: threats_def)

lemma emit_fields [simp]:
  "rt_trace (emit e s) = rt_trace s @ [e]" "rt_world (emit e s) = rt_world s"
  "processedCount (emit e s) = processedCount s" "eventCount (emit e s) = eventCount s"
  by (simp_all add: emit_def)

text \<open>Only a processed entry and a write count; logging and callbacks do not.\<close>

lemma emit_quiet: "processed_of [e] = [] \<Longrightarrow> written_of [e] = [] \<Longrightarrow> rt_ok sinks es (emit e s) = rt_ok sinks es s"
  by (simp add: rt_ok_def)

lemma rt_ok_world [simp]: "rt_ok sinks es (s\<lparr>rt_world := w\<rparr>) = rt_ok sinks es s"
  by (simp add: rt_ok_def)

lemma emit_if_fields [simp]:
  "processedCount (emit_if b e s) = processedCount s" "eventCount (emit_if b e s) = eventCount s"
  "processed_of [e] = [] \<Longrightarrow> processed_of (rt_trace (emit_if b e s)) = processed_of (rt_trace s)"
  "written_of [e] = [] \<Longrightarrow> written_of (rt_trace (emit_if b e s)) = written_of (rt_trace s)"
  by (simp_all add: emit_if_def)

lemma write_sinks_total:
  "(\<And>sk live e w. sk \<in> set sinks \<Longrightarrow> sk_Write sk live e w \<noteq> None) \<Longrightarrow>
   \<exists>s'. write_sinks cb live evctx ev sinks s = (False, s') \<and>
     processed_of (rt_trace s') = processed_of (rt_trace s) \<and>
     written_of (rt_trace s') = written_of (rt_trace s) @ map (\<lambda>sk. (sk_Name sk, ev)) sinks \<and>
     processedCount s' = processedCount s \<and> eventCount s' = eventCount s"
proof (induction sinks arbitrary: s)
  case (Cons sink sinks)
  obtain err w where w: "sk_Write sink live ev (rt_world s) = Some (err, w)"
    using Cons.prems [of sink live ev "rt_world s"] by auto
  define s1 where "s1 = (case err of
       Some e \<Rightarrow> emit (Logged (SinkWriteError (logTag (ev_StreamName evctx) (ev_PipelineName evctx)) (sk_Name sink) e))
         (emit (Written (sk_Name sink) ev err) (s\<lparr>rt_world := w\<rparr>))
     | None \<Rightarrow> emit_if (case cb of None \<Rightarrow> False | Some c \<Rightarrow> has_RecordOutputEvent c)
         (RecordOutputEvent (ev_StreamName evctx) (ev_PipelineName evctx) (sk_Name sink))
         (emit (Written (sk_Name sink) ev err) (s\<lparr>rt_world := w\<rparr>)))"
  have step: "write_sinks cb live evctx ev (sink # sinks) s = write_sinks cb live evctx ev sinks s1"
    using w by (cases err) (simp_all add: s1_def Let_def)
  have s1: "processed_of (rt_trace s1) = processed_of (rt_trace s)"
    "written_of (rt_trace s1) = written_of (rt_trace s) @ [(sk_Name sink, ev)]"
    "processedCount s1 = processedCount s" "eventCount s1 = eventCount s"
    by (cases err; simp add: s1_def)+
  show ?case using Cons.IH [of s1] Cons.prems by (simp only: step) (simp add: s1)
qed simp

lemma dispatchEntry_ok:
  assumes "product_total P sinks" "rt_ok sinks es s"
  shows "\<exists>s'. dispatchEntry P cb sinks evctx ps live e s = (False, s') \<and> rt_ok sinks (es @ [e]) s'"
proof -
  have tot: "\<And>sk live e w. sk \<in> set sinks \<Longrightarrow> sk_Write sk live e w \<noteq> None"
    using assms(1) by (auto simp: product_total_def)
  define s2 where "s2 = emit_if (case cb of None \<Rightarrow> False | Some c \<Rightarrow> has_RecordLine c)
    (RecordLine (ev_StreamName evctx) (ev_PipelineName evctx) (ev_SourceName evctx) (ev_SourceType evctx))
    (s\<lparr>processedCount := processedCount s + 1\<rparr>)"
  have "process P live e ps evctx (rt_world s2) \<noteq> None" using assms(1) unfolding product_total_def by blast
  then obtain a w where a: "process P live e ps evctx (rt_world s2) = Some (a, w)" by auto
  define s3 where "s3 = emit (Processed e a) (s2\<lparr>rt_world := w\<rparr>)"
  have s3: "processed_of (rt_trace s3) = processed_of (rt_trace s) @ [(e, a)]"
    "written_of (rt_trace s3) = written_of (rt_trace s)"
    "processedCount s3 = processedCount s + 1" "eventCount s3 = eventCount s"
    by (simp_all add: s3_def s2_def)
  show ?thesis
  proof (cases "published a")
    case Nil
    then have "dispatchEntry P cb sinks evctx ps live e s = (False, s3)"
      using a by (auto simp: dispatchEntry_def Let_def s2_def [symmetric] s3_def published_def split: option.splits if_splits)
    moreover have "rt_ok sinks (es @ [e]) s3"
      using assms(2) s3 Nil by (simp add: rt_ok_def fan_out_def threats_def)
    ultimately show ?thesis by blast
  next
    case (Cons ev rest)
    then have pub: "\<not> act_Skip a" "act_Payload a = Some ev" "published a = [ev]"
      by (auto simp: published_def split: if_splits option.splits)
    define s5 where "s5 = emit_if (case cb of None \<Rightarrow> False | Some c \<Rightarrow> has_RecordThreat c)
      (RecordThreat (ev_StreamName evctx) (ev_PipelineName evctx) (Level ev))
      (if Level ev = ''THREAT'' then s3\<lparr>eventCount := eventCount s3 + 1\<rparr> else s3)"
    have disp: "dispatchEntry P cb sinks evctx ps live e s = write_sinks cb live evctx ev sinks s5"
      using a pub by (simp add: dispatchEntry_def Let_def s2_def [symmetric] s3_def [symmetric] s5_def)
    from write_sinks_total [of sinks cb live evctx ev s5, OF tot] obtain s' where
      s': "write_sinks cb live evctx ev sinks s5 = (False, s')"
      "processed_of (rt_trace s') = processed_of (rt_trace s5)"
      "written_of (rt_trace s') = written_of (rt_trace s5) @ map (\<lambda>sk. (sk_Name sk, ev)) sinks"
      "processedCount s' = processedCount s5" "eventCount s' = eventCount s5"
      by blast
    have "rt_ok sinks (es @ [e]) s'"
      using assms(2) s' s3 pub by (simp add: rt_ok_def s5_def fan_out_def threats_def)
    with disp s'(1) show ?thesis by metis
  qed
qed

lemma drain_ok:
  assumes "product_total P sinks"
  shows "rt_ok sinks es s \<Longrightarrow> \<exists>s'. drain P cb sinks evctx ps xs s = (False, s') \<and> rt_ok sinks (es @ xs) s'"
proof (induction xs arbitrary: es s)
  case (Cons x xs)
  from dispatchEntry_ok [OF assms Cons.prems] obtain s1 where
    s1: "dispatchEntry P cb sinks evctx ps False x s = (False, s1)" "rt_ok sinks (es @ [x]) s1" by blast
  from Cons.IH [OF s1(2)] s1(1) show ?case by simp
qed simp

lemma reload_sinks_ok:
  "\<forall>sk \<in> set sinks. (case sk_Reload sk of None \<Rightarrow> True | Some r \<Rightarrow> \<forall>w. r w \<noteq> None) \<Longrightarrow> rt_ok all es s \<Longrightarrow>
   \<exists>s'. reload_sinks t sinks s = (False, s') \<and> rt_ok all es s'"
proof (induction sinks arbitrary: s)
  case (Cons sink sinks)
  show ?case
  proof (cases "sk_Reload sink")
    case None
    with Cons.IH [of s] Cons.prems show ?thesis by simp
  next
    case (Some r)
    have "r (rt_world s) \<noteq> None" using Cons.prems(1) Some by simp
    then obtain err w where w: "r (rt_world s) = Some (err, w)" by auto
    define s1 where "s1 = (case err of None \<Rightarrow> emit (SinkReloaded (sk_Name sink)) (s\<lparr>rt_world := w\<rparr>)
      | Some e \<Rightarrow> emit (Logged (SinkReloadError t (sk_Name sink) e)) (emit (SinkReloaded (sk_Name sink)) (s\<lparr>rt_world := w\<rparr>)))"
    have "rt_ok all es s1" using Cons.prems(2) by (cases err) (simp_all add: s1_def emit_quiet)
    with Cons.IH [of s1] Cons.prems(1) Some w show ?thesis by (simp add: s1_def Let_def)
  qed
qed simp

lemma select_loop_ok:
  assumes tot: "product_total P sinks"
  shows "rt_ok sinks es s \<Longrightarrow>
    \<exists>s'. select_loop P cb sinks t evctx ps sels s = (if ends sels then Returned else Waiting, s') \<and>
      rt_ok sinks (es @ received sels) s'"
proof (induction sels arbitrary: es s ps)
  case (Cons x sels)
  show ?case
  proof (cases x)
    case (SelDone xs)
    from drain_ok [OF tot, of es "emit (Logged (Draining t)) s" cb evctx ps xs] Cons.prems obtain s' where
      "drain P cb sinks evctx ps xs (emit (Logged (Draining t)) s) = (False, s')" "rt_ok sinks (es @ xs) s'"
      by (auto simp: emit_quiet)
    then show ?thesis using SelDone by (simp add: emit_quiet)
  next
    case SelReload
    have "Reload P ps (rt_world s) \<noteq> None" using tot unfolding product_total_def by blast
    then obtain r w where r: "Reload P ps (rt_world s) = Some (r, w)" by auto
    show ?thesis
    proof (cases r)
      case (Inl err)
      with Cons.IH [of es "emit (Logged (ReloadError t err)) (s\<lparr>rt_world := w\<rparr>)" ps] Cons.prems r SelReload
      show ?thesis by (simp add: emit_quiet)
    next
      case (Inr newPs)
      have "\<exists>s'. reload_sinks t sinks (s\<lparr>rt_world := w\<rparr>) = (False, s') \<and> rt_ok sinks es s'"
        by (rule reload_sinks_ok) (use tot Cons.prems in \<open>simp_all add: product_total_def\<close>)
      then obtain s1 where s1: "reload_sinks t sinks (s\<lparr>rt_world := w\<rparr>) = (False, s1)" "rt_ok sinks es s1" by blast
      with Cons.IH [of es "emit (Logged (Reloaded t)) s1" newPs] r Inr SelReload show ?thesis by (simp add: emit_quiet)
    qed
  next
    case (SelEntry e)
    from dispatchEntry_ok [OF tot Cons.prems] obtain s1 where
      s1: "dispatchEntry P cb sinks evctx ps True e s = (False, s1)" "rt_ok sinks (es @ [e]) s1" by blast
    from Cons.IH [OF s1(2)] s1(1) SelEntry show ?thesis by simp
  next
    case SelClosed
    with Cons.prems show ?thesis by (simp add: emit_quiet)
  qed
qed simp

text \<open>A tick of the goroutine is one tick on the state of the pipeline.\<close>

lemma stats_tick_trace:
  "rt_trace (stats_tick cb strm pipe s) = rt_trace s @ stats_loop cb strm pipe [StatsTick (processedCount s) (eventCount s)]"
  by (simp add: stats_tick_def Let_def emit_if_def)

text \<open>A negative interval is passed on and stops the program.\<close>

lemma negative_interval_panics: "sint (StatsInterval strm) < 0 \<Longrightarrow> runStats cb strm pipe es = None"
  by (auto simp: runStats_def statsInterval_of_def)

section \<open>The fan-in\<close>

text \<open>
  The sources of \<^verbatim>\<open>Merge\<close>: what each will still send, or that its goroutine is over (after a return, an
  error or a recovered panic, all alike for the channel). Events are marked with the number of their
  source. A full channel makes the source drop the event (the policy of the sources) or wait; the
  closer closes the channel once all goroutines are over.
\<close>

record 'e merge =
  m_sources :: "'e list option list"
  m_out :: "(nat \<times> 'e) list"
  m_cap :: nat
  m_closed :: bool

definition Merge :: "'e list list \<Rightarrow> nat \<Rightarrow> 'e merge" where
  "Merge sources bufSize = \<lparr>m_sources = map Some sources, m_out = [], m_cap = bufSize, m_closed = False\<rparr>"

datatype 'e merge_event = Sent nat 'e | Dropped nat 'e | Over nat | Closed | Received nat 'e

inductive merge_step :: "'e merge \<Rightarrow> 'e merge_event \<Rightarrow> 'e merge \<Rightarrow> bool" where
  send: "i < length (m_sources m) \<Longrightarrow> m_sources m ! i = Some (e # es) \<Longrightarrow> length (m_out m) < m_cap m \<Longrightarrow>
    merge_step m (Sent i e) (m\<lparr>m_sources := (m_sources m)[i := Some es], m_out := m_out m @ [(i, e)]\<rparr>)"
| drop: "i < length (m_sources m) \<Longrightarrow> m_sources m ! i = Some (e # es) \<Longrightarrow> m_cap m \<le> length (m_out m) \<Longrightarrow>
    merge_step m (Dropped i e) (m\<lparr>m_sources := (m_sources m)[i := Some es]\<rparr>)"
| over: "i < length (m_sources m) \<Longrightarrow> m_sources m ! i = Some es \<Longrightarrow>
    merge_step m (Over i) (m\<lparr>m_sources := (m_sources m)[i := None]\<rparr>)"
| close: "\<not> m_closed m \<Longrightarrow> list_all (\<lambda>s. s = None) (m_sources m) \<Longrightarrow> merge_step m Closed (m\<lparr>m_closed := True\<rparr>)"
| receive: "m_out m = (i, e) # rest \<Longrightarrow> merge_step m (Received i e) (m\<lparr>m_out := rest\<rparr>)"

inductive merge_run :: "'e merge \<Rightarrow> 'e merge_event list \<Rightarrow> 'e merge \<Rightarrow> bool" where
  none: "merge_run m [] m"
| step: "merge_run m evs m1 \<Longrightarrow> merge_step m1 e m2 \<Longrightarrow> merge_run m (evs @ [e]) m2"

fun sent_by :: "nat \<Rightarrow> 'e merge_event list \<Rightarrow> 'e list" where
  "sent_by i [] = []"
| "sent_by i (Sent j e # es) = (if i = j then e # sent_by i es else sent_by i es)"
| "sent_by i (_ # es) = sent_by i es"

fun received_all :: "'e merge_event list \<Rightarrow> (nat \<times> 'e) list" where
  "received_all [] = []"
| "received_all (Received i e # es) = (i, e) # received_all es"
| "received_all (_ # es) = received_all es"

definition from_source :: "nat \<Rightarrow> (nat \<times> 'e) list \<Rightarrow> 'e list" where
  "from_source i xs = map snd (filter (\<lambda>(j, e). j = i) xs)"

lemma sent_by_append [simp]: "sent_by i (xs @ ys) = sent_by i xs @ sent_by i ys"
  by (induction i xs rule: sent_by.induct) simp_all

lemma received_all_append [simp]: "received_all (xs @ ys) = received_all xs @ received_all ys"
  by (induction xs rule: received_all.induct) simp_all

lemma from_source_append [simp]: "from_source i (xs @ ys) = from_source i xs @ from_source i ys"
  by (simp add: from_source_def)

lemma merge_run_ok:
  "merge_run m evs m' \<Longrightarrow> m = Merge sources n \<Longrightarrow>
   (\<forall>i. sent_by i evs = from_source i (received_all evs @ m_out m')) \<and> length (m_out m') \<le> n \<and> m_cap m' = n \<and>
   (m_closed m' \<longrightarrow> list_all (\<lambda>s. s = None) (m_sources m'))"
proof (induction rule: merge_run.induct)
  case (step m evs m1 e m2)
  then have IH: "\<forall>i. sent_by i evs = from_source i (received_all evs @ m_out m1)" "length (m_out m1) \<le> n" "m_cap m1 = n"
    "m_closed m1 \<longrightarrow> list_all (\<lambda>s. s = None) (m_sources m1)" by auto
  have live: "\<not> m_closed m1" if "i < length (m_sources m1)" "m_sources m1 ! i = Some es" for i es
    using IH(4) that by (auto simp: list_all_length)
  from step.hyps(2) show ?case
  proof cases
    case (send i x es)
    then show ?thesis using IH(1-3) live [OF send(3,4)] by (simp add: from_source_def)
  next
    case (drop i x es)
    then show ?thesis using IH(1-3) live [OF drop(3,4)] by simp
  next
    case (over i es)
    then show ?thesis using IH(1-3) live [OF over(3,4)] by simp
  next
    case close
    then show ?thesis using IH(1-3) by simp
  next
    case (receive i x rest)
    then show ?thesis using IH by (simp add: from_source_def)
  qed
qed (simp add: Merge_def from_source_def)

section \<open>Properties\<close>

text \<open>
  C3: a pipeline whose state could be built, with a buffer size that is not negative, processes every entry it receives exactly once and in
  order, those that arrive during the shutdown included; it writes every published event to every
  sink exactly once, in order, whether or not other writes fail; the two counters are the number of
  entries and of published events of level THREAT, modulo \<open>2 ^ 64\<close>; and the loop ends exactly with the
  shutdown or the closing of the channel. Reloads, failed or not, change nothing of this.
\<close>

theorem pipeline_processes_each_entry_once:
  fixes P :: "('p, 'st, 'w) Product"
  assumes "product_total P (pipe_Sinks pipe)" "Build P (stream_Name strm) (pipe_Name pipe) (pipe_Idx pipe) w = Some (Inr ps, w1)"
    "0 \<le> BufferSize strm"
  shows "\<exists>s. runPipeline P cb strm pipe sels w = (if ends sels then Returned else Waiting, s) \<and>
    map fst (processed_of (rt_trace s)) = received sels \<and>
    written_of (rt_trace s) = fan_out (pipe_Sinks pipe) (map snd (processed_of (rt_trace s))) \<and>
    processedCount s = of_nat (length (received sels)) \<and>
    eventCount s = of_nat (threats (map snd (processed_of (rt_trace s))))"
proof -
  have start: "rt_ok (pipe_Sinks pipe) [] (emit (Logged x) (new_rt w1) :: ('p, 'w) rt)" for x
    by (simp add: emit_quiet) (simp add: rt_ok_def new_rt_def)
  define meta where "meta = (if 0 < length (pipe_Sources pipe) then sourceMetadata (pipe_Sources pipe) else ([], []))"
  define evctx where "evctx = \<lparr>ev_StreamName = stream_Name strm, ev_PipelineName = pipe_Name pipe,
    ev_SourceName = fst meta, ev_SourceType = snd meta, ev_PipelineIdx = pipe_Idx pipe\<rparr>"
  define t where "t = logTag (stream_Name strm) (pipe_Name pipe)"
  define s0 :: "('p, 'w) rt" where "s0 = emit (Logged (PipelineStarted t (length (pipe_Sources pipe)) (length (pipe_Sinks pipe)))) (new_rt w1)"
  obtain s where s: "select_loop P cb (pipe_Sinks pipe) t evctx ps sels s0 = (if ends sels then Returned else Waiting, s)"
    "rt_ok (pipe_Sinks pipe) (received sels) s"
    using select_loop_ok [OF assms(1) start, of cb t evctx ps sels] unfolding s0_def by auto
  have "runPipeline P cb strm pipe sels w = recovered t (select_loop P cb (pipe_Sinks pipe) t evctx ps sels s0)"
    using assms(2,3) by (simp add: runPipeline_def pipeline_bufSize_def Let_def t_def [symmetric] s0_def evctx_def meta_def case_prod_unfold)
  with s show ?thesis by (simp add: recovered_def rt_ok_def)
qed

definition demo_product :: "(nat, unit, nat) Product" where
  "demo_product = \<lparr>process = (\<lambda>live e st ev w. Some (\<lparr>act_Skip = (Payload e = 0), act_Payload = Some e\<rparr>, w + 1)),
     Build = (\<lambda>s p i w. Some (Inr (), w)), Reload = (\<lambda>st w. Some (Inl ''no config'', w)), is_LineProcessor = True\<rparr>"

definition demo_pipe :: "(nat, nat) PipelineSpec" where
  "demo_pipe = \<lparr>pipe_Name = ''p'', pipe_Idx = 0, pipe_Sources = [''file:a''],
     pipe_Sinks = [\<lparr>sk_Name = ''bad'', sk_Write = (\<lambda>l e w. Some (Some ''full'', w)), sk_Reload = None\<rparr>,
                   \<lparr>sk_Name = ''good'', sk_Write = (\<lambda>l e w. Some (None, w)), sk_Reload = None\<rparr>]\<rparr>"

definition demo_stream :: "(nat, nat) StreamSpec" where
  "demo_stream = \<lparr>stream_Name = ''s'', TrackerGroup = [], BufferSize = 0, ShutdownTimeout = 0, StatsInterval = 0,
     Pipelines = [demo_pipe]\<rparr>"

definition demo_entry :: "nat \<Rightarrow> nat Event" where
  "demo_entry n = \<lparr>Timestamp = \<lparr>t_ns = 0, t_off = 0\<rparr>, Stream = [], Source = [], SourceType = [], Level = ''THREAT'', Payload = n\<rparr>"

theorem pipeline_processes_each_entry_once_witness:
  "\<exists>s. runPipeline demo_product None demo_stream demo_pipe [SelEntry (demo_entry 0), SelReload, SelDone [demo_entry 7]] 0 =
      (if ends [SelEntry (demo_entry 0), SelReload, SelDone [demo_entry 7]] then Returned else Waiting, s) \<and>
    map fst (processed_of (rt_trace s)) = received [SelEntry (demo_entry 0), SelReload, SelDone [demo_entry 7]] \<and>
    written_of (rt_trace s) = fan_out (pipe_Sinks demo_pipe) (map snd (processed_of (rt_trace s))) \<and>
    processedCount s = of_nat (length (received [SelEntry (demo_entry 0), SelReload, SelDone [demo_entry 7]])) \<and>
    eventCount s = of_nat (threats (map snd (processed_of (rt_trace s))))"
  by (rule pipeline_processes_each_entry_once [where ps = "()" and ?w1.0 = 0])
     (simp_all add: product_total_def demo_product_def demo_pipe_def demo_stream_def)


lemma demo_merge_run:
  "merge_run (Merge [[1, 2], [3 :: nat]] 2) [Sent 0 1, Sent 1 3, Received 0 1]
     \<lparr>m_sources = [Some [2], Some []], m_out = [(1, 3)], m_cap = 2, m_closed = False\<rparr>"
proof -
  have a: "merge_step (Merge [[1, 2], [3 :: nat]] 2) (Sent 0 1)
      \<lparr>m_sources = [Some [2], Some [3]], m_out = [(0, 1)], m_cap = 2, m_closed = False\<rparr>"
    using merge_step.send [of 0 "Merge [[1, 2], [3 :: nat]] 2" 1 "[2]"] by (simp add: Merge_def)
  have b: "merge_step \<lparr>m_sources = [Some [2], Some [3 :: nat]], m_out = [(0, 1)], m_cap = 2, m_closed = False\<rparr> (Sent 1 3)
      \<lparr>m_sources = [Some [2], Some []], m_out = [(0, 1), (1, 3)], m_cap = 2, m_closed = False\<rparr>"
    using merge_step.send [of 1 "\<lparr>m_sources = [Some [2], Some [3 :: nat]], m_out = [(0, 1)], m_cap = 2, m_closed = False\<rparr>" 3 "[]"]
    by simp
  have c: "merge_step \<lparr>m_sources = [Some [2], Some []], m_out = [(0, 1 :: nat), (1, 3)], m_cap = 2, m_closed = False\<rparr>
      (Received 0 1) \<lparr>m_sources = [Some [2], Some []], m_out = [(1, 3)], m_cap = 2, m_closed = False\<rparr>"
    using merge_step.receive [of "\<lparr>m_sources = [Some [2], Some []], m_out = [(0, 1 :: nat), (1, 3)], m_cap = 2, m_closed = False\<rparr>" 0 1 "[(1, 3)]"]
    by simp
  from merge_run.step [OF merge_run.step [OF merge_run.step [OF merge_run.none a] b] c] show ?thesis by simp
qed


end
