(* ===== verification/Go_Text.thy ===== *)
theory Go_Text
  imports Rule_Types
begin

text \<open>
  The text functions of Go's standard library the input side calls: the byte searches, \<^verbatim>\<open>Cut\<close>,
  \<^verbatim>\<open>SplitN\<close>, \<^verbatim>\<open>TrimSpace\<close> and \<^verbatim>\<open>TrimRight\<close> of package \<^verbatim>\<open>strings\<close>, \<^verbatim>\<open>strconv.ParseInt\<close> with the value it
  returns beside an error, the lines of a \<^verbatim>\<open>bufio.Scanner\<close>, and the decoding of a JSON document into
  Go values as \<^verbatim>\<open>encoding/json\<close> does it.

  The JSON grammar itself, compiled regular expressions with their groups, and the printing of a
  double without a fraction are fields of the record \<open>textlib\<close>, an argument of the definitions that
  reach them.

  A scanner for a fixed regular expression is built from \<open>scan_lit\<close> and \<open>scan_field\<close>: each class of
  the expressions of the source excludes the first byte of what follows it, so that the longest run
  is the only one that can match, and \<open>scan_field_iff\<close> shows it.
\<close>

named_theorems scan_iff \<open>what a scanner accepts, as a decomposition of the line\<close>

section \<open>Package strings\<close>

definition IndexByte :: "string \<Rightarrow> char \<Rightarrow> nat option" where
  "IndexByte s c = (if c \<in> set s then Some (length (takeWhile (\<lambda>x. x \<noteq> c) s)) else None)"

definition LastIndexByte :: "string \<Rightarrow> char \<Rightarrow> nat option" where
  "LastIndexByte s c =
     (if c \<in> set s then Some (length s - 1 - length (takeWhile (\<lambda>x. x \<noteq> c) (rev s))) else None)"

fun str_index :: "string \<Rightarrow> string \<Rightarrow> nat option" where
  "str_index s p =
     (if HasPrefix s p then Some 0
      else case s of [] \<Rightarrow> None | _ # s' \<Rightarrow> map_option Suc (str_index s' p))"

declare str_index.simps [simp del]

definition Cut :: "string \<Rightarrow> string \<Rightarrow> string \<times> string \<times> bool" where
  "Cut s sep =
     (case str_index s sep of
        Some i \<Rightarrow> (take i s, drop (i + length sep) s, True)
      | None \<Rightarrow> (s, [], False))"

text \<open>\<^verbatim>\<open>strings.SplitN(s, sep, n)\<close> for a separator of one byte.\<close>

fun SplitN :: "string \<Rightarrow> char \<Rightarrow> nat \<Rightarrow> string list" where
  "SplitN s c 0 = []"
| "SplitN s c (Suc 0) = [s]"
| "SplitN s c (Suc (Suc n)) =
     (if c \<in> set s
      then takeWhile (\<lambda>x. x \<noteq> c) s # SplitN (tl (dropWhile (\<lambda>x. x \<noteq> c) s)) c (Suc n)
      else [s])"

definition TrimPrefix :: "string \<Rightarrow> string \<Rightarrow> string" where
  "TrimPrefix s p = (if HasPrefix s p then drop (length p) s else s)"

text \<open>\<^verbatim>\<open>strings.TrimRight(s, cutset)\<close> for a cutset of ASCII bytes.\<close>

definition TrimRight :: "string \<Rightarrow> string \<Rightarrow> string" where
  "TrimRight s cutset = rev (dropWhile (\<lambda>c. c \<in> set cutset) (rev s))"

text \<open>
  The UTF-8 encodings of the characters that are \<^verbatim>\<open>unicode.IsSpace\<close>: tab to carriage return, space,
  U+0085, U+00A0, U+1680, U+2000 to U+200A, U+2028, U+2029, U+202F, U+205F and U+3000.
\<close>

definition space_encodings :: "string list" where
  "space_encodings =
    [[CHR 0x09], [CHR 0x0A], [CHR 0x0B], [CHR 0x0C], [CHR 0x0D], [CHR 0x20], [CHR 0xC2, CHR 0x85],
     [CHR 0xC2, CHR 0xA0], [CHR 0xE1, CHR 0x9A, CHR 0x80], [CHR 0xE2, CHR 0x80, CHR 0x80],
     [CHR 0xE2, CHR 0x80, CHR 0x81], [CHR 0xE2, CHR 0x80, CHR 0x82],
     [CHR 0xE2, CHR 0x80, CHR 0x83], [CHR 0xE2, CHR 0x80, CHR 0x84],
     [CHR 0xE2, CHR 0x80, CHR 0x85], [CHR 0xE2, CHR 0x80, CHR 0x86],
     [CHR 0xE2, CHR 0x80, CHR 0x87], [CHR 0xE2, CHR 0x80, CHR 0x88],
     [CHR 0xE2, CHR 0x80, CHR 0x89], [CHR 0xE2, CHR 0x80, CHR 0x8A],
     [CHR 0xE2, CHR 0x80, CHR 0xA8], [CHR 0xE2, CHR 0x80, CHR 0xA9],
     [CHR 0xE2, CHR 0x80, CHR 0xAF], [CHR 0xE2, CHR 0x81, CHR 0x9F],
     [CHR 0xE3, CHR 0x80, CHR 0x80]]"

lemma space_encodings_nonempty: "p \<in> set space_encodings \<Longrightarrow> p \<noteq> []"
  by (auto simp: space_encodings_def)

function TrimLeftSpace :: "string \<Rightarrow> string" where
  "TrimLeftSpace s =
     (case find (HasPrefix s) space_encodings of
        None \<Rightarrow> s
      | Some p \<Rightarrow> TrimLeftSpace (drop (length p) s))"
  by pat_completeness auto
termination
proof (relation "measure length", simp)
  fix s p
  assume "find (HasPrefix s) space_encodings = Some p"
  then have "HasPrefix s p" "p \<in> set space_encodings"
    by (auto simp: find_Some_iff)
  then show "(drop (length p) s, s) \<in> measure length"
    using space_encodings_nonempty [of p] by (auto simp: HasPrefix_iff)
qed

function TrimRightSpace :: "string \<Rightarrow> string" where
  "TrimRightSpace s =
     (case find (HasSuffix s) space_encodings of
        None \<Rightarrow> s
      | Some p \<Rightarrow> TrimRightSpace (take (length s - length p) s))"
  by pat_completeness auto
termination
proof (relation "measure length", simp)
  fix s p
  assume "find (HasSuffix s) space_encodings = Some p"
  then have "HasSuffix s p" "p \<in> set space_encodings"
    by (auto simp: find_Some_iff)
  then show "(take (length s - length p) s, s) \<in> measure length"
    using space_encodings_nonempty [of p] by (auto simp: HasSuffix_iff)
qed

declare TrimLeftSpace.simps [simp del] TrimRightSpace.simps [simp del]

definition TrimSpace :: "string \<Rightarrow> string" where
  "TrimSpace s = TrimRightSpace (TrimLeftSpace s)"

text \<open>
  \<^verbatim>\<open>strconv.ParseInt(s, 10, 64)\<close> with the value the source keeps when it ignores the error: 0 for text
  that is not a number, the nearest bound for one out of range.
\<close>

definition ParseInt_value :: "string \<Rightarrow> i64" where
  "ParseInt_value s =
     (case ParseInt s of
        Some v \<Rightarrow> v
      | None \<Rightarrow>
          (let neg = (s \<noteq> [] \<and> hd s = CHR ''-'');
               body = (if s \<noteq> [] \<and> (hd s = CHR ''-'' \<or> hd s = CHR ''+'') then tl s else s)
           in if body = [] \<or> \<not> list_all is_digit body then 0
              else if neg then word_of_int min_int64 else word_of_int max_int64))"

subsection \<open>Lemmas\<close>

lemma takeWhile_until: "c \<notin> set s \<Longrightarrow> takeWhile (\<lambda>x. x \<noteq> c) (s @ c # t) = s"
  by (induction s) auto

lemma dropWhile_until: "c \<notin> set s \<Longrightarrow> dropWhile (\<lambda>x. x \<noteq> c) (s @ c # t) = c # t"
  by (induction s) auto

lemma IndexByte_append: "c \<notin> set s \<Longrightarrow> IndexByte (s @ c # t) c = Some (length s)"
  by (simp add: IndexByte_def takeWhile_until)

lemma IndexByte_None: "IndexByte s c = None \<longleftrightarrow> c \<notin> set s"
  by (simp add: IndexByte_def)

lemma LastIndexByte_append: "c \<notin> set t \<Longrightarrow> LastIndexByte (s @ c # t) c = Some (length s)"
  using takeWhile_until [of c "rev t" "rev s"] by (simp add: LastIndexByte_def)

lemma LastIndexByte_None: "LastIndexByte s c = None \<longleftrightarrow> c \<notin> set s"
  by (simp add: LastIndexByte_def)

lemma SplitN_three:
  "c \<notin> set a \<Longrightarrow> c \<notin> set b \<Longrightarrow> SplitN (a @ c # b @ c # d) c 3 = [a, b, d]"
  by (simp add: numeral_3_eq_3 takeWhile_until dropWhile_until)

lemma TrimLeftSpace_fixed: "find (HasPrefix s) space_encodings = None \<Longrightarrow> TrimLeftSpace s = s"
  by (simp add: TrimLeftSpace.simps)

lemma TrimRightSpace_fixed: "find (HasSuffix s) space_encodings = None \<Longrightarrow> TrimRightSpace s = s"
  by (simp add: TrimRightSpace.simps)

section \<open>Scanners for fixed expressions\<close>

definition scan_lit :: "string \<Rightarrow> string \<Rightarrow> string option" where
  "scan_lit p s = (if HasPrefix s p then Some (drop (length p) s) else None)"

text \<open>A run of the class \<open>P\<close> followed by a literal that starts outside of \<open>P\<close>.\<close>

definition scan_field :: "(char \<Rightarrow> bool) \<Rightarrow> bool \<Rightarrow> string \<Rightarrow> string \<Rightarrow> (string \<times> string) option" where
  "scan_field P some lit s =
     (if some \<and> takeWhile P s = [] then None
      else case scan_lit lit (dropWhile P s) of
             None \<Rightarrow> None
           | Some r \<Rightarrow> Some (takeWhile P s, r))"

lemma scan_lit_iff [scan_iff]: "scan_lit p s = Some r \<longleftrightarrow> s = p @ r"
  by (auto simp: scan_lit_def HasPrefix_iff)

lemma takeWhile_run:
  "list_all P a \<Longrightarrow> (r = [] \<or> \<not> P (hd r)) \<Longrightarrow> takeWhile P (a @ r) = a \<and> dropWhile P (a @ r) = r"
  by (induction a) (cases r; auto)+

lemma takeWhile_list_all: "list_all P (takeWhile P s)"
  by (auto simp: list_all_iff dest: set_takeWhileD)

lemma scan_field_iff [scan_iff]:
  assumes "lit \<noteq> []" "\<not> P (hd lit)"
  shows "scan_field P some lit s = Some (a, r) \<longleftrightarrow>
           s = a @ lit @ r \<and> list_all P a \<and> (some \<longrightarrow> a \<noteq> [])"
proof
  assume "scan_field P some lit s = Some (a, r)"
  then have a: "a = takeWhile P s" "dropWhile P s = lit @ r" "some \<longrightarrow> a \<noteq> []"
    by (auto simp: scan_field_def scan_lit_iff split: if_splits option.splits)
  have "s = takeWhile P s @ dropWhile P s" by simp
  then show "s = a @ lit @ r \<and> list_all P a \<and> (some \<longrightarrow> a \<noteq> [])"
    using a takeWhile_list_all [of P s] by simp
next
  assume r: "s = a @ lit @ r \<and> list_all P a \<and> (some \<longrightarrow> a \<noteq> [])"
  have "takeWhile P (a @ lit @ r) = a \<and> dropWhile P (a @ lit @ r) = lit @ r"
    by (rule takeWhile_run) (use r assms in auto)
  with r show "scan_field P some lit s = Some (a, r)"
    by (auto simp: scan_field_def scan_lit_iff split: option.split)
qed

section \<open>Doubles that hold integers\<close>

lemma bit_length_pos: "n \<noteq> 0 \<Longrightarrow> 2 ^ (bit_length n - 1) \<le> n \<and> n < 2 ^ bit_length n \<and> 0 < bit_length n"
proof (induction n rule: bit_length.induct)
  case (1 n)
  show ?case
  proof (cases "n div 2 = 0")
    case True
    then have "bit_length n = 1" "n = 1" using "1.prems" by (auto simp: bit_length.simps [of n] bit_length.simps [of 0])
    then show ?thesis by simp
  next
    case False
    let ?l = "bit_length (n div 2)"
    have ih: "2 ^ (?l - 1) \<le> n div 2" "n div 2 < 2 ^ ?l" "0 < ?l" using "1.IH" [OF "1.prems" False] by auto
    have l: "bit_length n = Suc ?l" using "1.prems" by (simp add: bit_length.simps [of n])
    have p: "(2 :: nat) ^ ?l = 2 * 2 ^ (?l - 1)" using ih(3) by (cases ?l) simp_all
    have "2 ^ ?l \<le> n" using ih(1) p by linarith
    moreover have "n < 2 ^ Suc ?l" using ih(2) by simp
    ultimately show ?thesis using l by simp
  qed
qed

text \<open>The fields of a double built from an exponent and a fraction.\<close>

lemma f_fields:
  fixes e m :: nat
  assumes "e < 2048" "m < 2 ^ 52"
  defines "x \<equiv> word_of_nat (e * 2 ^ 52 + m) :: f64"
  shows "f_exp x = e" "f_man x = m" "f_mag x = e * 2 ^ 52 + m" "\<not> bit x 63"
proof -
  have k: "e * 2 ^ 52 + m < 2 ^ 63" using assms(1,2) by simp
  then have u: "unat x = e * 2 ^ 52 + m" unfolding x_def unat_of_nat by (simp add: take_bit_nat_eq_self)
  have "(2047 :: f64) = mask 11" by (simp add: mask_eq_exp_minus_1)
  then have "f_exp x = take_bit 11 (unat (drop_bit 52 x))"
    unfolding f_exp_def by (simp only: take_bit_eq_mask [symmetric] unsigned_take_bit_eq)
  also have "unat (drop_bit 52 x) = (e * 2 ^ 52 + m) div 2 ^ 52"
    unfolding u [symmetric] unat_drop_bit_eq by (rule drop_bit_eq_div)
  finally show "f_exp x = e" using assms(1,2) by (simp add: take_bit_eq_mod)
  have "(4503599627370495 :: f64) = mask 52" by (simp add: mask_eq_exp_minus_1)
  then have "f_man x = take_bit 52 (unat x)"
    unfolding f_man_def by (simp only: take_bit_eq_mask [symmetric] unsigned_take_bit_eq)
  then show "f_man x = m" using assms(1,2) by (simp add: u take_bit_eq_mod)
  have "(9223372036854775807 :: f64) = mask 63" by (simp add: mask_eq_exp_minus_1)
  then have "f_mag x = take_bit 63 (unat x)"
    unfolding f_mag_def by (simp only: take_bit_eq_mask [symmetric] unsigned_take_bit_eq)
  then show "f_mag x = e * 2 ^ 52 + m" using k by (simp add: u take_bit_nat_eq_self)
  have "bit x 63 = bit (unat x) 63" by (simp add: bit_unsigned_iff)
  then show "\<not> bit x 63" using k by (simp add: u bit_iff_odd)
qed

lemma f_of_nat_small:
  assumes "n \<noteq> 0" "n < 2 ^ 53"
  shows "f_exp (f_of_nat n) = bit_length n + 1022 \<and> f_man (f_of_nat n) + 2 ^ 52 = n * 2 ^ (53 - bit_length n) \<and>
         bit_length n \<le> 53 \<and> f_mag (f_of_nat n) < 1076 * 2 ^ 52 \<and> \<not> bit (f_of_nat n) 63"
proof -
  let ?l = "bit_length n"
  have b: "2 ^ (?l - 1) \<le> n" "n < 2 ^ ?l" "0 < ?l" using bit_length_pos [OF assms(1)] by auto
  have l: "?l \<le> 53"
  proof (rule ccontr)
    assume "\<not> ?l \<le> 53"
    then have "(2 :: nat) ^ 53 \<le> 2 ^ (?l - 1)" by (intro power_increasing) auto
    then show False using b(1) assms(2) by linarith
  qed
  have lo: "2 ^ 52 \<le> n * 2 ^ (53 - ?l)"
  proof -
    have "(2 :: nat) ^ 52 = 2 ^ (?l - 1) * 2 ^ (53 - ?l)" using l b(3) by (simp flip: power_add)
    also have "\<dots> \<le> n * 2 ^ (53 - ?l)" using b(1) by simp
    finally show ?thesis .
  qed
  have hi: "n * 2 ^ (53 - ?l) < 2 ^ 53"
  proof -
    have "n * 2 ^ (53 - ?l) < 2 ^ ?l * 2 ^ (53 - ?l)" using b(2) by simp
    also have "\<dots> = 2 ^ 53" using l by (simp flip: power_add)
    finally show ?thesis .
  qed
  have "f_of_nat n = word_of_nat ((?l + 1022) * 2 ^ 52 + (n * 2 ^ (53 - ?l) - 2 ^ 52))"
    using assms(1) l by (simp add: f_of_nat_def Let_def)
  then show ?thesis using f_fields [of "?l + 1022" "n * 2 ^ (53 - ?l) - 2 ^ 52"] l lo hi by simp
qed

lemma f_neg:
  fixes x :: f64
  shows "f_exp (x OR push_bit 63 1) = f_exp x" "f_man (x OR push_bit 63 1) = f_man x"
    "f_mag (x OR push_bit 63 1) = f_mag x" "bit (x OR push_bit 63 1) 63"
proof -
  have "drop_bit 52 (x OR push_bit 63 1) AND (2047 :: f64) = drop_bit 52 x AND 2047"
    by (simp add: bit.conj_disj_distrib2 drop_bit_push_bit)
  then show "f_exp (x OR push_bit 63 1) = f_exp x" by (simp add: f_exp_def)
  have "(x OR push_bit 63 1) AND (4503599627370495 :: f64) = x AND 4503599627370495"
    by (simp add: bit.conj_disj_distrib2)
  then show "f_man (x OR push_bit 63 1) = f_man x" by (simp add: f_man_def)
  have "(x OR push_bit 63 1) AND (9223372036854775807 :: f64) = x AND 9223372036854775807"
    by (simp add: bit.conj_disj_distrib2)
  then show "f_mag (x OR push_bit 63 1) = f_mag x" by (simp add: f_mag_def)
  show "bit (x OR push_bit 63 1) 63" by (simp add: bit_or_iff bit_push_bit_iff)
qed


text \<open>The double of an integer of at most 53 bits: its fields, and that truncation gives the integer back.\<close>

lemma f_of_int_small:
  assumes "\<bar>i\<bar> < 2 ^ 53"
  shows "f_trunc (f_of_int i) = i" "\<not> IsNaN (f_of_int i)" "\<not> IsInf (f_of_int i)" "\<bar>f_key (f_of_int i)\<bar> < 1076 * 2 ^ 52"
proof -
  define n where "n = nat \<bar>i\<bar>"
  have fx: "f_of_int i = (if i < 0 then f_of_nat n OR push_bit 63 1 else f_of_nat n)"
    by (simp add: f_of_int_def n_def)
  have "f_trunc (f_of_int i) = i \<and> \<not> IsNaN (f_of_int i) \<and> \<not> IsInf (f_of_int i) \<and> \<bar>f_key (f_of_int i)\<bar> < 1076 * 2 ^ 52"
  proof (cases "i = 0")
    case True
    then show ?thesis
      by (simp add: f_of_int_def f_of_nat_def f_trunc_def f_exp_def f_man_def IsNaN_def IsInf_def f_key_def f_mag_def)
  next
    case False
    have n: "n \<noteq> 0" "n < 2 ^ 53" using False assms by (simp_all add: n_def)
    let ?l = "bit_length n"
    note s = f_of_nat_small [OF n]
    have e: "f_exp (f_of_int i) = ?l + 1022" "f_man (f_of_int i) + 2 ^ 52 = n * 2 ^ (53 - ?l)"
      "f_mag (f_of_int i) < 1076 * 2 ^ 52" "bit (f_of_int i) 63 = (i < 0)"
      using s f_neg [of "f_of_nat n"] by (auto simp: fx)
    have "1075 - (?l + 1022) = 53 - ?l" using s by simp
    then have "f_trunc (f_of_int i) = (if i < 0 then - int n else int n)"
      using s e by (simp add: f_trunc_def Let_def)
    then show ?thesis using False s e by (auto simp: n_def IsNaN_def IsInf_def f_key_def)
  qed
  then show "f_trunc (f_of_int i) = i" "\<not> IsNaN (f_of_int i)" "\<not> IsInf (f_of_int i)" "\<bar>f_key (f_of_int i)\<bar> < 1076 * 2 ^ 52"
    by auto
qed

text \<open>
  Conversion to \<^verbatim>\<open>int64\<close>, which truncates; outside of its range the result is left to the implementation, the parameter
  \<open>lib_f2i\<close>.
\<close>

definition float_to_int64 :: "golib \<Rightarrow> f64 \<Rightarrow> i64" where
  "float_to_int64 L x =
     (if \<not> IsNaN x \<and> \<not> IsInf x \<and> min_int64 \<le> f_trunc x \<and> f_trunc x \<le> max_int64
      then word_of_int (f_trunc x) else lib_f2i L x)"

text \<open>
  Multiplication: the product of the integer significands, rounded to 53 bits, or to fewer where the exponent would be
  below the smallest, to nearest with ties to even.
\<close>

definition f_sig :: "f64 \<Rightarrow> nat" where
  "f_sig x = (if f_exp x = 0 then f_man x else f_man x + 2 ^ 52)"

definition f_scale :: "f64 \<Rightarrow> int" where
  "f_scale x = (if f_exp x = 0 then - 1074 else int (f_exp x) - 1075)"

definition f_pack :: "bool \<Rightarrow> nat \<Rightarrow> int \<Rightarrow> f64" where
  "f_pack neg m e =
     (let k = max (int (bit_length m) - 53) (- 1074 - e);
          q = (if k \<le> 0 then m * 2 ^ nat (- k) else round_shift m (nat k));
          b = nat ((e + k + 1074) * 2 ^ 52 + int q);
          x = (if m = 0 then 0 else if b \<ge> 2047 * 2 ^ 52 then 2047 * 2 ^ 52 else b)
      in word_of_nat (if neg then x + 2 ^ 63 else x))"

definition f_mul :: "f64 \<Rightarrow> f64 \<Rightarrow> f64" where
  "f_mul x y =
     (let neg = (bit x 63 \<noteq> bit y 63)
      in if IsNaN x \<or> IsNaN y \<or> IsInf x \<and> f_sig y = 0 \<or> IsInf y \<and> f_sig x = 0 then 0x7FF8000000000001
         else if IsInf x \<or> IsInf y then f_pack neg (2 ^ 53) 971
         else f_pack neg (f_sig x * f_sig y) (f_scale x + f_scale y))"

section \<open>JSON\<close>

text \<open>
  The syntax tree of a document: numbers as their literal, objects with their members in the order
  of the text, duplicates included.
\<close>

datatype json =
    JNull
  | JBool bool
  | JNum string
  | JStr string
  | JArr "json list"
  | JObj "(string \<times> json) list"

text \<open>
  A Go value of type \<^verbatim>\<open>any\<close>, as the JSON and YAML decoders produce them.
\<close>

datatype any =
    ANil
  | ABool bool
  | AInt i64
  | AInt64 i64
  | AFloat f64
  | AString string
  | AStrings "string list"
  | AList "any list"
  | AMap "(string \<times> any) list"

text \<open>
  \<open>tl_json\<close> is the grammar (\<^verbatim>\<open>None\<close>: a syntax error), \<open>tl_print\<close> the compact text of a tree, \<open>tl_utf8\<close> the replacement
  of invalid UTF-8 by \<^verbatim>\<open>json.Marshal\<close>, \<open>tl_float_lit\<close> the literal of a finite double, \<open>tl_fold\<close> the case folding of a member name that
  is not ASCII, \<open>tl_format_f0\<close> is \<^verbatim>\<open>strconv.FormatFloat(x, 'f', 0, 64)\<close>. A compiled expression is its
  text: \<open>tl_re_compile\<close> says whether \<^verbatim>\<open>regexp.Compile\<close> accepts it, \<open>tl_re_names\<close> is \<^verbatim>\<open>SubexpNames\<close> and
  \<open>tl_re_groups\<close> is \<^verbatim>\<open>FindStringSubmatch\<close>.
\<close>

record textlib =
  tl_go :: golib
  tl_json :: "string \<Rightarrow> json option"
  tl_print :: "json \<Rightarrow> string"
  tl_utf8 :: "string \<Rightarrow> string"
  tl_float_lit :: "f64 \<Rightarrow> string"
  tl_fold :: "string \<Rightarrow> string"
  tl_format_f0 :: "f64 \<Rightarrow> string"
  tl_re_compile :: "string \<Rightarrow> bool"
  tl_re_names :: "string \<Rightarrow> string list"
  tl_re_groups :: "string \<Rightarrow> string \<Rightarrow> string list option"

definition textlib0 :: textlib where
  "textlib0 = \<lparr> tl_go = golib0, tl_json = (\<lambda>s. None), tl_print = (\<lambda>j. []),
     tl_utf8 = (\<lambda>s. s), tl_float_lit = (\<lambda>x. ''0''), tl_fold = (\<lambda>s. s), tl_format_f0 = (\<lambda>x. ''0''),
     tl_re_compile = (\<lambda>p. True), tl_re_names = (\<lambda>p. [[]]), tl_re_groups = (\<lambda>p s. None) \<rparr>"

definition all_some :: "'a option list \<Rightarrow> 'a list option" where
  "all_some xs = (if None \<in> set xs then None else Some (map the xs))"

text \<open>Decoding into \<^verbatim>\<open>any\<close>: numbers become \<^verbatim>\<open>float64\<close>, one out of range is an error.\<close>

fun json_any :: "golib \<Rightarrow> json \<Rightarrow> any option" where
  "json_any L JNull = Some ANil"
| "json_any L (JBool b) = Some (ABool b)"
| "json_any L (JNum n) = map_option AFloat (lib_parse_float L n)"
| "json_any L (JStr s) = Some (AString s)"
| "json_any L (JArr xs) = map_option AList (all_some (map (json_any L) xs))"
| "json_any L (JObj ms) =
     map_option AMap (all_some (map (\<lambda>(k, j). map_option (Pair k) (json_any L j)) ms))"

text \<open>
  Decoding into a \<^verbatim>\<open>map[string]any\<close> that is nil before: \<^verbatim>\<open>null\<close> leaves it nil, anything but an object
  is an error; a later member replaces an earlier one of the same name.
\<close>

definition unmarshal_map :: "textlib \<Rightarrow> string \<Rightarrow> (string \<times> any) list option" where
  "unmarshal_map T s =
     (case tl_json T s of
        None \<Rightarrow> None
      | Some JNull \<Rightarrow> Some []
      | Some (JObj ms) \<Rightarrow>
          (case json_any (tl_go T) (JObj ms) of Some (AMap kvs) \<Rightarrow> Some kvs | _ \<Rightarrow> None)
      | Some _ \<Rightarrow> None)"

definition map_get :: "(string \<times> 'a) list \<Rightarrow> string \<Rightarrow> 'a option" where
  "map_get m k = map_of (rev m) k"

text \<open>
  Decoding into a struct: the members in their order, each into the field of that name, or else of that name up to
  case; unknown members are skipped. A value of the wrong type sets the error and leaves the field. \<^verbatim>\<open>null\<close> leaves a
  field as it is. The result is the struct with whether an error was met.
\<close>

definition fold_name :: "textlib \<Rightarrow> string \<Rightarrow> string" where
  "fold_name T s = (if is_ascii s then map ascii_lower s else tl_fold T s)"

type_synonym 'r field_decoder = "json \<Rightarrow> 'r \<Rightarrow> 'r \<times> bool"

definition find_field :: "textlib \<Rightarrow> (string \<times> 'r field_decoder) list \<Rightarrow> string \<Rightarrow> 'r field_decoder option" where
  "find_field T fds k =
     (case map_of fds k of
        Some d \<Rightarrow> Some d
      | None \<Rightarrow> map_option snd (find (\<lambda>nd. fold_name T (fst nd) = fold_name T k) fds))"

fun decode_members :: "textlib \<Rightarrow> (string \<times> 'r field_decoder) list \<Rightarrow> (string \<times> json) list \<Rightarrow> 'r \<Rightarrow> bool \<Rightarrow> 'r \<times> bool" where
  "decode_members T fds [] r e = (r, e)"
| "decode_members T fds ((k, j) # ms) r e =
     (case find_field T fds k of
        None \<Rightarrow> decode_members T fds ms r e
      | Some d \<Rightarrow> (case d j r of (r1, e1) \<Rightarrow> decode_members T fds ms r1 (e \<or> e1)))"

definition decode_struct :: "textlib \<Rightarrow> (string \<times> 'r field_decoder) list \<Rightarrow> json \<Rightarrow> 'r \<Rightarrow> 'r \<times> bool" where
  "decode_struct T fds j r =
     (case j of JObj ms \<Rightarrow> decode_members T fds ms r False | JNull \<Rightarrow> (r, False) | _ \<Rightarrow> (r, True))"

definition dec_string :: "(string \<Rightarrow> 'r \<Rightarrow> 'r) \<Rightarrow> 'r field_decoder" where
  "dec_string upd j r = (case j of JStr s \<Rightarrow> (upd s r, False) | JNull \<Rightarrow> (r, False) | _ \<Rightarrow> (r, True))"

definition dec_int :: "(i64 \<Rightarrow> 'r \<Rightarrow> 'r) \<Rightarrow> 'r field_decoder" where
  "dec_int upd j r =
     (case j of
        JNum n \<Rightarrow> (case ParseInt n of Some v \<Rightarrow> (upd v r, False) | None \<Rightarrow> (r, True))
      | JNull \<Rightarrow> (r, False)
      | _ \<Rightarrow> (r, True))"

definition dec_bool :: "(bool \<Rightarrow> 'r \<Rightarrow> 'r) \<Rightarrow> 'r field_decoder" where
  "dec_bool upd j r = (case j of JBool b \<Rightarrow> (upd b r, False) | JNull \<Rightarrow> (r, False) | _ \<Rightarrow> (r, True))"

text \<open>An array of strings; an element that is no string stays empty and sets the error, unless it is \<^verbatim>\<open>null\<close>.\<close>

fun dec_elems :: "json list \<Rightarrow> string list \<times> bool" where
  "dec_elems [] = ([], False)"
| "dec_elems (JStr s # js) = (case dec_elems js of (ss, e) \<Rightarrow> (s # ss, e))"
| "dec_elems (JNull # js) = (case dec_elems js of (ss, e) \<Rightarrow> ([] # ss, e))"
| "dec_elems (_ # js) = (case dec_elems js of (ss, e) \<Rightarrow> ([] # ss, True))"

definition dec_strings :: "(string list option \<Rightarrow> 'r \<Rightarrow> 'r) \<Rightarrow> 'r field_decoder" where
  "dec_strings upd j r =
     (case j of
        JArr js \<Rightarrow> (case dec_elems js of (ss, e) \<Rightarrow> (upd (Some ss) r, e))
      | JNull \<Rightarrow> (upd None r, False)
      | _ \<Rightarrow> (r, True))"

text \<open>\<^verbatim>\<open>json.Unmarshal\<close> into a struct: a syntax error leaves it untouched.\<close>

definition unmarshal_struct :: "textlib \<Rightarrow> (string \<times> 'r field_decoder) list \<Rightarrow> string \<Rightarrow> 'r \<Rightarrow> 'r \<times> bool" where
  "unmarshal_struct T fds s r = (case tl_json T s of None \<Rightarrow> (r, True) | Some j \<Rightarrow> decode_struct T fds j r)"

lemma dec_elems_strings [simp]: "dec_elems (map JStr ss) = (ss, False)"
  by (induction ss) simp_all

lemma find_field_exact: "map_of fds k = Some d \<Longrightarrow> find_field T fds k = Some d"
  by (simp add: find_field_def)

end
