(* ===== verification/Syslog_Message.thy ===== *)
theory Syslog_Message
  imports Go_Text
begin

text \<open>
  The envelope of a syslog message, \<^verbatim>\<open>pkg/source/syslog/parser.go\<close>: \<^verbatim>\<open>parseMessage\<close> and the two header formats,
  RFC 3164 and RFC 5424. The index \<^verbatim>\<open>i\<close> of the source's loops is the suffix of the data that starts there:
  \<^verbatim>\<open>i >= len(data)\<close> is the empty suffix, and every read of \<^verbatim>\<open>data[i]\<close> is behind that test.

  The lemmas show that a message printed in either format, with any number of blanks between the header fields,
  yields its text, and that a message is never invented: it is a suffix of the datagram.
\<close>

section \<open>The parser\<close>

datatype syslog_error =
    EmptyMessage
  | BadPriority
  | EmptyAfterPriority
  | TooShort3164
  | NoContent3164
  | TooShort5424
  | NoContent5424

definition blank :: "char \<Rightarrow> bool" where
  "blank c = (c = CHR '' '')"

text \<open>The header loop: skip blanks, then a field, until \<open>n\<close> fields are counted or the data ends.\<close>

function header_fields :: "(nat \<Rightarrow> string \<Rightarrow> string) \<Rightarrow> nat \<Rightarrow> nat \<Rightarrow> string \<Rightarrow> nat \<times> string" where
  "header_fields skip n fieldCount s =
     (if s = [] \<or> n \<le> fieldCount then (fieldCount, s)
      else let s1 = dropWhile blank s
           in if s1 = [] then (fieldCount, [])
              else header_fields skip n (fieldCount + 1) (skip fieldCount s1))"
  by pat_completeness auto
termination by (relation "measure (\<lambda>(skip, n, fc, s). n - fc)") auto

declare header_fields.simps [simp del]

definition skip_field :: "nat \<Rightarrow> string \<Rightarrow> string" where
  "skip_field fieldCount s = dropWhile (\<lambda>c. \<not> blank c) s"

definition parseRFC3164 :: "string \<Rightarrow> syslog_error + string" where
  "parseRFC3164 data =
     (case header_fields skip_field 5 0 data of
        (fieldCount, s) \<Rightarrow>
          if fieldCount < 5 then Inl TooShort3164
          else let body = dropWhile blank s
               in if body = [] then Inl NoContent3164 else Inr body)"

text \<open>The seventh field may be structured data in brackets, up to the first closing one.\<close>

definition skip_field_sd :: "nat \<Rightarrow> string \<Rightarrow> string" where
  "skip_field_sd fieldCount s =
     (if fieldCount = 6 \<and> hd s = CHR ''[''
      then (case dropWhile (\<lambda>c. c \<noteq> CHR '']'') (tl s) of [] \<Rightarrow> [] | _ # r \<Rightarrow> r)
      else dropWhile (\<lambda>c. \<not> blank c) s)"

definition parseRFC5424 :: "string \<Rightarrow> syslog_error + string" where
  "parseRFC5424 data =
     (case header_fields skip_field_sd 7 0 data of
        (fieldCount, s) \<Rightarrow>
          if fieldCount < 7 then Inl TooShort5424
          else let body = dropWhile blank s
               in if body = [] then Inl NoContent5424 else Inr body)"

definition parseMessage :: "string \<Rightarrow> syslog_error + string" where
  "parseMessage raw =
     (if raw = [] then Inl EmptyMessage
      else case IndexByte raw CHR ''>'' of
             None \<Rightarrow> Inl BadPriority
           | Some idx \<Rightarrow>
               if 6 < idx then Inl BadPriority
               else let rest = drop (idx + 1) raw
                    in if rest = [] then Inl EmptyAfterPriority
                       else if 1 < length rest \<and> rest ! 0 = CHR ''1'' \<and> rest ! 1 = CHR '' ''
                       then parseRFC5424 rest
                       else parseRFC3164 rest)"

section \<open>Lemmas\<close>

subsection \<open>The header loop\<close>

definition word_ok :: "string \<Rightarrow> bool" where
  "word_ok w = (w \<noteq> [] \<and> list_all (\<lambda>c. \<not> blank c) w)"

definition gap_ok :: "string \<Rightarrow> bool" where
  "gap_ok g = (g \<noteq> [] \<and> list_all blank g)"

text \<open>Words, each followed by a gap.\<close>

fun spaced :: "(string \<times> string) list \<Rightarrow> string" where
  "spaced [] = []"
| "spaced ((w, g) # ws) = w @ g @ spaced ws"

definition words_ok :: "(string \<times> string) list \<Rightarrow> bool" where
  "words_ok ws = list_all (\<lambda>(w, g). word_ok w \<and> gap_ok g) ws"

lemma dropWhile_blank_gap: "list_all blank g \<Longrightarrow> dropWhile blank (g @ s) = dropWhile blank s"
  by (induction g) auto

lemma dropWhile_word:
  assumes "list_all (\<lambda>c. \<not> blank c) w" "gap_ok g"
  shows "dropWhile (\<lambda>c. \<not> blank c) (w @ g @ s) = g @ s"
  using assms by (induction w) (cases g; auto simp: gap_ok_def)+

lemma dropWhile_blank_word: "word_ok w \<Longrightarrow> dropWhile blank (w @ s) = w @ s"
  by (cases w) (auto simp: word_ok_def)

lemma header_fields_done: "n \<le> fc \<Longrightarrow> header_fields skip n fc s = (fc, s)"
  by (subst header_fields.simps) simp

text \<open>One field is one round of the loop, whatever blanks stand before it.\<close>

lemma header_fields_step:
  assumes "fc < n" "list_all blank g0" "word_ok w" "gap_ok g" "skip fc (w @ g @ s) = g @ s"
  shows "header_fields skip n fc (g0 @ w @ g @ s) = header_fields skip n (fc + 1) (g @ s)"
proof -
  have "dropWhile blank (g0 @ w @ g @ s) = w @ g @ s"
    using assms dropWhile_blank_gap [of g0] dropWhile_blank_word [of w] by simp
  moreover have "w \<noteq> []" using assms(3) by (simp add: word_ok_def)
  ultimately show ?thesis
    using assms(1,5) by (subst header_fields.simps) (simp add: Let_def)
qed

lemma header_fields_words:
  assumes "words_ok ws" "list_all blank g0"
    and "\<And>i w g s. i < fc + length ws \<Longrightarrow> (w, g) \<in> set ws \<Longrightarrow> skip i (w @ g @ s) = g @ s"
    and "fc + length ws \<le> n"
  shows "\<exists>g1. list_all blank g1 \<and>
           header_fields skip n fc (g0 @ spaced ws @ s) = header_fields skip n (fc + length ws) (g1 @ s)"
  using assms
proof (induction ws arbitrary: fc g0)
  case Nil
  then show ?case by auto
next
  case (Cons wg ws)
  obtain w g where wg: "wg = (w, g)" by (cases wg)
  have ok: "word_ok w" "gap_ok g" "words_ok ws" using Cons.prems(1) by (simp_all add: words_ok_def wg)
  have fc: "fc < n" using Cons.prems(4) by simp
  have "header_fields skip n fc (g0 @ w @ g @ spaced ws @ s) = header_fields skip n (fc + 1) (g @ spaced ws @ s)"
    by (rule header_fields_step [OF fc Cons.prems(2) ok(1,2)]) (use Cons.prems(3) fc wg in simp)
  moreover have "\<exists>g1. list_all blank g1 \<and>
      header_fields skip n (fc + 1) (g @ spaced ws @ s) = header_fields skip n (fc + 1 + length ws) (g1 @ s)"
    by (rule Cons.IH [OF ok(3)]) (use Cons.prems(3,4) ok(2) in \<open>auto simp: gap_ok_def\<close>)
  ultimately show ?case by (simp add: wg)
qed

subsection \<open>Both formats\<close>

definition body_ok :: "string \<Rightarrow> bool" where
  "body_ok m = (m \<noteq> [] \<and> \<not> blank (hd m))"

lemma dropWhile_body: "body_ok m \<Longrightarrow> list_all blank g \<Longrightarrow> dropWhile blank (g @ m) = m"
  by (cases m) (auto simp: body_ok_def dropWhile_blank_gap)

lemma skip_field_word: "word_ok w \<Longrightarrow> gap_ok g \<Longrightarrow> skip_field i (w @ g @ s) = g @ s"
  by (simp add: skip_field_def dropWhile_word word_ok_def)

lemma skip_field_sd_word:
  "word_ok w \<Longrightarrow> gap_ok g \<Longrightarrow> i \<noteq> 6 \<or> hd w \<noteq> CHR ''['' \<Longrightarrow> skip_field_sd i (w @ g @ s) = g @ s"
  by (cases w) (auto simp: skip_field_sd_def dropWhile_word word_ok_def)

lemma skip_field_sd_bracket:
  assumes "CHR '']'' \<notin> set sd"
  shows "skip_field_sd 6 ((CHR ''['' # sd @ '']'') @ s) = s"
  using dropWhile_until [OF assms, of s] by (simp add: skip_field_sd_def)

lemma words_skip_field: "words_ok ws \<Longrightarrow> (w, g) \<in> set ws \<Longrightarrow> skip_field i (w @ g @ s) = g @ s"
  by (rule skip_field_word) (auto simp: words_ok_def list_all_iff)

lemma parseRFC3164_words:
  assumes "words_ok ws" "length ws = 5" "list_all blank g0" "body_ok m"
  shows "parseRFC3164 (g0 @ spaced ws @ m) = Inr m"
proof -
  have "\<exists>g1. list_all blank g1 \<and> header_fields skip_field 5 0 (g0 @ spaced ws @ m) =
      header_fields skip_field 5 (0 + length ws) (g1 @ m)"
    by (rule header_fields_words [OF assms(1,3)]) (use words_skip_field [OF assms(1)] assms(2) in auto)
  then obtain g1 where "list_all blank g1"
    and "header_fields skip_field 5 0 (g0 @ spaced ws @ m) = header_fields skip_field 5 (0 + length ws) (g1 @ m)"
    by blast
  then show ?thesis
    using assms(2,4) dropWhile_body [OF assms(4), of g1]
    by (simp add: parseRFC3164_def header_fields_done body_ok_def del: dropWhile_eq_Nil_conv)
qed

text \<open>The structured data: a single dash or bracketed text without a closing bracket inside.\<close>

definition sd_ok :: "string \<Rightarrow> bool" where
  "sd_ok s = (s = ''-'' \<or> (\<exists>sd. CHR '']'' \<notin> set sd \<and> s = CHR ''['' # sd @ '']''))"

lemma sd_ok_hd: "sd_ok s \<Longrightarrow> s \<noteq> [] \<and> \<not> blank (hd s)"
  by (auto simp: sd_ok_def blank_def)

lemma header_fields_sd:
  assumes "sd_ok s" "gap_ok g" "list_all blank g1"
  shows "header_fields skip_field_sd 7 6 (g1 @ s @ g @ m) = (7, g @ m)"
proof -
  have "dropWhile blank (g1 @ s @ g @ m) = s @ g @ m"
    using sd_ok_hd [OF assms(1)] assms(3) by (cases s) (auto simp: dropWhile_blank_gap)
  moreover have "skip_field_sd 6 (s @ g @ m) = g @ m"
  proof (cases "s = ''-''")
    case True
    have "skip_field_sd 6 (''-'' @ g @ m) = g @ m"
      by (rule skip_field_sd_word) (use assms(2) in \<open>auto simp: word_ok_def blank_def\<close>)
    then show ?thesis by (simp only: True)
  next
    case False
    then show ?thesis using assms(1) skip_field_sd_bracket by (auto simp: sd_ok_def)
  qed
  moreover have "s \<noteq> []" using sd_ok_hd [OF assms(1)] by simp
  ultimately show ?thesis
    by (subst header_fields.simps) (simp add: Let_def header_fields_done)
qed

lemma parseRFC5424_words:
  assumes "words_ok ws" "length ws = 6" "sd_ok s" "gap_ok g" "body_ok m"
  shows "parseRFC5424 (spaced ws @ s @ g @ m) = Inr m"
proof -
  have skip: "skip_field_sd i (w @ g' @ r) = g' @ r" if "i < 6" "(w, g') \<in> set ws" for i w g' r
    by (rule skip_field_sd_word) (use that assms(1) in \<open>auto simp: words_ok_def list_all_iff\<close>)
  have "\<exists>g1. list_all blank g1 \<and> header_fields skip_field_sd 7 0 ([] @ spaced ws @ s @ g @ m) =
      header_fields skip_field_sd 7 (0 + length ws) (g1 @ s @ g @ m)"
    by (rule header_fields_words [OF assms(1)]) (use skip assms(2) in auto)
  then obtain g1 where "list_all blank g1" "header_fields skip_field_sd 7 0 (spaced ws @ s @ g @ m) =
      header_fields skip_field_sd 7 6 (g1 @ s @ g @ m)"
    using assms(2) by auto
  then have "header_fields skip_field_sd 7 0 (spaced ws @ s @ g @ m) = (7, g @ m)"
    using header_fields_sd [OF assms(3,4)] by simp
  then show ?thesis
    using assms(4,5) dropWhile_body [OF assms(5), of g]
    by (simp add: parseRFC5424_def gap_ok_def body_ok_def del: dropWhile_eq_Nil_conv)
qed

subsection \<open>Whole messages\<close>

lemma parseMessage_bracket:
  assumes "length pri \<le> 5" "CHR ''>'' \<notin> set pri" "rest \<noteq> []"
  shows "parseMessage (''<'' @ pri @ ''>'' @ rest) =
    (if 1 < length rest \<and> rest ! 0 = CHR ''1'' \<and> rest ! 1 = CHR '' '' then parseRFC5424 rest else parseRFC3164 rest)"
proof -
  have "IndexByte ((''<'' @ pri) @ CHR ''>'' # rest) CHR ''>'' = Some (length (''<'' @ pri))"
    by (rule IndexByte_append) (use assms(2) in simp)
  then show ?thesis using assms by (simp add: parseMessage_def Let_def)
qed

lemma words_start:
  assumes "words_ok ((w, g) # ws)" "w \<noteq> ''1''"
  shows "\<not> (1 < length (spaced ((w, g) # ws) @ m) \<and> (spaced ((w, g) # ws) @ m) ! 0 = CHR ''1'' \<and>
           (spaced ((w, g) # ws) @ m) ! 1 = CHR '' '')"
proof -
  have "word_ok w" using assms(1) by (simp add: words_ok_def)
  then consider c where "w = [c]" | c d v where "w = c # d # v" "\<not> blank d"
    by (cases w; cases "tl w") (auto simp: word_ok_def)
  then show ?thesis using assms(2) by cases (auto simp: blank_def)
qed



text \<open>Whatever the datagram, the text is a suffix of it that does not start with a blank.\<close>

definition suffix_of :: "string \<Rightarrow> string \<Rightarrow> bool" where
  "suffix_of m s = (\<exists>h. s = h @ m)"

lemma suffix_of_dropWhile: "suffix_of (dropWhile P s) s"
  unfolding suffix_of_def by (rule exI [of _ "takeWhile P s"]) simp

lemma suffix_of_trans: "suffix_of a b \<Longrightarrow> suffix_of b c \<Longrightarrow> suffix_of a c"
  by (auto simp: suffix_of_def)

lemma suffix_of_Nil: "suffix_of [] s"
  by (simp add: suffix_of_def)

lemma skip_field_suffix: "suffix_of (skip_field i s) s"
  by (simp add: skip_field_def suffix_of_dropWhile)

lemma skip_field_sd_suffix: "suffix_of (skip_field_sd i s) s"
proof (cases "i = 6 \<and> hd s = CHR ''['' \<and> dropWhile (\<lambda>c. c \<noteq> CHR '']'') (tl s) \<noteq> []")
  case True
  then obtain c r where r: "dropWhile (\<lambda>c. c \<noteq> CHR '']'') (tl s) = c # r" by (cases "dropWhile (\<lambda>c. c \<noteq> CHR '']'') (tl s)") auto
  then have "suffix_of (c # r) (tl s)" using suffix_of_dropWhile by metis
  then have "suffix_of r (tl s)" using suffix_of_trans by (metis append_Cons append_Nil suffix_of_def)
  moreover have "suffix_of (tl s) s" by (cases s) (auto simp: suffix_of_def intro: exI [of _ "[_]"])
  ultimately have "suffix_of r s" by (rule suffix_of_trans)
  with True r show ?thesis by (simp add: skip_field_sd_def)
next
  case False
  then show ?thesis
    by (auto simp: skip_field_sd_def suffix_of_Nil suffix_of_dropWhile simp del: dropWhile_eq_Nil_conv)
qed

lemma header_fields_suffix:
  assumes "\<And>i s. suffix_of (skip i s) s"
  shows "suffix_of (snd (header_fields skip n fc s)) s"
  using assms
proof (induction skip n fc s rule: header_fields.induct)
  case (1 skip n fc s)
  let ?s1 = "dropWhile blank s"
  show ?case
  proof (cases "s = [] \<or> n \<le> fc \<or> ?s1 = []")
    case True
    then show ?thesis by (subst header_fields.simps) (auto simp: suffix_of_def)
  next
    case False
    then have "suffix_of (snd (header_fields skip n (fc + 1) (skip fc ?s1))) (skip fc ?s1)"
      using "1.IH" [OF _ refl] "1.prems" by simp
    then have "suffix_of (snd (header_fields skip n (fc + 1) (skip fc ?s1))) s"
      using "1.prems" suffix_of_dropWhile suffix_of_trans by metis
    with False show ?thesis
      by (subst header_fields.simps) (simp add: Let_def del: dropWhile_eq_Nil_conv)
  qed
qed

lemma hd_dropWhile_blank: "dropWhile blank s \<noteq> [] \<Longrightarrow> body_ok (dropWhile blank s)"
  using hd_dropWhile [of blank s] by (simp add: body_ok_def del: dropWhile_eq_Nil_conv)

lemma parseRFC_suffix:
  "parseRFC3164 s = Inr m \<Longrightarrow> suffix_of m s \<and> body_ok m"
  "parseRFC5424 s = Inr m \<Longrightarrow> suffix_of m s \<and> body_ok m"
  using header_fields_suffix [of skip_field 5 0 s, OF skip_field_suffix]
    header_fields_suffix [of skip_field_sd 7 0 s, OF skip_field_sd_suffix]
    hd_dropWhile_blank suffix_of_dropWhile [of blank] suffix_of_trans
  by (fastforce simp: parseRFC3164_def parseRFC5424_def Let_def simp del: dropWhile_eq_Nil_conv
        split: prod.splits if_splits)+

theorem syslog_text_not_invented:
  "parseMessage raw = Inr m \<Longrightarrow> suffix_of m raw \<and> body_ok m"
proof -
  assume m: "parseMessage raw = Inr m"
  then obtain idx where "parseRFC5424 (drop idx raw) = Inr m \<or> parseRFC3164 (drop idx raw) = Inr m"
    by (auto simp: parseMessage_def Let_def split: option.splits if_splits)
  then have "suffix_of m (drop idx raw) \<and> body_ok m" using parseRFC_suffix by blast
  moreover have "suffix_of (drop idx raw) raw"
    unfolding suffix_of_def by (rule exI [of _ "take idx raw"]) simp
  ultimately show ?thesis using suffix_of_trans by blast
qed

text \<open>
  Two examples: a priority with no opening bracket is accepted, and with two elements of structured data the
  second becomes part of the text.
\<close>

lemma priority_bracket_not_checked:
  "parseMessage ''ab>Oct 11 22:14:15 host su: x'' = Inr ''x''"
  by code_simp

lemma second_element_leaks:
  "parseMessage ''<34>1 t h a p i [x][y] msg'' = Inr ''[y] msg''"
  by code_simp

end
