(* ===== verification/Log_Parser.thy ===== *)
theory Log_Parser
  imports Go_Text "HOL-Library.Monad_Syntax"
begin

text \<open>
  The access-log parsers, \<^verbatim>\<open>pkg/parser\<close>: the record \<^verbatim>\<open>LogEntry\<close> (\<^verbatim>\<open>types.go\<close>), the parser of nginx's combined
  format with the real address (\<^verbatim>\<open>combined.go\<close>), the JSON parser (\<^verbatim>\<open>json.go\<close>), the parser driven by a regular
  expression with named groups (\<^verbatim>\<open>regex.go\<close>), the server profiles built on it (\<^verbatim>\<open>profiles.go\<close>) and the bridge
  between a \<^verbatim>\<open>LogEntry\<close> and an event (\<^verbatim>\<open>event_bridge.go\<close>).

  The three fixed expressions of the source (\<open>logLineRe\<close>, the Apache and the HAProxy pattern) are written as
  scanners; \<open>logLineRe_iff\<close> and its siblings characterise them as the decompositions the expressions describe.
  The layouts of \<^verbatim>\<open>time.Parse\<close> and user-supplied expressions are parameters.
\<close>

section \<open>LogEntry\<close>

record LogEntry =
  le_RemoteAddr :: string
  le_RemoteUser :: string
  le_Time :: gotime
  le_Method :: string
  le_RawURI :: string
  le_Path :: string
  le_Query :: string
  le_Protocol :: string
  le_Status :: i64
  le_BytesSent :: i64
  le_Referer :: string
  le_UserAgent :: string
  le_RealIP :: string
  le_ChainIssue :: string

section \<open>Helpers shared by the parsers\<close>

definition nginxTimeLayout :: string where
  "nginxTimeLayout = ''02/Jan/2006:15:04:05 -0700''"

definition haproxyTimeLayout :: string where
  "haproxyTimeLayout = ''02/Jan/2006:15:04:05.000''"

definition splitRequest :: "string \<Rightarrow> string \<times> string \<times> string" where
  "splitRequest req =
     (let parts = SplitN req CHR '' '' 3
      in if length parts \<noteq> 3 then (req, [], []) else (parts ! 0, parts ! 1, parts ! 2))"

definition splitURI :: "string \<Rightarrow> string \<times> string" where
  "splitURI uri =
     (case IndexByte uri CHR ''?'' of
        None \<Rightarrow> (uri, [])
      | Some idx \<Rightarrow> (take idx uri, drop (idx + 1) uri))"

definition extractRealIP :: "string \<Rightarrow> string \<Rightarrow> string" where
  "extractRealIP realIP remoteAddr =
     (if realIP = [] \<or> realIP = ''-'' then remoteAddr
      else case LastIndexByte realIP CHR '','' of
             Some idx \<Rightarrow> TrimSpace (drop (idx + 1) realIP)
           | None \<Rightarrow> realIP)"

section \<open>The combined format\<close>

abbreviation dq :: char where "dq \<equiv> CHR 0x22"

text \<open>\<^verbatim>\<open>\S\<close> and \<^verbatim>\<open>[^"]\<close>.\<close>

definition nonspace :: "char \<Rightarrow> bool" where
  "nonspace c = (c \<notin> set [CHR 0x09, CHR 0x0A, CHR 0x0C, CHR 0x0D, CHR 0x20])"

definition noquote :: "char \<Rightarrow> bool" where
  "noquote c = (c \<noteq> dq)"

definition nobracket :: "char \<Rightarrow> bool" where
  "nobracket c = (c \<noteq> CHR '']'')"

definition logLineRe :: "string \<Rightarrow> string list option" where
  "logLineRe line = do {
     (a, s) \<leftarrow> scan_field nonspace True '' - '' line;
     (u, s) \<leftarrow> scan_field nonspace True '' ['' s;
     (t, s) \<leftarrow> scan_field nobracket True (''] '' @ [dq]) s;
     (r, s) \<leftarrow> scan_field noquote False (dq # '' '') s;
     (st, s) \<leftarrow> scan_field is_digit True '' '' s;
     (b, s) \<leftarrow> scan_field is_digit True ('' '' @ [dq]) s;
     (f, s) \<leftarrow> scan_field noquote False (dq # '' '' @ [dq]) s;
     (ua, s) \<leftarrow> scan_field noquote False (dq # '' '' @ [dq]) s;
     (ip, s) \<leftarrow> scan_field noquote False [dq] s;
     if s = [] then Some [a, u, t, r, st, b, f, ua, ip] else None
   }"

definition parseCombined :: "golib \<Rightarrow> string \<Rightarrow> LogEntry option" where
  "parseCombined L line = do {
     m \<leftarrow> logLineRe line;
     t \<leftarrow> lib_parse_time L nginxTimeLayout (m ! 2);
     status \<leftarrow> ParseInt (m ! 4);
     bytes \<leftarrow> ParseInt (m ! 5);
     let (method, rawURI, proto) = splitRequest (m ! 3);
     let (path, query) = splitURI rawURI;
     let realIP = extractRealIP (m ! 8) (m ! 0);
     Some \<lparr> le_RemoteAddr = m ! 0, le_RemoteUser = m ! 1, le_Time = t, le_Method = method,
       le_RawURI = rawURI, le_Path = path, le_Query = query, le_Protocol = proto,
       le_Status = status, le_BytesSent = bytes, le_Referer = m ! 6, le_UserAgent = m ! 7,
       le_RealIP = realIP, le_ChainIssue = [] \<rparr>
   }"

section \<open>The JSON format\<close>

record JSONFieldsConfig =
  jf_RemoteAddr :: string
  jf_Time :: string
  jf_Request :: string
  jf_Status :: string
  jf_BytesSent :: string
  jf_Referer :: string
  jf_UserAgent :: string
  jf_RealIP :: string

definition iso8601Layouts :: "string list" where
  "iso8601Layouts = [''2006-01-02T15:04:05-07:00'', ''2006-01-02T15:04:05-0700'']"

definition maxExactInt :: f64 where
  "maxExactInt = f_of_int (2 ^ 53)"

definition stringField :: "textlib \<Rightarrow> (string \<times> any) list \<Rightarrow> string \<Rightarrow> string" where
  "stringField T m key =
     (if key = [] then []
      else case map_get m key of
             Some (AString s) \<Rightarrow> s
           | Some (AFloat v) \<Rightarrow>
               (if \<not> f_lt v (f_of_int (- (2 ^ 53))) \<and> \<not> IsNaN v \<and> \<not> f_lt maxExactInt v
                   \<and> f_eq v (f_of_int (f_trunc v))
                then FormatInt (f_trunc v)
                else tl_format_f0 T v)
           | _ \<Rightarrow> [])"

text \<open>The loop over the layouts: the first that parses.\<close>

fun parse_layouts :: "golib \<Rightarrow> string list \<Rightarrow> string \<Rightarrow> gotime option" where
  "parse_layouts L [] s = None"
| "parse_layouts L (l # ls) s =
     (case lib_parse_time L l s of Some t \<Rightarrow> Some t | None \<Rightarrow> parse_layouts L ls s)"

definition JSONParser_Parse :: "textlib \<Rightarrow> JSONFieldsConfig \<Rightarrow> string \<Rightarrow> LogEntry option" where
  "JSONParser_Parse T f line = do {
     raw \<leftarrow> unmarshal_map T line;
     let remoteAddr = stringField T raw (jf_RemoteAddr f);
     let bytesStr = stringField T raw (jf_BytesSent f);
     t \<leftarrow> parse_layouts (tl_go T) iso8601Layouts (stringField T raw (jf_Time f));
     status \<leftarrow> ParseInt (stringField T raw (jf_Status f));
     bytesSent \<leftarrow> (if bytesStr \<noteq> [] \<and> bytesStr \<noteq> ''-'' then ParseInt bytesStr else Some 0);
     let (method, rawURI, proto) = splitRequest (stringField T raw (jf_Request f));
     let (path, query) = splitURI rawURI;
     let realIP = extractRealIP (stringField T raw (jf_RealIP f)) remoteAddr;
     Some \<lparr> le_RemoteAddr = remoteAddr, le_RemoteUser = [], le_Time = t, le_Method = method,
       le_RawURI = rawURI, le_Path = path, le_Query = query, le_Protocol = proto,
       le_Status = status, le_BytesSent = bytesSent, le_Referer = stringField T raw (jf_Referer f),
       le_UserAgent = stringField T raw (jf_UserAgent f),
       le_RealIP = realIP, le_ChainIssue = [] \<rparr>
   }"

section \<open>Regular expressions with named groups\<close>

datatype regex_error = InvalidPattern | MissingGroup string

record RegexParser =
  rp_re :: string
  rp_indices :: "(string \<times> nat) list"

definition mandatoryGroups :: "string list" where
  "mandatoryGroups = [''remote_addr'', ''time'', ''request'', ''status'', ''bytes_sent'']"

definition group_indices :: "string list \<Rightarrow> (string \<times> nat) list" where
  "group_indices names = filter (\<lambda>(n, i). n \<noteq> []) (zip names [0..<length names])"

fun first_missing :: "(string \<times> nat) list \<Rightarrow> string list \<Rightarrow> string option" where
  "first_missing ix [] = None"
| "first_missing ix (g # gs) = (if map_get ix g = None then Some g else first_missing ix gs)"

definition NewRegexParser :: "textlib \<Rightarrow> string \<Rightarrow> regex_error + RegexParser" where
  "NewRegexParser T pattern =
     fail_if (\<not> tl_re_compile T pattern) InvalidPattern
       (let indices = group_indices (tl_re_names T pattern)
        in case first_missing indices mandatoryGroups of
             Some g \<Rightarrow> Inl (MissingGroup g)
           | None \<Rightarrow> Inr \<lparr> rp_re = pattern, rp_indices = indices \<rparr>)"

text \<open>The closure \<^verbatim>\<open>get\<close>; an index past the groups would be a panic, the outer \<open>None\<close>.\<close>

definition get_group :: "RegexParser \<Rightarrow> string list \<Rightarrow> string \<Rightarrow> string option" where
  "get_group p m name =
     (case map_get (rp_indices p) name of
        Some i \<Rightarrow> if i < length m then Some (m ! i) else None
      | None \<Rightarrow> Some [])"

definition parse_time_or_zero :: "golib \<Rightarrow> string \<Rightarrow> string \<Rightarrow> gotime" where
  "parse_time_or_zero L layout s = (case lib_parse_time L layout s of Some t \<Rightarrow> t | None \<Rightarrow> zero_time)"

definition regex_time :: "golib \<Rightarrow> string \<Rightarrow> gotime" where
  "regex_time L raw =
     (if raw = [] then zero_time
      else let t = parse_time_or_zero L nginxTimeLayout raw
           in if time_Equal t zero_time then parse_time_or_zero L haproxyTimeLayout raw else t)"

definition RegexParser_Parse :: "textlib \<Rightarrow> RegexParser \<Rightarrow> string \<Rightarrow> LogEntry option option" where
  "RegexParser_Parse T p line =
     (case tl_re_groups T (rp_re p) line of
        None \<Rightarrow> Some None
      | Some m \<Rightarrow> do {
          rawTime \<leftarrow> get_group p m ''time'';
          request \<leftarrow> get_group p m ''request'';
          let (method, rawURI, proto) = splitRequest request;
          let (path, query) = splitURI rawURI;
          status \<leftarrow> get_group p m ''status'';
          bytesSent \<leftarrow> get_group p m ''bytes_sent'';
          remoteAddr \<leftarrow> get_group p m ''remote_addr'';
          realIP \<leftarrow> get_group p m ''real_ip'';
          remoteUser \<leftarrow> get_group p m ''remote_user'';
          referer \<leftarrow> get_group p m ''http_referer'';
          userAgent \<leftarrow> get_group p m ''http_user_agent'';
          Some (Some \<lparr> le_RemoteAddr = remoteAddr, le_RemoteUser = remoteUser,
            le_Time = regex_time (tl_go T) rawTime, le_Method = method,
            le_RawURI = rawURI, le_Path = path, le_Query = query, le_Protocol = proto,
            le_Status = ParseInt_value status, le_BytesSent = ParseInt_value bytesSent,
            le_Referer = referer, le_UserAgent = userAgent,
            le_RealIP = extractRealIP realIP remoteAddr, le_ChainIssue = [] \<rparr>)
        })"

section \<open>Profiles\<close>

definition apacheCLFPattern :: string where
  "apacheCLFPattern = ''^(?P<remote_addr>'' @ [CHR 0x5C] @ ''S+) '' @ [CHR 0x5C] @ ''S+ (?P<remote_user>''
     @ [CHR 0x5C] @ ''S+) '' @ [CHR 0x5C] @ ''[(?P<time>[^'' @ [CHR 0x5C] @ '']]+)'' @ [CHR 0x5C] @ ''] ''
     @ [dq] @ ''(?P<request>[^'' @ [dq] @ '']*)'' @ [dq] @ '' (?P<status>'' @ [CHR 0x5C] @ ''d+) (?P<bytes_sent>''
     @ [CHR 0x5C] @ ''S+)(?: '' @ [dq] @ ''(?P<http_referer>[^'' @ [dq] @ '']*)'' @ [dq, CHR '' '', dq]
     @ ''(?P<http_user_agent>[^'' @ [dq] @ '']*)'' @ [dq] @ '')?''"

definition haproxyHTTPPattern :: string where
  "haproxyHTTPPattern = ''^(?P<remote_addr>[^:]+):'' @ [CHR 0x5C] @ ''d+ '' @ [CHR 0x5C] @ ''[(?P<time>[^''
     @ [CHR 0x5C] @ '']]+)'' @ [CHR 0x5C] @ ''] '' @ [CHR 0x5C] @ ''S+ '' @ [CHR 0x5C] @ ''S+ '' @ [CHR 0x5C]
     @ ''S+ (?P<status>'' @ [CHR 0x5C] @ ''d+) (?P<bytes_sent>'' @ [CHR 0x5C] @ ''d+) '' @ [CHR 0x5C] @ ''S+ ''
     @ [CHR 0x5C] @ ''S+ '' @ [CHR 0x5C] @ ''S+ '' @ [CHR 0x5C] @ ''S+ '' @ [CHR 0x5C] @ ''S+ '' @ [dq]
     @ ''(?P<request>[^'' @ [dq] @ '']*)'' @ [dq] @ ''(?: '' @ [dq] @ ''(?P<http_user_agent>[^'' @ [dq] @ '']*)''
     @ [dq] @ '')?''"

definition profile_table :: "(string \<times> string) list" where
  "profile_table = [(''apache'', apacheCLFPattern), (''caddy'', apacheCLFPattern),
     (''traefik'', apacheCLFPattern), (''haproxy-http'', haproxyHTTPPattern),
     (''litespeed'', apacheCLFPattern)]"

definition AvailableProfiles :: string where
  "AvailableProfiles = join '', '' (sort (map fst profile_table))"

text \<open>
  What the two patterns match, group 0 the whole match, a group that did not take part empty.
\<close>

definition apacheCLF_names :: "string list" where
  "apacheCLF_names = [[], ''remote_addr'', ''remote_user'', ''time'', ''request'', ''status'', ''bytes_sent'',
     ''http_referer'', ''http_user_agent'']"

definition quoted_pair :: "string \<Rightarrow> string \<times> string \<times> string" where
  "quoted_pair s =
     (case do { r \<leftarrow> scan_lit ('' '' @ [dq]) s;
                (f, r) \<leftarrow> scan_field noquote False (dq # '' '' @ [dq]) r;
                (ua, r) \<leftarrow> scan_field noquote False [dq] r;
                Some (f, ua, r) } of
        Some x \<Rightarrow> x
      | None \<Rightarrow> ([], [], s))"

definition apacheCLF_groups :: "string \<Rightarrow> string list option" where
  "apacheCLF_groups line = do {
     (a, s) \<leftarrow> scan_field nonspace True '' '' line;
     (_, s) \<leftarrow> scan_field nonspace True '' '' s;
     (u, s) \<leftarrow> scan_field nonspace True '' ['' s;
     (t, s) \<leftarrow> scan_field nobracket True (''] '' @ [dq]) s;
     (r, s) \<leftarrow> scan_field noquote False (dq # '' '') s;
     (st, s) \<leftarrow> scan_field is_digit True '' '' s;
     if takeWhile nonspace s = [] then None
     else do {
       let b = takeWhile nonspace s;
       let (f, ua, rest) = quoted_pair (dropWhile nonspace s);
       Some [take (length line - length rest) line, a, u, t, r, st, b, f, ua]
     }
   }"

definition haproxy_names :: "string list" where
  "haproxy_names = [[], ''remote_addr'', ''time'', ''status'', ''bytes_sent'', ''request'', ''http_user_agent'']"

definition quoted_one :: "string \<Rightarrow> string \<times> string" where
  "quoted_one s =
     (case do { r \<leftarrow> scan_lit ('' '' @ [dq]) s;
                (ua, r) \<leftarrow> scan_field noquote False [dq] r;
                Some (ua, r) } of
        Some x \<Rightarrow> x
      | None \<Rightarrow> ([], s))"

definition haproxyHTTP_groups :: "string \<Rightarrow> string list option" where
  "haproxyHTTP_groups line = do {
     (a, s) \<leftarrow> scan_field (\<lambda>c. c \<noteq> CHR '':'') True '':'' line;
     (_, s) \<leftarrow> scan_field is_digit True '' ['' s;
     (t, s) \<leftarrow> scan_field nobracket True ''] '' s;
     (_, s) \<leftarrow> scan_field nonspace True '' '' s;
     (_, s) \<leftarrow> scan_field nonspace True '' '' s;
     (_, s) \<leftarrow> scan_field nonspace True '' '' s;
     (st, s) \<leftarrow> scan_field is_digit True '' '' s;
     (b, s) \<leftarrow> scan_field is_digit True '' '' s;
     (_, s) \<leftarrow> scan_field nonspace True '' '' s;
     (_, s) \<leftarrow> scan_field nonspace True '' '' s;
     (_, s) \<leftarrow> scan_field nonspace True '' '' s;
     (_, s) \<leftarrow> scan_field nonspace True '' '' s;
     (_, s) \<leftarrow> scan_field nonspace True ('' '' @ [dq]) s;
     (r, s) \<leftarrow> scan_field noquote False [dq] s;
     let (ua, rest) = quoted_one s;
     Some [take (length line - length rest) line, a, t, st, b, r, ua]
   }"

section \<open>The bridge to events\<close>

text \<open>
  The dynamic value of \<^verbatim>\<open>Event.Payload\<close>: the nil interface, a \<^verbatim>\<open>*LogEntry\<close> (which may itself be nil), or a
  value of another type, by its name.
\<close>

datatype payload = PNil | PLogEntry "LogEntry option" | POther string

datatype unwrap_panic = PanicNilEvent | PanicNilPayload | PanicType string

definition WrapLogEntry :: "LogEntry option \<Rightarrow> Envelope \<Rightarrow> payload Event" where
  "WrapLogEntry le env = \<lparr> Timestamp = Timestamp env, Stream = Stream env, Source = Source env,
     SourceType = SourceType env, Level = Level env, Payload = PLogEntry le \<rparr>"

definition UnwrapLogEntry :: "payload Event option \<Rightarrow> unwrap_panic + LogEntry option" where
  "UnwrapLogEntry ev =
     (case ev of
        None \<Rightarrow> Inl PanicNilEvent
      | Some e \<Rightarrow>
          (case Payload e of
             PNil \<Rightarrow> Inl PanicNilPayload
           | PLogEntry le \<Rightarrow> Inr le
           | POther ty \<Rightarrow> Inl (PanicType ty)))"

section \<open>Lemmas\<close>

subsection \<open>The scanners accept what the expressions describe\<close>

lemma class_ends [simp]:
  "\<not> nonspace CHR '' ''" "\<not> noquote dq" "\<not> nobracket CHR '']''" "\<not> is_digit CHR '' ''"
  by (simp_all add: nonspace_def noquote_def nobracket_def is_digit_def ch_def)

definition combined_line where
  "combined_line a u t r st b f ua ip =
     a @ '' - '' @ u @ '' ['' @ t @ ''] '' @ [dq] @ r @ [dq] @ '' '' @ st @ '' '' @ b @ '' '' @ [dq] @ f
       @ [dq] @ '' '' @ [dq] @ ua @ [dq] @ '' '' @ [dq] @ ip @ [dq]"

lemma logLineRe_iff:
  "logLineRe line = Some m \<longleftrightarrow>
     (\<exists>a u t r st b f ua ip. m = [a, u, t, r, st, b, f, ua, ip] \<and>
        line = combined_line a u t r st b f ua ip \<and>
        list_all nonspace a \<and> a \<noteq> [] \<and> list_all nonspace u \<and> u \<noteq> [] \<and>
        list_all nobracket t \<and> t \<noteq> [] \<and> list_all noquote r \<and>
        list_all is_digit st \<and> st \<noteq> [] \<and> list_all is_digit b \<and> b \<noteq> [] \<and>
        list_all noquote f \<and> list_all noquote ua \<and> list_all noquote ip)"
  unfolding logLineRe_def combined_line_def
  by (auto simp: bind_eq_Some_conv scan_field_iff split: if_splits)

lemma logLineRe_combined_line:
  assumes "list_all nonspace a" "a \<noteq> []" "list_all nonspace u" "u \<noteq> []"
    and "list_all nobracket t" "t \<noteq> []" "list_all noquote r"
    and "list_all is_digit st" "st \<noteq> []" "list_all is_digit b" "b \<noteq> []"
    and "list_all noquote f" "list_all noquote ua" "list_all noquote ip"
  shows "logLineRe (combined_line a u t r st b f ua ip) = Some [a, u, t, r, st, b, f, ua, ip]"
  using assms by (auto simp: logLineRe_iff)

subsection \<open>The helpers\<close>

lemma splitRequest_parts:
  "CHR '' '' \<notin> set m \<Longrightarrow> CHR '' '' \<notin> set u \<Longrightarrow> splitRequest (m @ '' '' @ u @ '' '' @ p) = (m, u, p)"
  by (simp add: splitRequest_def SplitN_three)

lemma splitURI_query: "CHR ''?'' \<notin> set p \<Longrightarrow> splitURI (p @ ''?'' @ q) = (p, q)"
  by (simp add: splitURI_def IndexByte_append)

lemma splitURI_plain: "CHR ''?'' \<notin> set p \<Longrightarrow> splitURI p = (p, [])"
  by (simp add: splitURI_def IndexByte_def)

text \<open>Nothing of the URI is lost: the path and the query make it up again.\<close>

lemma splitURI_join:
  "splitURI uri = (p, q) \<Longrightarrow>
     CHR ''?'' \<notin> set p \<and> uri = p @ (if CHR ''?'' \<in> set uri then ''?'' @ q else [])"
proof (cases "CHR ''?'' \<in> set uri")
  case True
  then obtain a b where ab: "uri = a @ CHR ''?'' # b" "CHR ''?'' \<notin> set a"
    using split_list_first by fastforce
  assume "splitURI uri = (p, q)"
  with ab splitURI_query [of a b] show ?thesis by auto
next
  case False
  assume "splitURI uri = (p, q)"
  with False splitURI_plain [of uri] show ?thesis by simp
qed

definition untrimmed :: "string \<Rightarrow> bool" where
  "untrimmed s = (find (HasPrefix s) space_encodings = None \<and> find (HasSuffix s) space_encodings = None)"

lemma TrimSpace_after_blank: "untrimmed s \<Longrightarrow> TrimSpace (CHR '' '' # s) = s"
proof -
  assume u: "untrimmed s"
  have "find (HasPrefix (CHR '' '' # s)) space_encodings = Some '' ''"
    by (simp add: space_encodings_def HasPrefix_def)
  then have "TrimLeftSpace (CHR '' '' # s) = TrimLeftSpace s"
    by (simp add: TrimLeftSpace.simps [of "CHR '' '' # s"])
  with u show ?thesis
    by (simp add: TrimSpace_def untrimmed_def TrimLeftSpace_fixed TrimRightSpace_fixed)
qed

lemma extractRealIP_single:
  "ip \<noteq> [] \<Longrightarrow> ip \<noteq> ''-'' \<Longrightarrow> CHR '','' \<notin> set ip \<Longrightarrow> extractRealIP ip addr = ip"
  by (simp add: extractRealIP_def LastIndexByte_def)

lemma extractRealIP_chain:
  "CHR '','' \<notin> set ip \<Longrightarrow> untrimmed ip \<Longrightarrow> extractRealIP (c @ '', '' @ ip) addr = ip"
  using LastIndexByte_append [of "CHR '',''" "CHR '' '' # ip" c]
  by (auto simp: extractRealIP_def TrimSpace_after_blank append_eq_Cons_conv)

subsection \<open>Round trip\<close>

text \<open>
  The line nginx writes for a request: \<open>chain\<close> is what the \<^verbatim>\<open>X-Forwarded-For\<close> field holds before the last
  address, empty or ending in a comma and a blank.
\<close>

definition print_combined :: "golib \<Rightarrow> string \<Rightarrow> LogEntry \<Rightarrow> string" where
  "print_combined L chain e =
     combined_line (le_RemoteAddr e) (le_RemoteUser e) (lib_format_time L nginxTimeLayout (le_Time e))
       (le_Method e @ '' '' @ le_RawURI e @ '' '' @ le_Protocol e)
       (FormatInt (sint (le_Status e))) (FormatInt (sint (le_BytesSent e)))
       (le_Referer e) (le_UserAgent e) (chain @ le_RealIP e)"

definition request_wf :: "LogEntry \<Rightarrow> bool" where
  "request_wf e =
     (CHR '' '' \<notin> set (le_Method e) \<and> CHR '' '' \<notin> set (le_RawURI e) \<and>
      list_all noquote (le_Method e) \<and> list_all noquote (le_RawURI e) \<and> list_all noquote (le_Protocol e) \<and>
      CHR ''?'' \<notin> set (le_Path e) \<and>
      (le_RawURI e = le_Path e \<and> le_Query e = [] \<or> le_RawURI e = le_Path e @ ''?'' @ le_Query e))"

definition realip_wf :: "string \<Rightarrow> LogEntry \<Rightarrow> bool" where
  "realip_wf chain e =
     (CHR '','' \<notin> set (le_RealIP e) \<and> list_all noquote (chain @ le_RealIP e) \<and>
      (chain = [] \<and> le_RealIP e \<noteq> [] \<and> le_RealIP e \<noteq> ''-'' \<or>
       HasSuffix chain '', '' \<and> untrimmed (le_RealIP e)))"

definition access_wf :: "string \<Rightarrow> LogEntry \<Rightarrow> bool" where
  "access_wf chain e =
     (list_all nonspace (le_RemoteAddr e) \<and> le_RemoteAddr e \<noteq> [] \<and>
      list_all nonspace (le_RemoteUser e) \<and> le_RemoteUser e \<noteq> [] \<and>
      0 \<le> sint (le_Status e) \<and> 0 \<le> sint (le_BytesSent e) \<and>
      list_all noquote (le_Referer e) \<and> list_all noquote (le_UserAgent e) \<and>
      le_ChainIssue e = [] \<and> request_wf e \<and> realip_wf chain e)"

text \<open>What \<^verbatim>\<open>time.Parse\<close> and \<^verbatim>\<open>Time.Format\<close> promise for one time and the layout of nginx.\<close>

definition time_prints :: "golib \<Rightarrow> gotime \<Rightarrow> bool" where
  "time_prints L t =
     (lib_parse_time L nginxTimeLayout (lib_format_time L nginxTimeLayout t) = Some t \<and>
      list_all nobracket (lib_format_time L nginxTimeLayout t) \<and> lib_format_time L nginxTimeLayout t \<noteq> [])"

lemma FormatInt_digits: "0 \<le> i \<Longrightarrow> list_all is_digit (FormatInt i) \<and> FormatInt i \<noteq> []"
  by (simp add: FormatInt_def)

lemma noquote_blank: "list_all noquote (a @ '' '' @ b) = (list_all noquote a \<and> list_all noquote b)"
  by (auto simp: noquote_def)

lemma request_wf_split:
  assumes "request_wf e"
  shows "splitRequest (le_Method e @ '' '' @ le_RawURI e @ '' '' @ le_Protocol e)
           = (le_Method e, le_RawURI e, le_Protocol e)"
    and "splitURI (le_RawURI e) = (le_Path e, le_Query e)"
    and "list_all noquote (le_Method e @ '' '' @ le_RawURI e @ '' '' @ le_Protocol e)"
proof -
  show "splitURI (le_RawURI e) = (le_Path e, le_Query e)"
    using assms splitURI_plain [of "le_Path e"] splitURI_query [of "le_Path e" "le_Query e"]
    by (auto simp: request_wf_def)
  show "splitRequest (le_Method e @ '' '' @ le_RawURI e @ '' '' @ le_Protocol e)
           = (le_Method e, le_RawURI e, le_Protocol e)"
    using assms splitRequest_parts [of "le_Method e" "le_RawURI e" "le_Protocol e"]
    by (simp add: request_wf_def)
  show "list_all noquote (le_Method e @ '' '' @ le_RawURI e @ '' '' @ le_Protocol e)"
    using assms by (simp only: request_wf_def noquote_blank)
qed

lemma realip_wf_extract:
  assumes "realip_wf chain e"
  shows "extractRealIP (chain @ le_RealIP e) addr = le_RealIP e"
  using assms extractRealIP_single [of "le_RealIP e" addr] extractRealIP_chain [of "le_RealIP e"]
  by (auto simp: realip_wf_def HasSuffix_iff)

lemma parseCombined_print:
  assumes "access_wf chain e" "time_prints L (le_Time e)"
  shows "parseCombined L (print_combined L chain e) = Some e"
proof -
  have m: "logLineRe (print_combined L chain e) =
      Some [le_RemoteAddr e, le_RemoteUser e, lib_format_time L nginxTimeLayout (le_Time e),
            le_Method e @ '' '' @ le_RawURI e @ '' '' @ le_Protocol e,
            FormatInt (sint (le_Status e)), FormatInt (sint (le_BytesSent e)),
            le_Referer e, le_UserAgent e, chain @ le_RealIP e]"
    unfolding print_combined_def
    by (rule logLineRe_combined_line)
       (use assms FormatInt_digits request_wf_split(3) [of e] in
         \<open>simp_all add: access_wf_def time_prints_def realip_wf_def\<close>)
  have "request_wf e" "realip_wf chain e" "le_ChainIssue e = []"
    using assms(1) by (simp_all add: access_wf_def)
  moreover have "lib_parse_time L nginxTimeLayout (lib_format_time L nginxTimeLayout (le_Time e)) = Some (le_Time e)"
    using assms(2) by (simp add: time_prints_def)
  ultimately show ?thesis
    using request_wf_split(1,2) [of e] realip_wf_extract [of chain e]
    by (simp add: parseCombined_def m ParseInt_FormatInt_sint)
qed

text \<open>
  C23: the combined parser recovers every field of a request from the line nginx writes for it, with or
  without a chain of forwarded addresses before the client's, whenever no field contains the byte that ends it
  in the format; the one thing assumed of the library is that the printed time parses back.
\<close>

theorem combined_round_trip:
  assumes "access_wf chain e" "time_prints L (le_Time e)"
  shows "parseCombined L (print_combined L chain e) = Some e"
  using assms by (rule parseCombined_print)

definition entry0 :: LogEntry where
  "entry0 = \<lparr> le_RemoteAddr = ''10.0.0.7'', le_RemoteUser = ''-'', le_Time = \<lparr>t_ns = 0, t_off = 0\<rparr>,
     le_Method = ''GET'', le_RawURI = ''/a?b=1'', le_Path = ''/a'', le_Query = ''b=1'', le_Protocol = ''HTTP/2.0'',
     le_Status = 200, le_BytesSent = 66088, le_Referer = ''-'', le_UserAgent = ''curl 8'',
     le_RealIP = ''185.177.72.23'', le_ChainIssue = [] \<rparr>"

definition golib_t0 :: golib where
  "golib_t0 = golib0\<lparr>lib_format_time := \<lambda>l t. ''01/Jan/1970:00:00:00 +0000''\<rparr>"

theorem combined_round_trip_witness:
  "parseCombined golib_t0 (print_combined golib_t0 ''127.0.0.1, '' entry0) = Some entry0"
  by (rule combined_round_trip) code_simp+

subsection \<open>The parser with named groups\<close>

lemma map_get_SomeD: "map_get m k = Some v \<Longrightarrow> (k, v) \<in> set m"
  by (auto simp: map_get_def dest: map_of_SomeD)

lemma group_indices_bound: "map_get (group_indices names) g = Some i \<Longrightarrow> i < length names"
  by (auto simp: group_indices_def dest!: map_get_SomeD set_zip_rightD)

lemma NewRegexParser_Inr:
  "NewRegexParser T pat = Inr p \<longleftrightarrow>
     tl_re_compile T pat \<and> first_missing (group_indices (tl_re_names T pat)) mandatoryGroups = None \<and>
     p = \<lparr> rp_re = pat, rp_indices = group_indices (tl_re_names T pat) \<rparr>"
  by (auto simp: NewRegexParser_def fail_if_def Let_def split: option.splits)

lemma get_group_total:
  assumes "length m = length names" "rp_indices p = group_indices names"
  shows "\<exists>s. get_group p m g = Some s"
  using assms group_indices_bound [of names g] by (cases "map_get (rp_indices p) g") (auto simp: get_group_def)

text \<open>
  A parser that \<^verbatim>\<open>NewRegexParser\<close> returns never indexes past the groups of a match, whatever the pattern and
  the line, and yields an entry exactly when the line matches; assumed of the library is that
  \<^verbatim>\<open>FindStringSubmatch\<close> returns one group per name of \<^verbatim>\<open>SubexpNames\<close>.
\<close>

theorem regex_parser_total:
  assumes "NewRegexParser T pat = Inr p"
    and "\<And>m. tl_re_groups T pat line = Some m \<Longrightarrow> length m = length (tl_re_names T pat)"
  shows "\<exists>r. RegexParser_Parse T p line = Some r \<and> (r = None \<longleftrightarrow> tl_re_groups T pat line = None)"
proof (cases "tl_re_groups T pat line")
  case None
  with assms(1) show ?thesis by (simp add: NewRegexParser_Inr RegexParser_Parse_def)
next
  case (Some m)
  have p: "rp_re p = pat" "rp_indices p = group_indices (tl_re_names T pat)"
    using assms(1) by (simp_all add: NewRegexParser_Inr)
  note tot = get_group_total [OF assms(2) [OF Some] p(2)]
  have "\<exists>e. RegexParser_Parse T p line = Some (Some e)"
    using tot [of "''time''"] tot [of "''request''"] tot [of "''status''"] tot [of "''bytes_sent''"]
      tot [of "''remote_addr''"] tot [of "''real_ip''"] tot [of "''remote_user''"]
      tot [of "''http_referer''"] tot [of "''http_user_agent''"]
    by (auto simp: RegexParser_Parse_def p Some split: prod.split)
  with Some show ?thesis by auto
qed

subsection \<open>Profiles\<close>

text \<open>The library agrees with the scanners on the two built-in patterns.\<close>

definition profile_lib :: "textlib \<Rightarrow> bool" where
  "profile_lib T =
     (tl_re_compile T apacheCLFPattern \<and> tl_re_names T apacheCLFPattern = apacheCLF_names \<and>
      tl_re_groups T apacheCLFPattern = apacheCLF_groups \<and>
      tl_re_compile T haproxyHTTPPattern \<and> tl_re_names T haproxyHTTPPattern = haproxy_names \<and>
      tl_re_groups T haproxyHTTPPattern = haproxyHTTP_groups)"

definition clf_parser :: RegexParser where
  "clf_parser = \<lparr> rp_re = apacheCLFPattern, rp_indices = group_indices apacheCLF_names \<rparr>"

lemma clf_indices:
  "map_get (group_indices apacheCLF_names) ''remote_addr'' = Some 1"
  "map_get (group_indices apacheCLF_names) ''remote_user'' = Some 2"
  "map_get (group_indices apacheCLF_names) ''time'' = Some 3"
  "map_get (group_indices apacheCLF_names) ''request'' = Some 4"
  "map_get (group_indices apacheCLF_names) ''status'' = Some 5"
  "map_get (group_indices apacheCLF_names) ''bytes_sent'' = Some 6"
  "map_get (group_indices apacheCLF_names) ''http_referer'' = Some 7"
  "map_get (group_indices apacheCLF_names) ''http_user_agent'' = Some 8"
  "map_get (group_indices apacheCLF_names) ''real_ip'' = None"
  by code_simp+

definition clf_line :: "golib \<Rightarrow> string \<Rightarrow> string \<Rightarrow> LogEntry \<Rightarrow> string" where
  "clf_line L ident b e =
     le_RemoteAddr e @ '' '' @ ident @ '' '' @ le_RemoteUser e @ '' ['' @ lib_format_time L nginxTimeLayout (le_Time e)
       @ ''] '' @ [dq] @ le_Method e @ '' '' @ le_RawURI e @ '' '' @ le_Protocol e @ [dq] @ '' ''
       @ FormatInt (sint (le_Status e)) @ '' '' @ b @ '' '' @ [dq] @ le_Referer e @ [dq] @ '' '' @ [dq]
       @ le_UserAgent e @ [dq]"

definition clf_wf :: "string \<Rightarrow> string \<Rightarrow> LogEntry \<Rightarrow> bool" where
  "clf_wf ident b e =
     (list_all nonspace (le_RemoteAddr e) \<and> le_RemoteAddr e \<noteq> [] \<and> list_all nonspace ident \<and> ident \<noteq> [] \<and>
      list_all nonspace (le_RemoteUser e) \<and> le_RemoteUser e \<noteq> [] \<and> 0 \<le> sint (le_Status e) \<and>
      (b = ''-'' \<and> le_BytesSent e = 0 \<or> b = FormatInt (sint (le_BytesSent e)) \<and> 0 \<le> sint (le_BytesSent e)) \<and>
      list_all noquote (le_Referer e) \<and> list_all noquote (le_UserAgent e) \<and> request_wf e \<and>
      le_RealIP e = le_RemoteAddr e \<and> le_ChainIssue e = [])"

lemma digit_nonspace: "is_digit c \<Longrightarrow> nonspace c"
  by (auto simp: is_digit_def nonspace_def ch_def)

lemma clf_bytes:
  assumes "clf_wf ident b e"
  shows "list_all nonspace b" "b \<noteq> []" "ParseInt_value b = le_BytesSent e"
proof -
  show "ParseInt_value b = le_BytesSent e"
  proof (cases "b = ''-''")
    case True
    have "ParseInt_value ''-'' = 0" by code_simp
    moreover have "FormatInt (sint (le_BytesSent e)) \<noteq> ''-'' \<or> le_BytesSent e = 0"
      using ParseInt_FormatInt_sint [of "le_BytesSent e"] by (auto simp: ParseInt_def)
    ultimately show ?thesis using assms True by (auto simp: clf_wf_def)
  next
    case False
    then have "b = FormatInt (sint (le_BytesSent e))" using assms by (simp add: clf_wf_def)
    then show ?thesis by (simp only: ParseInt_value_def ParseInt_FormatInt_sint option.case)
  qed
  have "list_all is_digit b \<or> b = ''-''" using assms FormatInt_digits by (auto simp: clf_wf_def)
  then show "list_all nonspace b"
    by (auto simp: list_all_iff digit_nonspace) (simp add: nonspace_def)
  show "b \<noteq> []" using assms FormatInt_digits [of "sint (le_BytesSent e)"] by (auto simp: clf_wf_def)
qed

lemma quoted_pair_line:
  assumes "list_all noquote f" "list_all noquote ua"
  shows "quoted_pair ('' '' @ [dq] @ f @ [dq] @ '' '' @ [dq] @ ua @ [dq] @ rest) = (f, ua, rest)"
proof -
  have 1: "scan_lit ('' '' @ [dq]) ('' '' @ [dq] @ f @ [dq] @ '' '' @ [dq] @ ua @ [dq] @ rest)
      = Some (f @ [dq] @ '' '' @ [dq] @ ua @ [dq] @ rest)"
    by (simp add: scan_lit_iff)
  have 2: "scan_field noquote False (dq # '' '' @ [dq]) (f @ [dq] @ '' '' @ [dq] @ ua @ [dq] @ rest)
      = Some (f, ua @ [dq] @ rest)"
    using assms by (simp add: scan_field_iff)
  have 3: "scan_field noquote False [dq] (ua @ [dq] @ rest) = Some (ua, rest)"
    using assms by (simp add: scan_field_iff)
  show ?thesis unfolding quoted_pair_def 1 bind.bind_lunit 2 prod.case 3 by simp
qed

lemma apacheCLF_groups_line:
  assumes wf: "clf_wf ident b e" and t: "time_prints L (le_Time e)"
  shows "\<exists>w. apacheCLF_groups (clf_line L ident b e @ rest) =
    Some [w, le_RemoteAddr e, le_RemoteUser e, lib_format_time L nginxTimeLayout (le_Time e),
      le_Method e @ '' '' @ le_RawURI e @ '' '' @ le_Protocol e, FormatInt (sint (le_Status e)), b,
      le_Referer e, le_UserAgent e]"
proof -
  let ?tm = "lib_format_time L nginxTimeLayout (le_Time e)"
  let ?q = "'' '' @ [dq] @ le_Referer e @ [dq] @ '' '' @ [dq] @ le_UserAgent e @ [dq] @ rest"
  let ?s6 = "b @ ?q"
  let ?s5 = "FormatInt (sint (le_Status e)) @ '' '' @ ?s6"
  let ?rq = "le_Method e @ '' '' @ le_RawURI e @ '' '' @ le_Protocol e"
  let ?s4 = "?rq @ (dq # '' '') @ ?s5"
  let ?s3 = "?tm @ (''] '' @ [dq]) @ ?s4"
  let ?s2 = "le_RemoteUser e @ '' ['' @ ?s3"
  let ?s1 = "ident @ '' '' @ ?s2"
  have line: "clf_line L ident b e @ rest = le_RemoteAddr e @ '' '' @ ?s1"
    by (simp add: clf_line_def)
  have w: "list_all nonspace (le_RemoteAddr e)" "le_RemoteAddr e \<noteq> []" "list_all nonspace ident" "ident \<noteq> []"
    "list_all nonspace (le_RemoteUser e)" "le_RemoteUser e \<noteq> []" "0 \<le> sint (le_Status e)" "request_wf e"
    "list_all noquote (le_Referer e)" "list_all noquote (le_UserAgent e)"
    using wf by (simp_all add: clf_wf_def)
  have f: "scan_field nonspace True '' '' (le_RemoteAddr e @ '' '' @ ?s1) = Some (le_RemoteAddr e, ?s1)"
    "scan_field nonspace True '' '' ?s1 = Some (ident, ?s2)"
    "scan_field nonspace True '' ['' ?s2 = Some (le_RemoteUser e, ?s3)"
    "scan_field nobracket True (''] '' @ [dq]) ?s3 = Some (?tm, ?s4)"
    "scan_field noquote False (dq # '' '') ?s4 = Some (?rq, ?s5)"
    "scan_field is_digit True '' '' ?s5 = Some (FormatInt (sint (le_Status e)), ?s6)"
    using w t request_wf_split(3) [of e] FormatInt_digits [of "sint (le_Status e)"]
    by (simp_all add: scan_field_iff time_prints_def del: append.simps append_assoc)
  have run: "takeWhile nonspace ?s6 = b \<and> dropWhile nonspace ?s6 = ?q"
    by (rule takeWhile_run) (use clf_bytes [OF wf] in simp_all)
  show ?thesis
    unfolding line apacheCLF_groups_def f bind.bind_lunit prod.case
    using run clf_bytes(2) [OF wf] quoted_pair_line [OF w(9,10), of rest] by simp
qed

text \<open>
  On an Apache line with any text after it (Traefik appends fields) the profiles built on the common log
  format return the request's fields, a missing body size as 0 and the peer as the real address; assumed of
  the library are the meaning of the one fixed pattern and that the printed time, which is not the zero time,
  parses back.
\<close>

theorem clf_profiles_parse:
  assumes lib: "profile_lib T" and wf: "clf_wf ident b e"
    and t: "time_prints (tl_go T) (le_Time e)" "t_ns (le_Time e) \<noteq> t_ns zero_time"
    and name: "name = ''apache'' \<or> name = ''caddy'' \<or> name = ''traefik'' \<or> name = ''litespeed''"
  shows "\<exists>pat p. map_of profile_table name = Some pat \<and> NewRegexParser T pat = Inr p \<and>
           RegexParser_Parse T p (clf_line (tl_go T) ident b e @ rest) = Some (Some e)"
proof -
  have pat: "map_of profile_table name = Some apacheCLFPattern"
    using name by (auto simp: profile_table_def)
  have "first_missing (group_indices apacheCLF_names) mandatoryGroups = None" by code_simp
  then have new: "NewRegexParser T apacheCLFPattern = Inr clf_parser"
    using lib by (simp add: NewRegexParser_Inr profile_lib_def clf_parser_def)
  obtain w where g: "apacheCLF_groups (clf_line (tl_go T) ident b e @ rest) =
    Some [w, le_RemoteAddr e, le_RemoteUser e, lib_format_time (tl_go T) nginxTimeLayout (le_Time e),
      le_Method e @ '' '' @ le_RawURI e @ '' '' @ le_Protocol e, FormatInt (sint (le_Status e)), b,
      le_Referer e, le_UserAgent e]"
    using apacheCLF_groups_line [OF wf t(1), of rest] by blast
  have tm: "regex_time (tl_go T) (lib_format_time (tl_go T) nginxTimeLayout (le_Time e)) = le_Time e"
    using t by (simp add: regex_time_def time_prints_def parse_time_or_zero_def time_Equal_def)
  have rq: "splitRequest (le_Method e @ '' '' @ le_RawURI e @ '' '' @ le_Protocol e) =
      (le_Method e, le_RawURI e, le_Protocol e)" "splitURI (le_RawURI e) = (le_Path e, le_Query e)"
    using request_wf_split(1,2) [of e] wf by (simp_all add: clf_wf_def)
  have st: "ParseInt_value (FormatInt (sint (le_Status e))) = le_Status e"
    by (simp only: ParseInt_value_def ParseInt_FormatInt_sint option.case)
  have ri: "extractRealIP [] (le_RemoteAddr e) = le_RealIP e" "le_ChainIssue e = []"
    using wf by (simp_all add: extractRealIP_def clf_wf_def)
  have grp: "tl_re_groups T (rp_re clf_parser) = apacheCLF_groups"
    "rp_indices clf_parser = group_indices apacheCLF_names"
    using lib by (simp_all add: profile_lib_def clf_parser_def)
  have "RegexParser_Parse T clf_parser (clf_line (tl_go T) ident b e @ rest) = Some (Some e)"
    unfolding RegexParser_Parse_def grp g option.case
    using rq by (simp add: get_group_def grp clf_indices tm st ri clf_bytes(3) [OF wf])
  then show ?thesis using pat new by blast
qed

definition profile_textlib :: textlib where
  "profile_textlib = textlib0\<lparr>tl_go := golib_t0,
     tl_re_names := \<lambda>p. if p = apacheCLFPattern then apacheCLF_names else haproxy_names,
     tl_re_groups := \<lambda>p. if p = apacheCLFPattern then apacheCLF_groups else haproxyHTTP_groups\<rparr>"

lemma profile_lib_instance: "profile_lib profile_textlib"
proof -
  have "haproxyHTTPPattern \<noteq> apacheCLFPattern" by code_simp
  then show ?thesis by (simp add: profile_lib_def profile_textlib_def textlib0_def)
qed

theorem regex_parser_total_witness:
  "\<exists>r. RegexParser_Parse profile_textlib clf_parser ''x'' = Some r \<and>
     (r = None \<longleftrightarrow> tl_re_groups profile_textlib apacheCLFPattern ''x'' = None)"
proof (rule regex_parser_total)
  have "first_missing (group_indices apacheCLF_names) mandatoryGroups = None" by code_simp
  then show "NewRegexParser profile_textlib apacheCLFPattern = Inr clf_parser"
    using profile_lib_instance by (simp add: NewRegexParser_Inr profile_lib_def clf_parser_def)
next
  fix m
  have "apacheCLF_groups ''x'' = None" by code_simp
  moreover assume "tl_re_groups profile_textlib apacheCLFPattern ''x'' = Some m"
  ultimately show "length m = length (tl_re_names profile_textlib apacheCLFPattern)"
    using profile_lib_instance by (simp add: profile_lib_def)
qed

theorem clf_profiles_parse_witness:
  "\<exists>pat p. map_of profile_table ''traefik'' = Some pat \<and> NewRegexParser profile_textlib pat = Inr p \<and>
     RegexParser_Parse profile_textlib p
       (clf_line (tl_go profile_textlib) ''-'' ''-'' (entry0\<lparr>le_BytesSent := 0, le_RealIP := ''10.0.0.7''\<rparr>) @ '' 42 router'')
     = Some (Some (entry0\<lparr>le_BytesSent := 0, le_RealIP := ''10.0.0.7''\<rparr>))"
proof (rule clf_profiles_parse [OF profile_lib_instance])
  have T: "tl_go profile_textlib = golib_t0" by (simp add: profile_textlib_def)
  show "clf_wf ''-'' ''-'' (entry0\<lparr>le_BytesSent := 0, le_RealIP := ''10.0.0.7''\<rparr>)" by code_simp
  have "time_prints golib_t0 (le_Time entry0)" by code_simp
  then show "time_prints (tl_go profile_textlib) (le_Time (entry0\<lparr>le_BytesSent := 0, le_RealIP := ''10.0.0.7''\<rparr>))"
    by (simp add: T)
  show "t_ns (le_Time (entry0\<lparr>le_BytesSent := 0, le_RealIP := ''10.0.0.7''\<rparr>)) \<noteq> t_ns zero_time"
    by (simp add: entry0_def zero_time_def)
qed simp

text \<open>The HAProxy profile builds too, and the list of the profiles is as the error message shows it.\<close>

lemma haproxy_profile_builds:
  "profile_lib T \<Longrightarrow> \<exists>p. NewRegexParser T haproxyHTTPPattern = Inr p"
proof -
  assume "profile_lib T"
  moreover have "first_missing (group_indices haproxy_names) mandatoryGroups = None" by code_simp
  ultimately show ?thesis by (simp add: NewRegexParser_Inr profile_lib_def)
qed

lemma AvailableProfiles_sorted:
  "AvailableProfiles = ''apache, caddy, haproxy-http, litespeed, traefik''"
  by code_simp

subsection \<open>The bridge\<close>

text \<open>
  A wrapped entry comes back; wrapping the nil pointer makes a payload that is not the nil interface, so that
  unwrapping returns nil and does not panic.
\<close>

lemma Unwrap_Wrap [simp]: "UnwrapLogEntry (Some (WrapLogEntry le env)) = Inr le"
  by (simp add: UnwrapLogEntry_def WrapLogEntry_def)

lemma UnwrapLogEntry_panics:
  "(\<exists>p. UnwrapLogEntry ev = Inl p) \<longleftrightarrow> (\<forall>e. ev = Some e \<longrightarrow> (\<forall>le. Payload e \<noteq> PLogEntry le))"
  by (auto simp: UnwrapLogEntry_def split: option.split payload.splits)

end
