(* ===== verification/Line_Source.thy ===== *)
theory Line_Source
  imports Syslog_Message Log_Parser Pipeline_Validator
begin

text \<open>
  What the line sources share (\<^verbatim>\<open>pkg/source/registry.go\<close>, \<^verbatim>\<open>pkg/plugin/source.go\<close>): the configuration, the counters of
  \<^verbatim>\<open>SourceStats\<close>, and the body of their loops, which reads an item, parses it, and offers the event to the
  pipeline without blocking. Each source does it in its own code; the locale \<open>line_source\<close> states what they have in
  common, and its lemmas say what the counters and the delivered events are after any sequence of items.

  The syslog source (\<^verbatim>\<open>pkg/source/syslog/source.go\<close>) follows: its constructor, the datagram loop, the connection
  handler and the accept loop with its bound on the connections, and the file source (\<^verbatim>\<open>pkg/source/file/source.go\<close>).

  The counters are \<^verbatim>\<open>atomic.Int64\<close>, so \<open>64 word\<close>. Whether the pipeline has room for an event when it is
  offered is decided outside and is part of the item. Of a log call the tag and the level are kept.
\<close>

section \<open>Configuration and state\<close>

record InputConfig =
  ic_Type :: string
  ic_Path :: string
  ic_Exec :: string
  ic_Addr :: string
  ic_Mode :: string
  ic_URL :: string
  ic_HTTPPath :: string
  ic_Token :: string
  ic_TLSCert :: string
  ic_TLSKey :: string
  ic_Protocol :: string
  ic_EnvelopeField :: string
  ic_PullInterval :: string
  ic_MaxBodyBytes :: i64
  ic_MaxConnections :: i64

type_synonym line_parser = "string \<Rightarrow> LogEntry option"

record SourceStats =
  LinesRead :: i64
  ParseErrors :: i64
  st_Dropped :: i64

record 'e srcst =
  linesRead :: i64
  parseErrors :: i64
  dropped :: i64
  out :: "'e list"
  logs :: "(string \<times> string) list"

definition srcst0 :: "'e srcst" where
  "srcst0 = \<lparr> linesRead = 0, parseErrors = 0, dropped = 0, out = [], logs = [] \<rparr>"

definition src_Stats :: "'e srcst \<Rightarrow> SourceStats" where
  "src_Stats s = \<lparr> LinesRead = linesRead s, ParseErrors = parseErrors s, st_Dropped = dropped s \<rparr>"

definition log_if :: "bool \<Rightarrow> string \<Rightarrow> string \<Rightarrow> 'e srcst \<Rightarrow> 'e srcst" where
  "log_if b tag level s = (if b then s\<lparr>logs := logs s @ [(tag, level)]\<rparr> else s)"

text \<open>\<^verbatim>\<open>select { case out <- ev: default: dropped++ }\<close>\<close>

definition offer :: "bool \<Rightarrow> 'e \<Rightarrow> 'e srcst \<Rightarrow> 'e srcst" where
  "offer room ev s = (if room then s\<lparr>out := out s @ [ev]\<rparr> else s\<lparr>dropped := dropped s + 1\<rparr>)"

lemma log_if_simps [simp]:
  "linesRead (log_if b t l s) = linesRead s" "parseErrors (log_if b t l s) = parseErrors s"
  "dropped (log_if b t l s) = dropped s" "out (log_if b t l s) = out s"
  by (simp_all add: log_if_def)

lemma offer_simps [simp]:
  "linesRead (offer r e s) = linesRead s" "parseErrors (offer r e s) = parseErrors s"
  "dropped (offer r e s) = (if r then dropped s else dropped s + 1)"
  "out (offer r e s) = (if r then out s @ [e] else out s)"
  by (simp_all add: offer_def)

section \<open>The interface\<close>

locale line_source =
  fixes step :: "'i \<Rightarrow> 's \<Rightarrow> 's"
    and lines errs drops :: "'s \<Rightarrow> i64"
    and sent :: "'s \<Rightarrow> 'e list"
    and event :: "'i \<Rightarrow> 'e option"
    and room :: "'i \<Rightarrow> bool"
  assumes step_lines: "lines (step i s) = lines s + 1"
    and step_errs: "errs (step i s) = errs s + (if event i = None then 1 else 0)"
    and step_drops: "drops (step i s) = drops s + (if event i \<noteq> None \<and> \<not> room i then 1 else 0)"
    and step_sent: "sent (step i s) = sent s @ (case event i of Some e \<Rightarrow> if room i then [e] else [] | None \<Rightarrow> [])"
begin

definition delivered where
  "delivered is = concat (map (\<lambda>i. case event i of Some e \<Rightarrow> if room i then [e] else [] | None \<Rightarrow> []) is)"

text \<open>The delivered events are the parsed items there was room for, in their order.\<close>

lemma run_sent: "sent (fold step is s) = sent s @ delivered is"
  by (induction "is" arbitrary: s) (simp_all add: delivered_def step_sent)

lemma run_lines: "lines (fold step is s) = lines s + word_of_nat (length is)"
  by (induction "is" arbitrary: s) (simp_all add: step_lines)

lemma run_errs: "errs (fold step is s) = errs s + word_of_nat (length (filter (\<lambda>i. event i = None) is))"
  by (induction "is" arbitrary: s) (simp_all add: step_errs)

text \<open>Nothing goes uncounted: a line is an error, dropped or delivered.\<close>

lemma step_balance:
  "lines (step i s) - errs (step i s) - drops (step i s) - word_of_nat (length (sent (step i s))) =
   lines s - errs s - drops s - word_of_nat (length (sent s))"
  by (auto simp: step_lines step_errs step_drops step_sent split: option.split)

lemma run_balance:
  "lines (fold step is s) - errs (fold step is s) - drops (fold step is s) - word_of_nat (length (sent (fold step is s))) =
   lines s - errs s - drops s - word_of_nat (length (sent s))"
proof (induction "is" arbitrary: s)
  case Nil
  then show ?case by simp
next
  case (Cons i "is")
  then show ?case using step_balance [of i s] by simp
qed

end

text \<open>
  The common shape of the loops: count, decode, on failure count an error and log, else offer the event.
\<close>

definition take_line ::
  "(string \<Rightarrow> 'e option) \<Rightarrow> (string \<Rightarrow> 'e srcst \<Rightarrow> 'e srcst) \<Rightarrow> string \<times> bool \<Rightarrow> 'e srcst \<Rightarrow> 'e srcst" where
  "take_line decode on_err lr s =
     (let s1 = s\<lparr>linesRead := linesRead s + 1\<rparr>
      in case decode (fst lr) of
           None \<Rightarrow> on_err (fst lr) (s1\<lparr>parseErrors := parseErrors s1 + 1\<rparr>)
         | Some ev \<Rightarrow> offer (snd lr) ev s1)"

definition only_logs :: "(string \<Rightarrow> 'e srcst \<Rightarrow> 'e srcst) \<Rightarrow> bool" where
  "only_logs f = (\<forall>l s. linesRead (f l s) = linesRead s \<and> parseErrors (f l s) = parseErrors s \<and>
     dropped (f l s) = dropped s \<and> out (f l s) = out s)"

lemma take_line_source:
  assumes "only_logs f"
  shows "line_source (take_line d f) linesRead parseErrors dropped out (\<lambda>i. d (fst i)) snd"
  using assms by unfold_locales (auto simp: take_line_def only_logs_def Let_def split: option.split)

section \<open>The syslog source\<close>

record SyslogSource =
  sy_name :: string
  sy_network :: string
  sy_host :: string
  sy_maxConns :: i64
  sy_logging :: bool

datatype addr_error = BadAddress string | UnknownScheme string string

datatype syslog_new_error = SyslogAddr addr_error | SyslogNilParser string

definition defaultMaxConns :: i64 where "defaultMaxConns = 1000"

definition parseAddr :: "string \<Rightarrow> addr_error + string \<times> string" where
  "parseAddr addr =
     (case Cut addr ''://'' of
        (scheme, rest, ok) \<Rightarrow>
          if \<not> ok \<or> scheme = [] \<or> rest = [] then Inl (BadAddress addr)
          else if scheme = ''udp'' then Inr (''udp'', rest)
          else if scheme = ''tcp'' then Inr (''tcp'', rest)
          else if scheme = ''unix'' then Inr (''unix'', rest)
          else if scheme = ''unixgram'' then Inr (''unixgram'', rest)
          else Inl (UnknownScheme scheme addr))"

text \<open>\<open>hasParser\<close> and \<open>hasLog\<close>: the two arguments that may be nil.\<close>

definition syslog_New :: "string \<Rightarrow> bool \<Rightarrow> bool \<Rightarrow> i64 \<Rightarrow> syslog_new_error + SyslogSource" where
  "syslog_New addr hasParser hasLog maxConnections =
     (case parseAddr addr of
        Inl e \<Rightarrow> Inl (SyslogAddr e)
      | Inr (network, host) \<Rightarrow>
          if \<not> hasParser then Inl (SyslogNilParser addr)
          else Inr \<lparr> sy_name = ''syslog:'' @ addr, sy_network = network, sy_host = host,
                 sy_maxConns = (if sint maxConnections \<le> 0 then defaultMaxConns else maxConnections),
                 sy_logging = hasLog \<rparr>)"

definition log_envelope :: "string \<Rightarrow> string \<Rightarrow> LogEntry \<Rightarrow> payload Event" where
  "log_envelope source sourceType entry =
     WrapLogEntry (Some entry)
       \<lparr> Timestamp = le_Time entry, Stream = [], Source = source, SourceType = sourceType, Level = [] \<rparr>"

text \<open>What a message becomes, and the debug line for a bad envelope (a bad log line is counted without one).\<close>

definition syslog_event :: "line_parser \<Rightarrow> SyslogSource \<Rightarrow> string \<Rightarrow> payload Event option" where
  "syslog_event parse s raw =
     (case parseMessage raw of
        Inl _ \<Rightarrow> None
      | Inr line \<Rightarrow> map_option (log_envelope (sy_name s) ''syslog'') (parse line))"

definition syslog_bad :: "SyslogSource \<Rightarrow> string \<Rightarrow> 'e srcst \<Rightarrow> 'e srcst" where
  "syslog_bad s raw st =
     (case parseMessage raw of
        Inl _ \<Rightarrow> log_if (sy_logging s) ''SYSLOG'' ''debug'' st
      | Inr _ \<Rightarrow> st)"

definition syslog_message ::
  "line_parser \<Rightarrow> SyslogSource \<Rightarrow> string \<times> bool \<Rightarrow> payload Event srcst \<Rightarrow> payload Event srcst" where
  "syslog_message parse s = take_line (syslog_event parse s) (syslog_bad s)"

definition packetBuf :: nat where "packetBuf = 65536"

text \<open>
  The datagram loop: each read gives an error, which ends it, or a datagram with whether the pipeline has room. A
  full buffer is logged as a possible truncation. The end of the list is a source that still waits.
\<close>

datatype packet = ReadError | Datagram string bool

definition packet_step ::
  "line_parser \<Rightarrow> SyslogSource \<Rightarrow> string \<times> bool \<Rightarrow> payload Event srcst \<Rightarrow> payload Event srcst" where
  "packet_step parse s dr st =
     syslog_message parse s dr
       (log_if (length (fst dr) = packetBuf \<and> sy_logging s) ''SYSLOG'' ''warning'' st)"

fun runPacket ::
  "line_parser \<Rightarrow> SyslogSource \<Rightarrow> packet list \<Rightarrow> payload Event srcst \<Rightarrow> payload Event srcst \<times> bool" where
  "runPacket parse s [] st = (st, False)"
| "runPacket parse s (ReadError # ps) st = (st, True)"
| "runPacket parse s (Datagram d room # ps) st =
     runPacket parse s ps (packet_step parse s (d, room) st)"

text \<open>
  \<^verbatim>\<open>bufio.Scanner\<close> over a stream with a buffer of \<open>n\<close> bytes: the lines without their line ends, and whether it
  stopped because \<open>n\<close> bytes held no line end.
\<close>

definition dropCR :: "string \<Rightarrow> string" where
  "dropCR l = (if l \<noteq> [] \<and> last l = CHR 0x0D then butlast l else l)"

lemma dropWhile_Cons_shorter: "dropWhile P s = c # r \<Longrightarrow> length r < length s"
  using length_dropWhile_le [of P s] by simp

function scan_lines :: "nat \<Rightarrow> string \<Rightarrow> string list \<times> bool" where
  "scan_lines n s =
     (if s = [] then ([], False)
      else let l = takeWhile (\<lambda>c. c \<noteq> CHR 0x0A) s
           in if n \<le> length l then ([], True)
              else case dropWhile (\<lambda>c. c \<noteq> CHR 0x0A) s of
                     [] \<Rightarrow> ([dropCR l], False)
                   | _ # r \<Rightarrow> (case scan_lines n r of (ls, e) \<Rightarrow> (dropCR l # ls, e)))"
  by pat_completeness auto
termination
  by (relation "measure (\<lambda>(n, s). length s)") (auto dest: dropWhile_Cons_shorter)

declare scan_lines.simps [simp del]

text \<open>A connection: the bytes it delivers and whether reading it ends in an error other than the end of the stream.\<close>

definition handleConn ::
  "line_parser \<Rightarrow> SyslogSource \<Rightarrow> string \<Rightarrow> bool \<Rightarrow> (nat \<Rightarrow> bool) \<Rightarrow> payload Event srcst \<Rightarrow> payload Event srcst" where
  "handleConn parse s content readErr room st =
     (case scan_lines packetBuf content of
        (ls, tooLong) \<Rightarrow>
          let st1 = fold (syslog_message parse s) (zip ls (map room [0..<length ls])) st
          in if tooLong \<or> readErr
             then log_if (sy_logging s) ''SYSLOG'' ''error'' (st1\<lparr>parseErrors := parseErrors st1 + 1\<rparr>)
             else st1)"

text \<open>
  The accept loop. \<open>Accepting\<close> waits for a connection, \<open>Admitting\<close> has one and waits for a slot of the semaphore,
  \<open>Draining\<close> is \<^verbatim>\<open>wg.Wait()\<close>. \<open>active\<close> are the slots taken, one for each handler that runs.
\<close>

datatype accept_pc = Accepting | Admitting | Draining | StreamDone

record accept_st =
  pc :: accept_pc
  active :: nat
  served :: nat
  refused :: nat

definition accept_init :: accept_st where
  "accept_init = \<lparr> pc = Accepting, active = 0, served = 0, refused = 0 \<rparr>"

definition stream_limit :: "SyslogSource \<Rightarrow> nat" where
  "stream_limit s = nat (sint (if sint (sy_maxConns s) \<le> 0 then defaultMaxConns else sy_maxConns s))"

inductive accept_step :: "SyslogSource \<Rightarrow> accept_st \<Rightarrow> accept_st \<Rightarrow> bool" for s where
  accepted: "pc a = Accepting \<Longrightarrow> accept_step s a (a\<lparr>pc := Admitting\<rparr>)"
| accept_error: "pc a = Accepting \<Longrightarrow> accept_step s a (a\<lparr>pc := Draining\<rparr>)"
| slot_taken: "pc a = Admitting \<Longrightarrow> active a < stream_limit s \<Longrightarrow>
    accept_step s a (a\<lparr>pc := Accepting, active := active a + 1, served := served a + 1\<rparr>)"
| ctx_done: "pc a = Admitting \<Longrightarrow> accept_step s a (a\<lparr>pc := Draining, refused := refused a + 1\<rparr>)"
| handler_ends: "0 < active a \<Longrightarrow> accept_step s a (a\<lparr>active := active a - 1\<rparr>)"
| drained: "pc a = Draining \<Longrightarrow> active a = 0 \<Longrightarrow> accept_step s a (a\<lparr>pc := StreamDone\<rparr>)"

inductive_cases accept_stepE: "accept_step s a b"

section \<open>The file source\<close>

record FileSource =
  fs_name :: string
  fs_path :: string
  fs_retryInterval :: i64

datatype file_new_error = FilePathEmpty | FileNilParser string

definition NewFileSource :: "string \<Rightarrow> bool \<Rightarrow> i64 \<Rightarrow> file_new_error + FileSource" where
  "NewFileSource path hasParser retryInterval =
     fail_if (path = []) FilePathEmpty
       (fail_if (\<not> hasParser) (FileNilParser path)
         (Inr \<lparr> fs_name = ''file:'' @ path, fs_path = path,
            fs_retryInterval = (if sint retryInterval \<le> 0 then 5000000000 else retryInterval) \<rparr>))"

text \<open>The loop over the lines of the tail reader; the constructor replaced a nil logger by one that does nothing.\<close>

definition file_bad :: "string \<Rightarrow> 'e srcst \<Rightarrow> 'e srcst" where
  "file_bad line = log_if True ''PARSER'' ''debug''"

definition file_line ::
  "line_parser \<Rightarrow> FileSource \<Rightarrow> string \<times> bool \<Rightarrow> payload Event srcst \<Rightarrow> payload Event srcst" where
  "file_line parse s =
     take_line (\<lambda>line. map_option (log_envelope (fs_name s) ''file'') (parse line)) file_bad"

definition FileSource_Run ::
  "line_parser \<Rightarrow> FileSource \<Rightarrow> (string \<times> bool) list \<Rightarrow> payload Event srcst \<Rightarrow> payload Event srcst" where
  "FileSource_Run parse s lines st = fold (file_line parse s) lines st"

section \<open>Manifests\<close>

text \<open>The envelope fields every one of these sources declares.\<close>

definition envelope_fields :: "FieldDecl list" where
  "envelope_fields = map (\<lambda>n. \<lparr> decl_Name = n, decl_Required = True, decl_Type = [] \<rparr>)
     [''Timestamp'', ''Stream'', ''Source'', ''SourceType'']"

definition source_manifest :: "string \<Rightarrow> string list \<Rightarrow> FieldDecl list \<Rightarrow> Manifest" where
  "source_manifest i tags produces = \<lparr> PluginID = i, PluginVersion = ''1.0.0'', man_Role = RoleSource,
     InputType = TypeNone, OutputType = TypeStructured, Tags = tags, Produces = produces, Consumes = [] \<rparr>"

definition syslog_Manifest :: Manifest where
  "syslog_Manifest = source_manifest ''syslog''
     [''syslog'', ''udp'', ''tcp'', ''unix'', ''rfc3164'', ''rfc5424'', ''network''] envelope_fields"

definition file_Manifest :: Manifest where
  "file_Manifest = source_manifest ''file'' [''file'', ''tail'', ''log-rotation''] envelope_fields"

section \<open>Lemmas\<close>

subsection \<open>The sources satisfy the interface\<close>

lemma only_logs_syslog [simp]: "only_logs (syslog_bad s)"
  by (simp add: only_logs_def syslog_bad_def split: sum.split)

lemma only_logs_file [simp]: "only_logs file_bad"
  by (simp add: only_logs_def file_bad_def)

interpretation msg: line_source "syslog_message parse s" linesRead parseErrors dropped out
    "\<lambda>i. syslog_event parse s (fst i)" snd for parse s
  unfolding syslog_message_def by (rule take_line_source) simp

interpretation pkt: line_source "packet_step parse s" linesRead parseErrors dropped out
    "\<lambda>i. syslog_event parse s (fst i)" snd for parse s
  by unfold_locales
     (simp_all add: packet_step_def msg.step_lines msg.step_errs msg.step_drops msg.step_sent)

interpretation fsrc: line_source "file_line parse s" linesRead parseErrors dropped out
    "\<lambda>i. map_option (log_envelope (fs_name s) ''file'') (parse (fst i))" snd for parse s
  unfolding file_line_def by (rule take_line_source) simp

subsection \<open>Datagrams\<close>

text \<open>The datagrams before the first read error.\<close>

fun datagrams :: "packet list \<Rightarrow> (string \<times> bool) list" where
  "datagrams [] = []"
| "datagrams (ReadError # ps) = []"
| "datagrams (Datagram d r # ps) = (d, r) # datagrams ps"

lemma runPacket_fold: "fst (runPacket parse s ps st) = fold (packet_step parse s) (datagrams ps) st"
  by (induction parse s ps st rule: runPacket.induct) simp_all

lemma runPacket_returns: "snd (runPacket parse s ps st) \<longleftrightarrow> ReadError \<in> set ps"
  by (induction parse s ps st rule: runPacket.induct) simp_all

lemma srcst0_simps [simp]:
  "linesRead srcst0 = 0" "parseErrors srcst0 = 0" "dropped srcst0 = 0" "out srcst0 = []"
  by (simp_all add: srcst0_def)

text \<open>
  C27: over any sequence of datagrams the syslog source delivers, in order, the events of those that carry a
  well-formed envelope and a parseable line and for which the pipeline had room; the counters are exact: lines
  read are the datagrams, and each is a parse error, dropped or delivered. The loop returns exactly at a read
  error.
\<close>

theorem syslog_source_accounts:
  "out (fst (runPacket parse s ps srcst0)) =
     concat (map (\<lambda>(d, room). case syslog_event parse s d of Some e \<Rightarrow> if room then [e] else [] | None \<Rightarrow> []) (datagrams ps)) \<and>
   LinesRead (src_Stats (fst (runPacket parse s ps srcst0))) = word_of_nat (length (datagrams ps)) \<and>
   LinesRead (src_Stats (fst (runPacket parse s ps srcst0))) =
     ParseErrors (src_Stats (fst (runPacket parse s ps srcst0))) + st_Dropped (src_Stats (fst (runPacket parse s ps srcst0)))
     + word_of_nat (length (out (fst (runPacket parse s ps srcst0)))) \<and>
   snd (runPacket parse s ps srcst0) = (ReadError \<in> set ps)"
  using pkt.run_balance [of parse s "datagrams ps" srcst0]
  by (simp add: runPacket_fold runPacket_returns pkt.run_sent pkt.run_lines pkt.delivered_def src_Stats_def
      case_prod_unfold algebra_simps)

subsection \<open>Connections\<close>

definition accept_ok :: "SyslogSource \<Rightarrow> accept_st \<Rightarrow> bool" where
  "accept_ok s a =
     (active a \<le> stream_limit s \<and> active a \<le> served a \<and> refused a \<le> 1 \<and>
      (pc a = Accepting \<or> pc a = Admitting \<longrightarrow> refused a = 0) \<and>
      (pc a = StreamDone \<longrightarrow> active a = 0))"

lemma accept_ok_step: "accept_step s a b \<Longrightarrow> accept_ok s a \<Longrightarrow> accept_ok s b"
  by (erule accept_stepE) (auto simp: accept_ok_def)

lemma accept_ok_reachable: "(accept_step s)\<^sup>*\<^sup>* accept_init a \<Longrightarrow> accept_ok s a"
proof (induction rule: rtranclp_induct)
  case base
  then show ?case by (simp add: accept_ok_def accept_init_def)
next
  case (step a b)
  then show ?case by (rule_tac accept_ok_step)
qed

lemma stream_limit_New:
  "syslog_New addr hasParser hasLog n = Inr s \<Longrightarrow> stream_limit s = (if sint n \<le> 0 then 1000 else nat (sint n))"
  by (auto simp: syslog_New_def stream_limit_def defaultMaxConns_def split: sum.splits if_splits)

text \<open>
  Whatever connections come and go, the stream listener of a source never runs more handlers than the
  configured limit (1000 when none is configured), it closes at most one connection unserved, when it shuts
  down, and it returns only after every handler has ended; until then it can always go on.
\<close>

theorem stream_connections_bounded:
  assumes "syslog_New addr hasParser hasLog n = Inr s" "(accept_step s)\<^sup>*\<^sup>* accept_init a"
  shows "active a \<le> (if sint n \<le> 0 then 1000 else nat (sint n)) \<and> refused a \<le> 1 \<and>
         (pc a = StreamDone \<longrightarrow> active a = 0) \<and> (pc a \<noteq> StreamDone \<longrightarrow> (\<exists>b. accept_step s a b))"
proof -
  have "accept_ok s a" using assms(2) by (rule accept_ok_reachable)
  moreover have "\<exists>b. accept_step s a b" if "pc a \<noteq> StreamDone"
    using that accept_step.intros [of a s] by (cases "pc a"; cases "active a") auto
  ultimately show ?thesis
    using stream_limit_New [OF assms(1)] unfolding accept_ok_def by simp
qed

theorem stream_connections_bounded_witness:
  "\<exists>s a. syslog_New ''tcp://:514'' True False 2 = Inr s \<and> (accept_step s)\<^sup>*\<^sup>* accept_init a \<and>
     active a = 1 \<and> active a \<le> 2 \<and> refused a \<le> 1"
proof -
  define s where "s = \<lparr> sy_name = ''syslog:tcp://:514'', sy_network = ''tcp'', sy_host = '':514'',
    sy_maxConns = 2, sy_logging = False \<rparr>"
  define a where "a = accept_init\<lparr>active := 1, served := 1\<rparr>"
  have new: "syslog_New ''tcp://:514'' True False 2 = Inr s" unfolding s_def by code_simp
  have "accept_step s accept_init (accept_init\<lparr>pc := Admitting\<rparr>)"
    by (rule accepted) (simp add: accept_init_def)
  moreover have "accept_step s (accept_init\<lparr>pc := Admitting\<rparr>) a"
    using slot_taken [of "accept_init\<lparr>pc := Admitting\<rparr>" s]
    by (simp add: accept_init_def a_def stream_limit_def s_def)
  ultimately have reach: "(accept_step s)\<^sup>*\<^sup>* accept_init a"
    by (rule rtranclp_trans [OF r_into_rtranclp r_into_rtranclp])
  from stream_connections_bounded [OF new this] have "active a \<le> 2 \<and> refused a \<le> 1" by simp
  moreover have "active a = 1" by (simp add: a_def)
  ultimately show ?thesis using new reach by blast
qed

end
