(* ===== verification/Stdin_Source.thy ===== *)
theory Stdin_Source
  imports Line_Source
begin

text \<open>
  The standard-input source, \<^verbatim>\<open>pkg/source/stdin/source.go\<close>: a goroutine scans lines into a buffered channel and reports
  a scanner error on a second one, and the loop of \<^verbatim>\<open>Run\<close> selects over the context and both channels. The two
  goroutines are a step relation, one step per channel operation, so that the lemmas hold for every
  interleaving.

  The theorem shows that no line is lost, invented or reordered on the way, and that \<^verbatim>\<open>Run\<close> without an error and
  without a cancelled context has processed every line. With a scanner error the select is free to see the
  closed line channel first, and then \<^verbatim>\<open>Run\<close> returns nil; or it sees the error first and leaves scanned lines
  behind.
\<close>

section \<open>The model\<close>

definition stdinScanBufSize :: nat where "stdinScanBufSize = 65536"

definition stdinLinesBuf :: nat where "stdinLinesBuf = 1000"

record StdinSource =
  in_name :: string

definition NewStdinSource :: StdinSource where
  "NewStdinSource = \<lparr> in_name = ''stdin'' \<rparr>"

definition stdin_bad :: "string \<Rightarrow> 'e srcst \<Rightarrow> 'e srcst" where
  "stdin_bad line = log_if True ''PARSER'' ''debug''"

definition stdin_line :: "line_parser \<Rightarrow> string \<times> bool \<Rightarrow> payload Event srcst \<Rightarrow> payload Event srcst" where
  "stdin_line parse =
     take_line (\<lambda>line. map_option (log_envelope ''stdin'' ''stdin'') (parse line)) stdin_bad"

datatype run_result = ReturnedNil | ReturnedErr

text \<open>
  \<open>in_todo\<close> and \<open>scanErr\<close> are what the scanner will still produce, \<open>scanCh\<close> and \<open>errCh\<close> the contents of the channels,
  \<open>errSent\<close> and \<open>scanClosed\<close> the progress of the goroutine past its loop, \<open>in_handled\<close> the items \<^verbatim>\<open>Run\<close> has taken.
\<close>

record stdin_st =
  in_todo :: "string list"
  scanErr :: bool
  scanCh :: "string list"
  errCh :: bool
  errSent :: bool
  scanClosed :: bool
  in_handled :: "(string \<times> bool) list"
  in_src :: "payload Event srcst"
  in_result :: "run_result option"
  in_cancelled :: bool

definition stdin_init :: "string \<Rightarrow> bool \<Rightarrow> stdin_st" where
  "stdin_init content readErr =
     (case scan_lines stdinScanBufSize content of
        (ls, tooLong) \<Rightarrow>
          \<lparr> in_todo = ls, scanErr = (tooLong \<or> readErr), scanCh = [], errCh = False, errSent = False,
            scanClosed = False, in_handled = [], in_src = srcst0, in_result = None, in_cancelled = False \<rparr>)"

inductive stdin_step :: "line_parser \<Rightarrow> stdin_st \<Rightarrow> stdin_st \<Rightarrow> bool" for parse where
  scan: "in_todo s = l # ls \<Longrightarrow> length (scanCh s) < stdinLinesBuf \<Longrightarrow>
    stdin_step parse s (s\<lparr>in_todo := ls, scanCh := scanCh s @ [l]\<rparr>)"
| scan_err: "in_todo s = [] \<Longrightarrow> scanErr s \<Longrightarrow> \<not> errSent s \<Longrightarrow>
    stdin_step parse s (s\<lparr>errSent := True, errCh := True\<rparr>)"
| scan_close: "in_todo s = [] \<Longrightarrow> scanErr s = errSent s \<Longrightarrow> \<not> scanClosed s \<Longrightarrow>
    stdin_step parse s (s\<lparr>scanClosed := True\<rparr>)"
| run_done: "in_result s = None \<Longrightarrow> stdin_step parse s (s\<lparr>in_result := Some ReturnedNil, in_cancelled := True\<rparr>)"
| run_line: "in_result s = None \<Longrightarrow> scanCh s = l # ls \<Longrightarrow>
    stdin_step parse s (s\<lparr>scanCh := ls, in_handled := in_handled s @ [(l, room)],
      in_src := stdin_line parse (l, room) (in_src s)\<rparr>)"
| run_closed: "in_result s = None \<Longrightarrow> scanCh s = [] \<Longrightarrow> scanClosed s \<Longrightarrow>
    stdin_step parse s (s\<lparr>in_result := Some ReturnedNil\<rparr>)"
| run_err: "in_result s = None \<Longrightarrow> errCh s \<Longrightarrow>
    stdin_step parse s (s\<lparr>errCh := False, in_result := Some ReturnedErr,
      in_src := log_if True ''STDIN'' ''error'' (in_src s)\<rparr>)"

inductive_cases stdin_stepE: "stdin_step parse s s'"

definition stdin_Manifest :: Manifest where
  "stdin_Manifest = source_manifest ''stdin'' [''stdin'', ''pipe''] envelope_fields"

section \<open>Lemmas\<close>

lemma only_logs_stdin [simp]: "only_logs stdin_bad"
  by (simp add: only_logs_def stdin_bad_def)

interpretation sin: line_source "stdin_line parse" linesRead parseErrors dropped out
    "\<lambda>i. map_option (log_envelope ''stdin'' ''stdin'') (parse (fst i))" snd for parse
  unfolding stdin_line_def by (rule take_line_source) simp

text \<open>
  The invariant: what was handled, what waits in the channel and what is still to be scanned make up the
  input, and the counters are those of the handled items.
\<close>

definition stdin_ok :: "line_parser \<Rightarrow> string list \<Rightarrow> bool \<Rightarrow> stdin_st \<Rightarrow> bool" where
  "stdin_ok parse ls err s =
     (map fst (in_handled s) @ scanCh s @ in_todo s = ls \<and> length (scanCh s) \<le> stdinLinesBuf \<and>
      scanErr s = err \<and> (errSent s \<longrightarrow> err) \<and> (scanClosed s \<longrightarrow> in_todo s = []) \<and>
      (errCh s \<longrightarrow> err) \<and>
      (in_result s = Some ReturnedErr \<longrightarrow> err) \<and>
      (in_result s = Some ReturnedNil \<and> \<not> in_cancelled s \<longrightarrow> scanCh s = [] \<and> in_todo s = []) \<and>
      out (in_src s) = out (fold (stdin_line parse) (in_handled s) srcst0) \<and>
      src_Stats (in_src s) = src_Stats (fold (stdin_line parse) (in_handled s) srcst0))"

lemma src_Stats_eq_iff:
  "src_Stats s = src_Stats t \<longleftrightarrow> linesRead s = linesRead t \<and> parseErrors s = parseErrors t \<and> dropped s = dropped t"
  by (auto simp: src_Stats_def)

lemma stdin_line_cong:
  assumes "src_Stats s = src_Stats t" "out s = out t"
  shows "src_Stats (stdin_line parse i s) = src_Stats (stdin_line parse i t) \<and> out (stdin_line parse i s) = out (stdin_line parse i t)"
  using assms by (simp add: src_Stats_eq_iff sin.step_lines sin.step_errs sin.step_drops sin.step_sent)

lemma stdin_ok_step: "stdin_step parse s s' \<Longrightarrow> stdin_ok parse ls err s \<Longrightarrow> stdin_ok parse ls err s'"
proof (erule stdin_stepE, goal_cases)
  case (5 l ls' room)
  then show ?case
    using stdin_line_cong [of "in_src s" "fold (stdin_line parse) (in_handled s) srcst0" parse "(l, room)"]
    by (auto simp: stdin_ok_def)
next
  case 7
  then show ?case by (auto simp: stdin_ok_def src_Stats_eq_iff)
qed (auto simp: stdin_ok_def)

lemma stdin_ok_reachable:
  assumes "(stdin_step parse)\<^sup>*\<^sup>* (stdin_init content readErr) s"
  shows "stdin_ok parse (fst (scan_lines stdinScanBufSize content))
           (snd (scan_lines stdinScanBufSize content) \<or> readErr) s"
  using assms
proof (induction rule: rtranclp_induct)
  case base
  then show ?case by (simp add: stdin_ok_def stdin_init_def split: prod.split)
next
  case (step s s')
  then show ?case using stdin_ok_step by blast
qed



text \<open>
  The race on a scanner error: from the state in which the goroutine has sent the error and closed the line
  channel, \<^verbatim>\<open>Run\<close> may return either result.
\<close>

lemma stdin_error_may_be_lost:
  assumes "in_result s = None" "scanCh s = []" "scanClosed s" "errCh s"
  shows "\<exists>s1 s2. stdin_step parse s s1 \<and> in_result s1 = Some ReturnedNil \<and> \<not> (in_cancelled s1 \<and> \<not> in_cancelled s) \<and>
           stdin_step parse s s2 \<and> in_result s2 = Some ReturnedErr"
proof -
  have "stdin_step parse s (s\<lparr>in_result := Some ReturnedNil\<rparr>)" by (rule run_closed) (use assms in auto)
  moreover have "stdin_step parse s (s\<lparr>errCh := False, in_result := Some ReturnedErr,
      in_src := log_if True ''STDIN'' ''error'' (in_src s)\<rparr>)" by (rule run_err) (use assms in auto)
  ultimately show ?thesis by fastforce
qed

end
