(* ===== verification/File_System.thy ===== *)
theory File_System
  imports Go_Prelude
begin

text \<open>
  The file system as the tail reader and the file sink see it: names lead to inodes, an open file is an inode (with a
  position, for a reader), a rename changes the names and leaves the inodes. An inode is its content.
\<close>

record fsys =
  inodes :: "string list"
  names :: "string \<rightharpoonup> nat"

text \<open>\<^verbatim>\<open>O_CREATE|O_APPEND\<close>: the inode of the path, made empty when there is none.\<close>

definition open_append :: "string \<Rightarrow> fsys \<Rightarrow> nat \<times> fsys" where
  "open_append path fs =
     (case names fs path of
        Some i \<Rightarrow> (i, fs)
      | None \<Rightarrow> (length (inodes fs), fs\<lparr>inodes := inodes fs @ [[]], names := (names fs)(path \<mapsto> length (inodes fs))\<rparr>))"

definition append_to :: "nat \<Rightarrow> string \<Rightarrow> fsys \<Rightarrow> fsys" where
  "append_to i s fs = fs\<lparr>inodes := (inodes fs)[i := inodes fs ! i @ s]\<rparr>"

definition rename_file :: "string \<Rightarrow> string \<Rightarrow> fsys \<Rightarrow> fsys" where
  "rename_file a b fs = fs\<lparr>names := (names fs)(b := names fs a, a := None)\<rparr>"

definition create_file :: "string \<Rightarrow> fsys \<Rightarrow> fsys" where
  "create_file path fs = fs\<lparr>inodes := inodes fs @ [[]], names := (names fs)(path \<mapsto> length (inodes fs))\<rparr>"

lemma append_to_names [simp]: "names (append_to i s fs) = names fs"
  by (simp add: append_to_def)

lemma append_to_length [simp]: "length (inodes (append_to i s fs)) = length (inodes fs)"
  by (simp add: append_to_def)

lemma append_to_same [simp]: "i < length (inodes fs) \<Longrightarrow> inodes (append_to i s fs) ! i = inodes fs ! i @ s"
  by (simp add: append_to_def)

lemma append_to_other [simp]: "i \<noteq> j \<Longrightarrow> inodes (append_to i s fs) ! j = inodes fs ! j"
  by (simp add: append_to_def)

end
