(* ===== verification/Event_Sinks.thy ===== *)
theory Event_Sinks
  imports Line_Source File_System
begin

text \<open>
  The sinks that write lines, \<^verbatim>\<open>pkg/sink/file/sink.go\<close> and \<^verbatim>\<open>pkg/sink/stdout/sink.go\<close>, with the formatter interface of
  \<^verbatim>\<open>pkg/sink/format\<close>. A formatter is a function from events to a line or an error. The locale \<open>event_sink\<close> states
  what \<^verbatim>\<open>Write\<close> of such a sink promises: exactly one of the three counters of \<^verbatim>\<open>SinkStats\<close> moves, and it is the one for
  written events exactly when the call succeeds.

  The file sink keeps an open file across a rename, so it works on the inodes of \<open>File_System\<close>. What the operating system answers to a call (directory not creatable, file not
  openable, a write that stops part way) is an argument of the operation.
\<close>

section \<open>Counters and the interface\<close>

record SinkStats =
  EventsWritten :: i64
  sk_Dropped :: i64
  sk_Errors :: i64

locale event_sink =
  fixes write_ev :: "'i \<Rightarrow> 's \<Rightarrow> 'err option \<times> 's"
    and stats :: "'s \<Rightarrow> SinkStats"
  assumes success: "write_ev i s = (None, s') \<Longrightarrow>
      stats s' = (stats s)\<lparr>EventsWritten := EventsWritten (stats s) + 1\<rparr>"
    and failure: "write_ev i s = (Some e, s') \<Longrightarrow>
      stats s' = (stats s)\<lparr>sk_Dropped := sk_Dropped (stats s) + 1\<rparr> \<or>
      stats s' = (stats s)\<lparr>sk_Errors := sk_Errors (stats s) + 1\<rparr>"
begin

definition total where
  "total s = EventsWritten (stats s) + sk_Dropped (stats s) + sk_Errors (stats s)"

fun writes where
  "writes [] s = ([], s)"
| "writes (i # is) s = (case write_ev i s of (r, s1) \<Rightarrow> case writes is s1 of (rs, s2) \<Rightarrow> (r # rs, s2))"

lemma write_total: "write_ev i s = (r, s') \<Longrightarrow> total s' = total s + 1"
  using success [of i s s'] failure [of i s _ s'] by (cases r) (auto simp: total_def)

lemma write_written:
  "write_ev i s = (r, s') \<Longrightarrow> EventsWritten (stats s') = EventsWritten (stats s) + (if r = None then 1 else 0)"
  using success [of i s s'] failure [of i s _ s'] by (cases r) auto

text \<open>Every call is counted once, and the written events are the calls that succeeded.\<close>

lemma writes_counted:
  "writes is s = (rs, s') \<Longrightarrow>
     length rs = length is \<and> total s' = total s + word_of_nat (length is) \<and>
     EventsWritten (stats s') = EventsWritten (stats s) + word_of_nat (length (filter (\<lambda>r. r = None) rs))"
proof (induction "is" arbitrary: s rs s')
  case Nil
  then show ?case by simp
next
  case (Cons i "is")
  obtain r s1 where w: "write_ev i s = (r, s1)" by (cases "write_ev i s")
  obtain rs1 s2 where ws: "writes is s1 = (rs1, s2)" by (cases "writes is s1")
  from Cons.prems w ws have "rs = r # rs1" "s' = s2" by auto
  with Cons.IH [OF ws] write_total [OF w] write_written [OF w] show ?case by simp
qed

end

datatype sink_error =
    NilEvent
  | FormatError string
  | FileClosed
  | WriteError string

type_synonym 'p formatter = "'p Event \<Rightarrow> string + string"

section \<open>The operating system\<close>

text \<open>A write appends to the inode; one that fails may have appended a prefix.\<close>

datatype write_outcome = WriteOK | WriteFails nat string

text \<open>What the system answers: \<open>os_Dir\<close> is \<^verbatim>\<open>filepath.Dir\<close>, the others are the errors of the calls.\<close>

record osenv =
  os_Dir :: "string \<Rightarrow> string"
  os_MkdirAll :: "string \<Rightarrow> string option"
  os_Open :: "string \<Rightarrow> string option"

definition ensureSinkDir :: "osenv \<Rightarrow> string \<Rightarrow> string option" where
  "ensureSinkDir E path =
     (let dir = os_Dir E path in if dir = [] \<or> dir = ''.'' then None else os_MkdirAll E dir)"

definition openSinkFile :: "osenv \<Rightarrow> string \<Rightarrow> fsys \<Rightarrow> string + nat \<times> fsys" where
  "openSinkFile E path fs =
     (case ensureSinkDir E path of
        Some e \<Rightarrow> Inl e
      | None \<Rightarrow> (case os_Open E path of Some e \<Rightarrow> Inl e | None \<Rightarrow> Inr (open_append path fs)))"

section \<open>The file sink\<close>

record FileSink =
  fk_name :: string
  fk_path :: string
  fk_f :: "nat option"
  fk_eventsWritten :: i64
  fk_dropped :: i64
  fk_errors :: i64

datatype file_sink_error = SinkPathEmpty | SinkNilFormatter string | SinkOpen string string

definition NewFileSink :: "osenv \<Rightarrow> string \<Rightarrow> bool \<Rightarrow> fsys \<Rightarrow> file_sink_error + FileSink \<times> fsys" where
  "NewFileSink E path hasFormatter fs =
     fail_if (path = []) SinkPathEmpty
       (fail_if (\<not> hasFormatter) (SinkNilFormatter path)
         (case openSinkFile E path fs of
            Inl e \<Rightarrow> Inl (SinkOpen path e)
          | Inr (f, fs1) \<Rightarrow>
              Inr (\<lparr> fk_name = ''file:'' @ path, fk_path = path, fk_f = Some f, fk_eventsWritten = 0,
                     fk_dropped = 0, fk_errors = 0 \<rparr>, fs1)))"

definition FileSink_Write ::
  "'p formatter \<Rightarrow> 'p Event option \<times> write_outcome \<Rightarrow> FileSink \<times> fsys \<Rightarrow> sink_error option \<times> FileSink \<times> fsys" where
  "FileSink_Write format ew sf =
     (let s = fst sf; fs = snd sf
      in case fst ew of
           None \<Rightarrow> (Some NilEvent, s\<lparr>fk_errors := fk_errors s + 1\<rparr>, fs)
         | Some event \<Rightarrow>
             (case format event of
                Inl e \<Rightarrow> (Some (FormatError e), s\<lparr>fk_errors := fk_errors s + 1\<rparr>, fs)
              | Inr line \<Rightarrow>
                  (case fk_f s of
                     None \<Rightarrow> (Some FileClosed, s\<lparr>fk_dropped := fk_dropped s + 1\<rparr>, fs)
                   | Some f \<Rightarrow>
                       (case snd ew of
                          WriteFails n e \<Rightarrow>
                            (Some (WriteError e), s\<lparr>fk_errors := fk_errors s + 1\<rparr>,
                             append_to f (take n (line @ [CHR 0x0A])) fs)
                        | WriteOK \<Rightarrow>
                            (None, s\<lparr>fk_eventsWritten := fk_eventsWritten s + 1\<rparr>,
                             append_to f (line @ [CHR 0x0A]) fs)))))"

definition FileSink_Close :: "FileSink \<Rightarrow> FileSink" where
  "FileSink_Close s = s\<lparr>fk_f := None\<rparr>"

definition FileSink_Reload :: "osenv \<Rightarrow> FileSink \<times> fsys \<Rightarrow> string option \<times> FileSink \<times> fsys" where
  "FileSink_Reload E sf =
     (case openSinkFile E (fk_path (fst sf)) (snd sf) of
        Inl e \<Rightarrow> (Some e, sf)
      | Inr (f, fs1) \<Rightarrow> (None, (fst sf)\<lparr>fk_f := Some f\<rparr>, fs1))"

definition FileSink_Stats :: "FileSink \<Rightarrow> SinkStats" where
  "FileSink_Stats s = \<lparr> EventsWritten = fk_eventsWritten s, sk_Dropped = fk_dropped s, sk_Errors = fk_errors s \<rparr>"

section \<open>The stdout sink\<close>

record StdoutSink =
  so_name :: string
  so_w :: string
  so_eventsWritten :: i64
  so_dropped :: i64
  so_errors :: i64

text \<open>\<open>so_w\<close> is what the writer has received.\<close>

definition NewStdoutSinkWithWriter :: "string \<Rightarrow> bool \<Rightarrow> StdoutSink option" where
  "NewStdoutSinkWithWriter w hasFormatter =
     (if \<not> hasFormatter then None
      else Some \<lparr> so_name = ''stdout'', so_w = w, so_eventsWritten = 0, so_dropped = 0, so_errors = 0 \<rparr>)"

definition StdoutSink_Write ::
  "'p formatter \<Rightarrow> 'p Event option \<times> write_outcome \<Rightarrow> StdoutSink \<Rightarrow> sink_error option \<times> StdoutSink" where
  "StdoutSink_Write format ew s =
     (case fst ew of
        None \<Rightarrow> (Some NilEvent, s\<lparr>so_errors := so_errors s + 1\<rparr>)
      | Some event \<Rightarrow>
          (case format event of
             Inl e \<Rightarrow> (Some (FormatError e), s\<lparr>so_errors := so_errors s + 1\<rparr>)
           | Inr line \<Rightarrow>
               (case snd ew of
                  WriteFails n e \<Rightarrow>
                    (Some (WriteError e), s\<lparr>so_errors := so_errors s + 1, so_w := so_w s @ take n (line @ [CHR 0x0A])\<rparr>)
                | WriteOK \<Rightarrow>
                    (None, s\<lparr>so_eventsWritten := so_eventsWritten s + 1, so_w := so_w s @ line @ [CHR 0x0A]\<rparr>))))"

definition StdoutSink_Stats :: "StdoutSink \<Rightarrow> SinkStats" where
  "StdoutSink_Stats s = \<lparr> EventsWritten = so_eventsWritten s, sk_Dropped = so_dropped s, sk_Errors = so_errors s \<rparr>"

section \<open>Manifests\<close>

definition sink_manifest :: "string \<Rightarrow> string list \<Rightarrow> Manifest" where
  "sink_manifest i tags = \<lparr> PluginID = i, PluginVersion = ''1.0.0'', man_Role = RoleSink,
     InputType = TypeScoredEvent, OutputType = TypeNone, Tags = tags, Produces = [], Consumes = [] \<rparr>"

definition FileSink_Manifest :: Manifest where
  "FileSink_Manifest = sink_manifest ''file'' [''file'', ''fail2ban'', ''json'', ''log-rotation'']"

definition StdoutSink_Manifest :: Manifest where
  "StdoutSink_Manifest = sink_manifest ''stdout'' [''stdout'', ''console'']"

section \<open>Lemmas\<close>

interpretation fsink: event_sink "FileSink_Write format" "\<lambda>sf. FileSink_Stats (fst sf)" for format
  by unfold_locales
     (auto simp: FileSink_Write_def FileSink_Stats_def Let_def split: option.splits sum.splits write_outcome.splits)

interpretation osink: event_sink "StdoutSink_Write format" StdoutSink_Stats for format
  by unfold_locales
     (auto simp: StdoutSink_Write_def StdoutSink_Stats_def split: option.splits sum.splits write_outcome.splits)

subsection \<open>Rotation\<close>

text \<open>
  A life of the sink: writes, renames of its file by the log rotation, and reloads, which may fail.
\<close>

datatype 'p sink_op = Put "'p Event option" write_outcome | Rotate string | Reopen osenv

fun sink_apply :: "'p formatter \<Rightarrow> 'p sink_op \<Rightarrow> FileSink \<times> fsys \<Rightarrow> FileSink \<times> fsys" where
  "sink_apply format (Put ev w) sf = snd (FileSink_Write format (ev, w) sf)"
| "sink_apply format (Rotate b) sf = (fst sf, rename_file (fk_path (fst sf)) b (snd sf))"
| "sink_apply format (Reopen E) sf = snd (FileSink_Reload E sf)"

text \<open>The bytes an operation hands to the file.\<close>

fun emitted :: "'p formatter \<Rightarrow> 'p sink_op \<Rightarrow> string" where
  "emitted format (Put (Some e) w) =
     (case format e of
        Inl _ \<Rightarrow> []
      | Inr line \<Rightarrow>
          (case w of WriteOK \<Rightarrow> line @ [CHR 0x0A] | WriteFails n _ \<Rightarrow> take n (line @ [CHR 0x0A])))"
| "emitted format _ = []"

fun rotates_away :: "string \<Rightarrow> 'p sink_op \<Rightarrow> bool" where
  "rotates_away path (Rotate b) = (b \<noteq> path)"
| "rotates_away path _ = True"

text \<open>
  The open file is the newest inode, the path leads there or nowhere, and the inodes from \<open>old\<close> on hold \<open>text\<close>.
\<close>

definition sink_inv :: "string \<Rightarrow> string list \<Rightarrow> string \<Rightarrow> FileSink \<times> fsys \<Rightarrow> bool" where
  "sink_inv path old written sf =
     (fk_path (fst sf) = path \<and>
      (\<exists>own c. inodes (snd sf) = old @ own @ [c] \<and> concat own @ c = written \<and>
         fk_f (fst sf) = Some (length old + length own) \<and>
         (names (snd sf) path = None \<or> names (snd sf) path = Some (length old + length own))))"

lemma sink_inv_append:
  assumes "sink_inv path old written (s, fs)" "fk_f s = Some f" "fk_path s' = fk_path s" "fk_f s' = fk_f s"
  shows "sink_inv path old (written @ t) (s', append_to f t fs)"
proof -
  from assms(1) obtain own c where o: "inodes fs = old @ own @ [c]" "concat own @ c = written"
      "fk_f s = Some (length old + length own)" "names fs path = None \<or> names fs path = Some (length old + length own)"
    by (auto simp: sink_inv_def)
  have f: "f = length (old @ own)" using assms(2) o(3) by simp
  have i: "inodes fs = (old @ own) @ [c]" using o(1) by simp
  have "inodes (append_to f t fs) = old @ own @ [c @ t]"
    unfolding append_to_def by (simp add: i f nth_append list_update_append)
  then show ?thesis using assms o unfolding sink_inv_def by auto
qed

lemma sink_inv_keep:
  "sink_inv path old written (s, fs) \<Longrightarrow> fk_path s' = fk_path s \<Longrightarrow> fk_f s' = fk_f s \<Longrightarrow> sink_inv path old written (s', fs)"
  by (auto simp: sink_inv_def)

lemma sink_inv_open:
  assumes "sink_inv path old written (s, fs)" "open_append path fs = (f, fs1)"
  shows "sink_inv path old written (s\<lparr>fk_f := Some f\<rparr>, fs1)"
proof -
  from assms(1) obtain own c where o: "inodes fs = old @ own @ [c]" "concat own @ c = written" "fk_path s = path"
      "fk_f s = Some (length old + length own)" "names fs path = None \<or> names fs path = Some (length old + length own)"
    by (auto simp: sink_inv_def)
  show ?thesis
  proof (cases "names fs path")
    case None
    then have fs1: "fs1 = fs\<lparr>inodes := inodes fs @ [[]], names := (names fs)(path \<mapsto> length (inodes fs))\<rparr>" "f = length (inodes fs)"
      using assms(2) by (auto simp: open_append_def)
    show ?thesis unfolding sink_inv_def
      by (intro conjI exI [of _ "own @ [c]"] exI [of _ "[]"]) (use o fs1 in simp_all)
  next
    case (Some i)
    then have "fs1 = fs" "f = i" "i = length old + length own" using assms(2) o(5) by (auto simp: open_append_def)
    then show ?thesis using assms(1) o by (auto simp: sink_inv_def)
  qed
qed

lemma sink_inv_apply:
  assumes "sink_inv path old written sf" "rotates_away path x"
  shows "sink_inv path old (written @ emitted format x) (sink_apply format x sf)"
proof (cases x)
  case (Put ev w)
  obtain s fs where sf: "sf = (s, fs)" by (cases sf)
  obtain f where f: "fk_f s = Some f" using assms(1) by (auto simp: sink_inv_def sf)
  show ?thesis
    using sink_inv_append [OF assms(1) [unfolded sf] f] sink_inv_keep [OF assms(1) [unfolded sf]] f
    by (auto simp: Put sf FileSink_Write_def Let_def split: option.split sum.split write_outcome.split)
next
  case (Rotate b)
  with assms show ?thesis by (auto simp: sink_inv_def rename_file_def)
next
  case (Reopen E)
  obtain s fs where sf: "sf = (s, fs)" by (cases sf)
  obtain f fs1 where op: "open_append path fs = (f, fs1)" by (cases "open_append path fs")
  have "fk_path s = path" using assms(1) by (simp add: sink_inv_def sf)
  then show ?thesis
    using assms(1) sink_inv_open [OF assms(1) [unfolded sf] op] op
    by (auto simp: Reopen sf FileSink_Reload_def openSinkFile_def split: option.split)
qed

lemma sink_inv_fold:
  assumes "sink_inv path old written sf" "list_all (rotates_away path) ops"
  shows "sink_inv path old (written @ concat (map (emitted format) ops)) (fold (sink_apply format) ops sf)"
  using assms
proof (induction ops arbitrary: sf written)
  case Nil
  then show ?case by simp
next
  case (Cons x ops)
  have "sink_inv path old (written @ emitted format x) (sink_apply format x sf)"
    by (rule sink_inv_apply) (use Cons.prems in simp_all)
  from Cons.IH [OF this] Cons.prems(2) show ?case by simp
qed

lemma sink_inv_New:
  assumes "NewFileSink E path hasF fs = Inr sf" "names fs path = None"
  shows "sink_inv path (inodes fs) [] sf"
proof -
  obtain s fs1 where sf: "sf = (s, fs1)" by (cases sf)
  have "open_append path fs = (length (inodes fs), fs1)" and s: "fk_path s = path" "fk_f s = Some (length (inodes fs))"
    using assms by (auto simp: sf NewFileSink_def openSinkFile_def res_Inr open_append_def split: sum.splits option.splits)
  then have "inodes fs1 = inodes fs @ [[]]" "names fs1 path = Some (length (inodes fs))"
    using assms(2) by (auto simp: open_append_def)
  then show ?thesis unfolding sink_inv_def sf
    by (intro conjI exI [of _ "[]"]) (use s in simp_all)
qed

text \<open>
  C24: through any sequence of writes, renames of the file by the log rotation and reloads, failing ones included, no
  byte the sink writes is lost, duplicated, reordered or written to another file: the files it has had open hold,
  one after the other, exactly the formatted lines in the order of the calls, and every file that existed before is
  unchanged.
\<close>

theorem file_sink_survives_rotation:
  assumes "NewFileSink E path True fs = Inr sf" "names fs path = None" "list_all (rotates_away path) ops"
  shows "take (length (inodes fs)) (inodes (snd (fold (sink_apply format) ops sf))) = inodes fs \<and>
         concat (drop (length (inodes fs)) (inodes (snd (fold (sink_apply format) ops sf)))) = concat (map (emitted format) ops)"
  using sink_inv_fold [OF sink_inv_New [OF assms(1,2)] assms(3), of format] by (auto simp: sink_inv_def)

definition osenv0 :: osenv where
  "osenv0 = \<lparr> os_Dir = (\<lambda>p. ''.''), os_MkdirAll = (\<lambda>d. None), os_Open = (\<lambda>p. None) \<rparr>"

definition fsys0 :: fsys where
  "fsys0 = \<lparr> inodes = [''other''], names = Map.empty \<rparr>"

definition demo_event :: "string Event" where
  "demo_event = \<lparr> Timestamp = zero_time, Stream = [], Source = [], SourceType = [], Level = [], Payload = ''x'' \<rparr>"

definition demo_ops :: "string sink_op list" where
  "demo_ops = [Put (Some demo_event) WriteOK, Rotate ''a.1'', Put (Some demo_event) WriteOK, Reopen osenv0,
     Put (Some demo_event) WriteOK]"

theorem file_sink_survives_rotation_witness:
  "\<exists>sf. NewFileSink osenv0 ''a'' True fsys0 = Inr sf \<and>
     concat (drop 1 (inodes (snd (fold (sink_apply (\<lambda>e. Inr (Payload e))) demo_ops sf)))) = concat [''x'', [CHR 0x0A], ''x'', [CHR 0x0A], ''x'', [CHR 0x0A]]"
proof -
  have new: "\<exists>sf. NewFileSink osenv0 ''a'' True fsys0 = Inr sf"
    by (auto simp: NewFileSink_def openSinkFile_def ensureSinkDir_def osenv0_def fsys0_def open_append_def)
  then obtain sf where sf: "NewFileSink osenv0 ''a'' True fsys0 = Inr sf" by blast
  have "list_all (rotates_away ''a'') demo_ops" by (simp add: demo_ops_def)
  from file_sink_survives_rotation [OF sf _ this, of "\<lambda>e. Inr (Payload e)"] sf show ?thesis
    by (auto simp: fsys0_def demo_ops_def demo_event_def)
qed

text \<open>
  Every call of \<^verbatim>\<open>Write\<close> on a file sink is counted exactly once, as written, dropped or failed, and the written
  events are the calls that returned no error, whatever the events, the formatter and the disk do; the same holds
  for the stdout sink.
\<close>

lemma sink_calls_counted:
  "fsink.writes format is (s, fs) = (rs, s', fs') \<Longrightarrow>
     EventsWritten (FileSink_Stats s') + sk_Dropped (FileSink_Stats s') + sk_Errors (FileSink_Stats s') =
       EventsWritten (FileSink_Stats s) + sk_Dropped (FileSink_Stats s) + sk_Errors (FileSink_Stats s) + word_of_nat (length is) \<and>
     EventsWritten (FileSink_Stats s') = EventsWritten (FileSink_Stats s) + word_of_nat (length (filter (\<lambda>r. r = None) rs))"
  using fsink.writes_counted [of format "is" "(s, fs)" rs "(s', fs')"] unfolding fsink.total_def fst_conv by blast

lemma stdout_calls_counted:
  "osink.writes format is s = (rs, s') \<Longrightarrow>
     osink.total s' = osink.total s + word_of_nat (length is) \<and>
     EventsWritten (StdoutSink_Stats s') = EventsWritten (StdoutSink_Stats s) + word_of_nat (length (filter (\<lambda>r. r = None) rs))"
  using osink.writes_counted [of format "is" s rs s'] by blast

end
