(* ===== verification/Sentinel_Bridge.thy ===== *)
theory Sentinel_Bridge
  imports Line_Source Event_Sinks Channel_Switch
begin

text \<open>
  The bridge between two pipelines over a named queue: the sentinel sink (\<^verbatim>\<open>pkg/sink/sentinel/sink.go\<close>), which formats an
  event and pushes the bytes, and the sentinel source (\<^verbatim>\<open>pkg/source/sentinel/source.go\<close>), which pops them, checks that they
  are JSON and offers them to its pipeline.

  Both work on any queue of the contract \<open>fifo_queue\<close>, whose operations are arguments here. The lemmas about a run of
  the two, proved inside that locale, hold for its interpretations, the in-memory and the persistent queue. The
  payload a source delivers is the bytes themselves, as \<^verbatim>\<open>json.RawMessage\<close>.
\<close>

section \<open>The sink\<close>

record SentinelThreatSink =
  ts_name :: string
  ts_q :: nat
  ts_dropped :: i64

datatype sentinel_sink_error = TsNameRequired | TsNilFormatter string

datatype ts_write_error = TsNilEvent | TsFormat string | TsQueue queue_error

text \<open>\<^verbatim>\<open>ncs.AttachWriter\<close> does not fail, so neither does this constructor past its two guards.\<close>

definition NewSentinelThreatSink ::
  "string \<Rightarrow> bool \<Rightarrow> int \<Rightarrow> ('d, 'r) Switch \<Rightarrow> sentinel_sink_error + SentinelThreatSink \<times> ('d, 'r) Switch" where
  "NewSentinelThreatSink name hasFormatter bufferSize sw =
     fail_if (name = []) TsNameRequired
       (fail_if (\<not> hasFormatter) (TsNilFormatter name)
         (case AttachWriter name bufferSize sw of
            (q, sw1) \<Rightarrow> Inr (\<lparr> ts_name = name, ts_q = q, ts_dropped = 0 \<rparr>, sw1)))"

definition ts_Name :: "SentinelThreatSink \<Rightarrow> string" where
  "ts_Name s = ''sentinel-threat:'' @ ts_name s"

definition ts_Close :: "SentinelThreatSink \<Rightarrow> ('d, 'r) Switch \<Rightarrow> ('d, 'r) Switch" where
  "ts_Close s sw = DetachWriter (ts_name s) sw"

text \<open>A full queue is a silent drop.\<close>

definition ts_Write ::
  "('q \<Rightarrow> ctx \<Rightarrow> bytes \<Rightarrow> (queue_error option \<times> 'q) list) \<Rightarrow> ('p Event \<Rightarrow> string + bytes) \<Rightarrow> ctx \<Rightarrow> 'p Event option \<Rightarrow>
   SentinelThreatSink \<Rightarrow> 'q \<Rightarrow> (ts_write_error option \<times> SentinelThreatSink \<times> 'q) list" where
  "ts_Write push format ctx event s q =
     (case event of
        None \<Rightarrow> [(Some TsNilEvent, s, q)]
      | Some ev \<Rightarrow>
          (case format ev of
             Inl e \<Rightarrow> [(Some (TsFormat e), s, q)]
           | Inr line \<Rightarrow>
               map (\<lambda>(r, q1).
                      case r of
                        None \<Rightarrow> (None, s, q1)
                      | Some ErrQueueFull \<Rightarrow> (None, s\<lparr>ts_dropped := ts_dropped s + 1\<rparr>, q1)
                      | Some e \<Rightarrow> (Some (TsQueue e), s, q1))
                 (push q ctx line)))"

definition ts_Manifest :: Manifest where
  "ts_Manifest = sink_manifest ''sentinel-threat'' [''sentinel'', ''hub-bridge'', ''executor-queue'']"

section \<open>The source\<close>

record SentinelSource =
  sn_name :: string
  sn_q :: nat
  sn_logging :: bool

datatype sentinel_addr_error = BadScheme string | EmptyQueueName string

datatype sentinel_new_error = SnAddr sentinel_addr_error | SnAttach string ncs_error

definition addrScheme :: string where "addrScheme = ''ncs://''"

definition sn_parseAddr :: "string \<Rightarrow> sentinel_addr_error + string" where
  "sn_parseAddr addr =
     fail_if (\<not> HasPrefix addr addrScheme) (BadScheme addr)
       (let name = TrimPrefix addr addrScheme
        in fail_if (name = []) (EmptyQueueName addr) (Inr name))"

definition sn_New :: "string \<Rightarrow> bool \<Rightarrow> ('d, 'r) Switch \<Rightarrow> sentinel_new_error + SentinelSource" where
  "sn_New addr hasLog sw =
     (case sn_parseAddr addr of
        Inl e \<Rightarrow> Inl (SnAddr e)
      | Inr name \<Rightarrow>
          (case AttachReader name sw of
             Inl e \<Rightarrow> Inl (SnAttach name e)
           | Inr q \<Rightarrow> Inr \<lparr> sn_name = name, sn_q = q, sn_logging = hasLog \<rparr>))"

definition sn_event :: "(bytes \<Rightarrow> bool) \<Rightarrow> SentinelSource \<Rightarrow> gotime \<Rightarrow> bytes \<Rightarrow> bytes Event option" where
  "sn_event json_Valid s now p =
     (if \<not> json_Valid p then None
      else Some \<lparr> Timestamp = now, Stream = [], Source = ''sentinel:'' @ sn_name s, SourceType = ''sentinel'',
             Level = [], Payload = p \<rparr>)"

text \<open>One payload: count it, reject bytes that are not JSON, else offer the event.\<close>

definition sn_take ::
  "(bytes \<Rightarrow> bool) \<Rightarrow> SentinelSource \<Rightarrow> bytes \<times> gotime \<times> bool \<Rightarrow> bytes Event srcst \<Rightarrow> bytes Event srcst" where
  "sn_take json_Valid s pnr st =
     (let p = fst pnr; st1 = st\<lparr>linesRead := linesRead st + 1\<rparr>
      in case sn_event json_Valid s (fst (snd pnr)) p of
           None \<Rightarrow> log_if (sn_logging s) ''SENTINEL'' ''debug'' (st1\<lparr>parseErrors := parseErrors st1 + 1\<rparr>)
         | Some ev \<Rightarrow> offer (snd (snd pnr)) ev st1)"

text \<open>
  The errors of \<^verbatim>\<open>Pop\<close> after which \<^verbatim>\<open>Run\<close> returns nil: the context is done, the queue is closed. Any other is logged, and
  after a pause the loop goes on.
\<close>

fun sn_stops :: "queue_error \<Rightarrow> bool" where
  "sn_stops (CtxErr e) = True"
| "sn_stops ErrQueueClosed = True"
| "sn_stops _ = False"

definition sn_Manifest :: Manifest where
  "sn_Manifest = source_manifest ''sentinel'' [''sentinel'', ''ncs'', ''pipeline-bridge'', ''internal-bus''] envelope_fields"

section \<open>A run of both\<close>

text \<open>
  The writer of one pipeline and the loop of the other take turns on the queue in any order; the trace records what
  each call did. \<open>room\<close> and \<open>now\<close> belong to the moment of a pop.
\<close>

datatype bridge_event =
    Queued bytes
  | SilentDrop
  | WriteFailed ts_write_error
  | Fetched bytes gotime bool
  | PopRetried queue_error
  | SourceEnded

record 'q bridge =
  br_sink :: SentinelThreatSink
  br_queue :: 'q
  br_src :: "bytes Event srcst"
  br_running :: bool

fun sink_outcome :: "ts_write_error option \<Rightarrow> bool \<Rightarrow> bytes \<Rightarrow> bridge_event" where
  "sink_outcome None False p = Queued p"
| "sink_outcome None True p = SilentDrop"
| "sink_outcome (Some e) d p = WriteFailed e"

inductive bridge_run ::
  "('q \<Rightarrow> ctx \<Rightarrow> bytes \<Rightarrow> (queue_error option \<times> 'q) list) \<Rightarrow> ('q \<Rightarrow> ctx \<Rightarrow> ((queue_error + bytes) \<times> 'q) list) \<Rightarrow>
   ('p Event \<Rightarrow> string + bytes) \<Rightarrow> (bytes \<Rightarrow> bool) \<Rightarrow> SentinelSource \<Rightarrow> 'q bridge \<Rightarrow> bridge_event list \<Rightarrow> 'q bridge \<Rightarrow> bool"
  for push pop format json_Valid s where
  none: "bridge_run push pop format json_Valid s b [] b"
| wr: "bridge_run push pop format json_Valid s b es b1 \<Longrightarrow> format ev = Inr p \<Longrightarrow>
    (r, k, q) \<in> set (ts_Write push format ctx (Some ev) (br_sink b1) (br_queue b1)) \<Longrightarrow>
    bridge_run push pop format json_Valid s b
      (es @ [sink_outcome r (ts_dropped k \<noteq> ts_dropped (br_sink b1)) p]) (b1\<lparr>br_sink := k, br_queue := q\<rparr>)"
| wr_bad: "bridge_run push pop format json_Valid s b es b1 \<Longrightarrow>
    (case ev of None \<Rightarrow> True | Some e \<Rightarrow> (\<exists>x. format e = Inl x)) \<Longrightarrow>
    (Some e, k, q) \<in> set (ts_Write push format ctx ev (br_sink b1) (br_queue b1)) \<Longrightarrow>
    bridge_run push pop format json_Valid s b (es @ [WriteFailed e]) (b1\<lparr>br_sink := k, br_queue := q\<rparr>)"
| fetch: "bridge_run push pop format json_Valid s b es b1 \<Longrightarrow> br_running b1 \<Longrightarrow>
    (Inr p, q) \<in> set (pop (br_queue b1) ctx) \<Longrightarrow>
    bridge_run push pop format json_Valid s b (es @ [Fetched p now room])
      (b1\<lparr>br_queue := q, br_src := sn_take json_Valid s (p, now, room) (br_src b1)\<rparr>)"
| retry: "bridge_run push pop format json_Valid s b es b1 \<Longrightarrow> br_running b1 \<Longrightarrow>
    (Inl e, q) \<in> set (pop (br_queue b1) ctx) \<Longrightarrow> \<not> sn_stops e \<Longrightarrow>
    bridge_run push pop format json_Valid s b (es @ [PopRetried e])
      (b1\<lparr>br_queue := q, br_src := log_if (sn_logging s) ''SENTINEL'' ''error'' (br_src b1)\<rparr>)"
| stop: "bridge_run push pop format json_Valid s b es b1 \<Longrightarrow> br_running b1 \<Longrightarrow>
    (Inl e, q) \<in> set (pop (br_queue b1) ctx) \<Longrightarrow> sn_stops e \<Longrightarrow>
    bridge_run push pop format json_Valid s b (es @ [SourceEnded]) (b1\<lparr>br_queue := q, br_running := False\<rparr>)"

fun queued :: "bridge_event list \<Rightarrow> bytes list" where
  "queued [] = []"
| "queued (Queued p # es) = p # queued es"
| "queued (e # es) = queued es"

fun fetched :: "bridge_event list \<Rightarrow> (bytes \<times> gotime \<times> bool) list" where
  "fetched [] = []"
| "fetched (Fetched p t r # es) = (p, t, r) # fetched es"
| "fetched (e # es) = fetched es"

section \<open>Lemmas\<close>

interpretation sent: line_source "sn_take json_Valid s" linesRead parseErrors dropped out
    "\<lambda>i. sn_event json_Valid s (fst (snd i)) (fst i)" "\<lambda>i. snd (snd i)" for json_Valid s
  by unfold_locales (auto simp: sn_take_def Let_def split: option.split)

lemma queued_append [simp]: "queued (es @ fs) = queued es @ queued fs"
  by (induction es rule: queued.induct) simp_all

lemma fetched_append [simp]: "fetched (es @ fs) = fetched es @ fetched fs"
  by (induction es rule: fetched.induct) simp_all

lemma i64_succ_neq: "(x :: i64) + 1 \<noteq> x"
  by simp

lemma ts_Write_cases:
  assumes "(r, k, q') \<in> set (ts_Write push format ctx (Some ev) s q)" "format ev = Inr p"
  obtains (acc) "(None, q') \<in> set (push q ctx p)" "r = None" "k = s"
  | (full) "(Some ErrQueueFull, q') \<in> set (push q ctx p)" "r = None" "ts_dropped k \<noteq> ts_dropped s"
  | (err) e where "(Some e, q') \<in> set (push q ctx p)" "r = Some (TsQueue e)" "k = s"
  using assms by (fastforce simp: ts_Write_def split: option.splits queue_error.splits)

text \<open>A queue of byte payloads whose own range does not end.\<close>

locale byte_queue = fifo_queue content ok "\<lambda>_. False" push pop close
  for content :: "'q \<Rightarrow> bytes list"
    and ok :: "'q \<Rightarrow> bool"
    and push :: "'q \<Rightarrow> ctx \<Rightarrow> bytes \<Rightarrow> (queue_error option \<times> 'q) list"
    and pop :: "'q \<Rightarrow> ctx \<Rightarrow> ((queue_error + bytes) \<times> 'q) list"
    and close :: "'q \<Rightarrow> 'q"
begin

text \<open>Nothing is lost, invented or reordered between the sink and the source.\<close>

lemma bridge_fifo:
  assumes "bridge_run push pop format json_Valid s b es b'" "ok (br_queue b)"
  shows "ok (br_queue b') \<and> content (br_queue b) @ queued es = map fst (fetched es) @ content (br_queue b')"
  using assms
proof (induction rule: bridge_run.induct)
  case (none b)
  then show ?case by simp
next
  case (wr b es b1 ev p r k q ctx)
  show ?case
    using wr.hyps(3,2)
  proof (cases rule: ts_Write_cases)
    case acc
    then show ?thesis using wr.IH [OF wr.prems] push_accepts  by fastforce
  next
    case full
    then show ?thesis using wr.IH [OF wr.prems] push_refuses  by fastforce
  next
    case (err e)
    then show ?thesis using wr.IH [OF wr.prems] push_refuses  by fastforce
  qed
next
  case (wr_bad b es b1 ev e k q ctx)
  then have "q = br_queue b1" by (auto simp: ts_Write_def split: option.splits sum.splits)
  with wr_bad show ?case by simp
next
  case (fetch b es b1 p q ctx now room)
  then show ?case using pop_returns [of "br_queue b1" p q ctx] by auto
next
  case (retry b es b1 e q ctx)
  then show ?case using pop_refuses [of "br_queue b1" e q ctx] by auto
next
  case (stop b es b1 e q ctx)
  then show ?case using pop_refuses [of "br_queue b1" e q ctx] by auto
qed

end

text \<open>The counters and the delivered events of the source are those of the payloads it fetched.\<close>

lemma bridge_src:
  assumes "bridge_run push pop format json_Valid s b es b'"
  shows "out (br_src b') = out (fold (sn_take json_Valid s) (fetched es) (br_src b)) \<and>
         linesRead (br_src b') = linesRead (fold (sn_take json_Valid s) (fetched es) (br_src b)) \<and>
         parseErrors (br_src b') = parseErrors (fold (sn_take json_Valid s) (fetched es) (br_src b)) \<and>
         dropped (br_src b') = dropped (fold (sn_take json_Valid s) (fetched es) (br_src b))"
  using assms
proof (induction rule: bridge_run.induct)
  case (wr b es b1 ev p r k q ctx)
  then show ?case by (cases r; cases "ts_dropped k \<noteq> ts_dropped (br_sink b1)") simp_all
qed (simp_all add: sent.step_lines sent.step_errs sent.step_drops sent.step_sent)

interpretation membytes: byte_queue mq_ch mq_ok mq_Push mq_Pop mq_Close
  by unfold_locales

text \<open>
  C13: two pipelines bridged by an in-memory queue: whatever the interleaving of the sink's writes and the source's
  loop, the source fetches exactly a prefix of the payloads the sink queued, in their order, the rest is still in the
  queue; it delivers those that are JSON and for which there was room, unchanged; and each fetched payload is counted
  once, as a parse error, dropped or delivered.
\<close>

theorem bridge_delivers_in_order:
  assumes "bridge_run mq_Push mq_Pop format json_Valid s b es b'" "mq_ok (br_queue b)" "mq_ch (br_queue b) = []"
    and "br_src b = srcst0"
  shows "queued es = map fst (fetched es) @ mq_ch (br_queue b') \<and>
         map Payload (out (br_src b')) = map fst (filter (\<lambda>(p, now, room). json_Valid p \<and> room) (fetched es)) \<and>
         linesRead (br_src b') = word_of_nat (length (fetched es)) \<and>
         linesRead (br_src b') = parseErrors (br_src b') + dropped (br_src b') + word_of_nat (length (out (br_src b')))"
proof -
  note src = bridge_src [OF assms(1), unfolded assms(4)]
  have "map Payload (sent.delivered json_Valid s fs) = map fst (filter (\<lambda>(p, now, room). json_Valid p \<and> room) fs)" for fs
    unfolding sent.delivered_def by (induction fs) (auto simp: sn_event_def)
  then show ?thesis
    using membytes.bridge_fifo [OF assms(1,2)] assms(3) src sent.run_sent [of json_Valid s "fetched es" srcst0]
      sent.run_lines [of json_Valid s "fetched es" srcst0] sent.run_balance [of json_Valid s "fetched es" srcst0]
    by (simp add: algebra_simps)
qed

definition demo_sn :: SentinelSource where
  "demo_sn = \<lparr> sn_name = ''q'', sn_q = 0, sn_logging = False \<rparr>"

definition demo_bridge :: "MemoryQueue bridge" where
  "demo_bridge = \<lparr> br_sink = \<lparr> ts_name = ''q'', ts_q = 0, ts_dropped = 0 \<rparr>, br_queue = NewMemoryQueue 4,
     br_src = srcst0, br_running = True \<rparr>"

lemma demo_bridge_run:
  "\<exists>b'. bridge_run mq_Push mq_Pop (\<lambda>e :: string Event. Inr (bytes_of_string (Payload e))) (\<lambda>p. True) demo_sn demo_bridge
     [Queued (bytes_of_string ''x''), Fetched (bytes_of_string ''x'') zero_time True] b'"
proof -
  let ?f = "\<lambda>e :: string Event. Inr (bytes_of_string (Payload e))"
  let ?p = "bytes_of_string ''x''"
  define q1 where "q1 = (NewMemoryQueue 4)\<lparr>mq_ch := [?p]\<rparr>"
  have "(None, br_sink demo_bridge, q1) \<in> set (ts_Write mq_Push ?f None (Some demo_event) (br_sink demo_bridge) (br_queue demo_bridge))"
    by (simp add: ts_Write_def demo_bridge_def demo_event_def mq_Push_def NewMemoryQueue_def q1_def go_simps
        ready_if_def ready_done_def select_default_def)
  from wr [OF none _ this] have run: "bridge_run mq_Push mq_Pop ?f (\<lambda>p. True) demo_sn demo_bridge
      ([] @ [sink_outcome None False ?p]) (demo_bridge\<lparr>br_sink := br_sink demo_bridge, br_queue := q1\<rparr>)"
    by (simp add: demo_event_def)
  have "(Inr ?p, q1\<lparr>mq_ch := []\<rparr>) \<in> set (mq_Pop q1 None)" by (simp add: mq_Pop_iff q1_def)
  with fetch [OF run, of ?p "q1\<lparr>mq_ch := []\<rparr>" None zero_time True] show ?thesis by (auto simp: demo_bridge_def)
qed

theorem bridge_delivers_in_order_witness:
  "\<exists>b' :: MemoryQueue bridge. map Payload (out (br_src b')) = [bytes_of_string ''x''] \<and> linesRead (br_src b') = 1"
proof -
  let ?es = "[Queued (bytes_of_string ''x''), Fetched (bytes_of_string ''x'') zero_time True]"
  obtain b' :: "MemoryQueue bridge" where run: "bridge_run mq_Push mq_Pop (\<lambda>e :: string Event. Inr (bytes_of_string (Payload e)))
      (\<lambda>p. True) demo_sn demo_bridge ?es b'"
    using demo_bridge_run by blast
  have "mq_ok (br_queue demo_bridge)" "mq_ch (br_queue demo_bridge) = []" "br_src demo_bridge = srcst0"
    by (simp_all add: demo_bridge_def NewMemoryQueue_ok)
  from bridge_delivers_in_order [OF run this]
  have "map Payload (out (br_src b')) = [bytes_of_string ''x''] \<and> linesRead (br_src b') = 1" by simp
  then show ?thesis by (rule exI)
qed

text \<open>The address the sink and the source must agree on.\<close>

lemma sn_New_finds_sink:
  assumes "NewSentinelThreatSink name True n sw = Inr (k, sw1)"
  shows "\<exists>s. sn_New (addrScheme @ name) hasLog sw1 = Inr s \<and> sn_q s = ts_q k"
proof -
  have n: "name \<noteq> []" "ts_q k = fst (AttachWriter name n sw)" "sw1 = snd (AttachWriter name n sw)"
    using assms by (auto simp: NewSentinelThreatSink_def res_Inr split: prod.splits)
  have "AttachReader name sw1 = Inr (ts_q k)"
    unfolding n(2,3) by (auto simp: AttachReader_def AttachWriter_def new_queue_def Let_def split: option.split)
  moreover have "sn_parseAddr (addrScheme @ name) = Inr name"
    using n(1) by (simp add: sn_parseAddr_def HasPrefix_def TrimPrefix_def)
  ultimately show ?thesis by (simp add: sn_New_def)
qed

end
