(* ===== verification/Tail_Reader.thy ===== *)
theory Tail_Reader
  imports Go_Text File_System
begin

text \<open>
  The tail reader, \<^verbatim>\<open>pkg/tail/tail.go\<close>: the loop over file-system notifications, the reading of the available lines,
  the detection of a truncated file and the wait for the file at the start. The open file is an inode with a position;
  \<^verbatim>\<open>bufio.Reader\<close> keeps nothing between two events, because every read goes on to the end of the file.

  The notifications, the state of the file system when one is handled and the errors of the system calls are inputs;
  whether the line channel has room for the \<open>n\<close>-th line that is offered is the argument \<open>room\<close>. The time limit around a
  read (\<^verbatim>\<open>readLineWithTimeout\<close>) is for pipes and network mounts and does not occur here: a read of a regular file
  returns.

  The theorem about \<open>follow\<close> shows that a writer and a rotation by rename lose no line, for every interleaving in which
  the writer writes whole lines.
\<close>

section \<open>State\<close>

definition maxLineSize :: nat where "maxLineSize = 65536"

text \<open>
  \<open>t_offers\<close> are the lines offered to the channel, with whether there was room; \<open>t_watch\<close> says whether the watcher has
  the file itself on its list.
\<close>

record TailReader =
  t_filePath :: string
  t_f :: "(nat \<times> nat) option"
  t_offers :: "(string \<times> bool) list"
  t_watch :: bool
  t_closed :: bool
  t_log :: "string list"

definition NewTailReader :: "string \<Rightarrow> TailReader" where
  "NewTailReader path =
     \<lparr> t_filePath = path, t_f = None, t_offers = [], t_watch = False, t_closed = False, t_log = [] \<rparr>"

definition tail_log :: "string \<Rightarrow> TailReader \<Rightarrow> TailReader" where
  "tail_log level t = t\<lparr>t_log := t_log t @ [level]\<rparr>"

section \<open>Reading\<close>

abbreviation eol :: char where "eol \<equiv> CHR 0x0A"

definition crlf :: string where "crlf = [CHR 0x0D, eol]"

text \<open>What happens to one line that \<^verbatim>\<open>ReadString\<close> returned.\<close>

definition deliver_line :: "(nat \<Rightarrow> bool) \<Rightarrow> string \<Rightarrow> TailReader \<Rightarrow> TailReader" where
  "deliver_line room line t =
     (if line = [] then t
      else if maxLineSize < length line then tail_log ''warning'' t
      else let l = TrimRight line crlf
           in if l = [] then t
              else let r = room (length (t_offers t)); t1 = t\<lparr>t_offers := t_offers t @ [(l, r)]\<rparr>
                   in if r then t1 else tail_log ''warning'' t1)"

text \<open>\<^verbatim>\<open>ReadString('\n')\<close>: up to and including the next line end, or all that is left together with \<^verbatim>\<open>io.EOF\<close>.\<close>

definition ReadString :: "string \<Rightarrow> string \<times> string \<times> bool" where
  "ReadString s =
     (if eol \<in> set s
      then (takeWhile (\<lambda>c. c \<noteq> eol) s @ [eol], tl (dropWhile (\<lambda>c. c \<noteq> eol) s), False)
      else (s, [], True))"

lemma ReadString_shorter: "ReadString s = (line, rest, False) \<Longrightarrow> length rest < length s"
proof -
  assume "ReadString s = (line, rest, False)"
  then have "dropWhile (\<lambda>c. c \<noteq> eol) s \<noteq> []" "rest = tl (dropWhile (\<lambda>c. c \<noteq> eol) s)"
    by (auto simp: ReadString_def split: if_splits)
  then show ?thesis
    using length_dropWhile_le [of "\<lambda>c. c \<noteq> eol" s] by (cases "dropWhile (\<lambda>c. c \<noteq> eol) s") auto
qed

function readAvailableLines :: "(nat \<Rightarrow> bool) \<Rightarrow> string \<Rightarrow> TailReader \<Rightarrow> TailReader" where
  "readAvailableLines room avail t =
     (case ReadString avail of
        (line, rest, eof) \<Rightarrow>
          if eof then deliver_line room line t
          else readAvailableLines room rest (deliver_line room line t))"
  by pat_completeness auto
termination by (relation "measure (\<lambda>(room, s, t). length s)") (auto dest: ReadString_shorter [OF sym])

declare readAvailableLines.simps [simp del]

text \<open>The reader on the open file: everything from its position to the end.\<close>

definition read_file :: "(nat \<Rightarrow> bool) \<Rightarrow> fsys \<Rightarrow> TailReader \<Rightarrow> TailReader" where
  "read_file room fs t =
     (case t_f t of
        None \<Rightarrow> t
      | Some (i, pos) \<Rightarrow>
          readAvailableLines room (drop pos (inodes fs ! i)) (t\<lparr>t_f := Some (i, max pos (length (inodes fs ! i)))\<rparr>))"

section \<open>Events\<close>

record fsevent =
  ev_Name :: string
  ev_Write :: bool
  ev_Rename :: bool
  ev_Remove :: bool
  ev_Create :: bool

text \<open>\<open>te_Clean\<close> is \<^verbatim>\<open>filepath.Clean\<close>; the others say which system calls fail.\<close>

record tail_env =
  te_Clean :: "string \<Rightarrow> string"
  te_seekErr :: bool
  te_statErr :: bool
  te_openErr :: bool

definition isTargetFile :: "tail_env \<Rightarrow> TailReader \<Rightarrow> fsevent \<Rightarrow> bool" where
  "isTargetFile E t ev = (te_Clean E (ev_Name ev) = te_Clean E (t_filePath t))"

definition handleTruncation :: "tail_env \<Rightarrow> fsys \<Rightarrow> TailReader \<Rightarrow> TailReader \<times> bool" where
  "handleTruncation E fs t =
     (case t_f t of
        None \<Rightarrow> (t, False)
      | Some (i, pos) \<Rightarrow>
          if te_seekErr E \<or> te_statErr E then (t, False)
          else if length (inodes fs ! i) < pos then (t\<lparr>t_f := Some (i, 0)\<rparr>, True)
          else (t, False))"

definition tail_event :: "(nat \<Rightarrow> bool) \<Rightarrow> tail_env \<Rightarrow> fsys \<Rightarrow> fsevent \<Rightarrow> TailReader \<Rightarrow> TailReader" where
  "tail_event room E fs ev t0 =
     (let t = tail_log ''debug'' t0
      in if isTargetFile E t ev \<and> ev_Write ev then
           (if t_f t = None then t
            else case handleTruncation E fs t of
                   (t1, shrunk) \<Rightarrow> read_file room fs (if shrunk then tail_log ''info'' t1 else t1))
         else if isTargetFile E t ev \<and> (ev_Rename ev \<or> ev_Remove ev) then
           (let t1 = (if t_f t = None then t else (read_file room fs t)\<lparr>t_f := None\<rparr>)
            in tail_log ''info'' (t1\<lparr>t_watch := False\<rparr>))
         else if isTargetFile E t ev \<and> ev_Create ev then
           (let t1 = t\<lparr>t_f := None\<rparr>
            in case names fs (t_filePath t) of
                 None \<Rightarrow> tail_log ''error'' t1
               | Some i \<Rightarrow>
                   if te_openErr E then tail_log ''error'' t1
                   else read_file room fs (tail_log ''info'' (t1\<lparr>t_f := Some (i, 0), t_watch := True\<rparr>)))
         else t)"

text \<open>
  The wait for the file: at each tick of the timer the file is opened and positioned at its end, and the next tick is
  awaited when that fails. \<open>None\<close> in the list is the end of the context; the end of the list is a reader that waits.
\<close>

datatype open_attempt = OpenFails | SeekFails | OpenedAt nat nat

fun waitForFile :: "open_attempt option list \<Rightarrow> TailReader \<Rightarrow> TailReader \<times> bool" where
  "waitForFile [] t = (t, True)"
| "waitForFile (None # as) t = (t, False)"
| "waitForFile (Some OpenFails # as) t = waitForFile as (tail_log ''warning'' t)"
| "waitForFile (Some SeekFails # as) t = waitForFile as (tail_log ''error'' t)"
| "waitForFile (Some (OpenedAt i n) # as) t = (t\<lparr>t_f := Some (i, n)\<rparr>, True)"

datatype tail_input =
    CtxDone
  | FsEvent fsevent tail_env fsys
  | EventsClosed
  | WatchError
  | ErrorsClosed

text \<open>The select loop; on every way out the file and the line channel are closed.\<close>

definition tail_stop :: "TailReader \<Rightarrow> TailReader" where
  "tail_stop t = t\<lparr>t_f := None, t_closed := True\<rparr>"

fun tail_loop :: "(nat \<Rightarrow> bool) \<Rightarrow> tail_input list \<Rightarrow> TailReader \<Rightarrow> TailReader" where
  "tail_loop room [] t = t"
| "tail_loop room (CtxDone # xs) t = tail_stop (tail_log ''info'' t)"
| "tail_loop room (FsEvent ev E fs # xs) t = tail_loop room xs (tail_event room E fs ev t)"
| "tail_loop room (EventsClosed # xs) t = tail_stop t"
| "tail_loop room (WatchError # xs) t = tail_loop room xs (tail_log ''error'' t)"
| "tail_loop room (ErrorsClosed # xs) t = tail_stop t"

text \<open>\<open>watcherErr\<close>, \<open>dirErr\<close> and \<open>fileErr\<close>: creating the watcher, watching the directory, watching the file.\<close>

definition tail_Run ::
  "(nat \<Rightarrow> bool) \<Rightarrow> bool \<Rightarrow> bool \<Rightarrow> bool \<Rightarrow> open_attempt option list \<Rightarrow> tail_input list \<Rightarrow> TailReader \<Rightarrow> TailReader" where
  "tail_Run room watcherErr dirErr fileErr attempts inputs t =
     (if watcherErr \<or> dirErr then tail_stop (tail_log ''error'' t)
      else case waitForFile attempts t of
             (t1, False) \<Rightarrow> tail_stop t1
           | (t1, True) \<Rightarrow>
               if t_f t1 = None then t1
               else let t2 = (if fileErr then tail_log ''error'' t1 else t1\<lparr>t_watch := True\<rparr>)
                    in tail_loop room inputs (tail_log ''info'' t2))"

section \<open>Lemmas\<close>

subsection \<open>The lines of a text\<close>

text \<open>What one read line offers, and what a text offers, without the reader's state.\<close>

definition line_text :: "string \<Rightarrow> string list" where
  "line_text line =
     (if line = [] \<or> maxLineSize < length line \<or> TrimRight line crlf = [] then [] else [TrimRight line crlf])"

function lines_in :: "string \<Rightarrow> string list" where
  "lines_in s =
     (case ReadString s of
        (line, rest, eof) \<Rightarrow> if eof then line_text line else line_text line @ lines_in rest)"
  by pat_completeness auto
termination by (relation "measure length") (auto dest: ReadString_shorter [OF sym])

declare lines_in.simps [simp del]

lemma deliver_line_offers: "map fst (t_offers (deliver_line room line t)) = map fst (t_offers t) @ line_text line"
  by (simp add: deliver_line_def line_text_def Let_def tail_log_def)

lemma deliver_line_keeps [simp]:
  "t_f (deliver_line room line t) = t_f t" "t_filePath (deliver_line room line t) = t_filePath t"
  by (simp_all add: deliver_line_def Let_def tail_log_def)

lemma readAvailableLines_offers:
  "map fst (t_offers (readAvailableLines room s t)) = map fst (t_offers t) @ lines_in s"
proof (induction room s t rule: readAvailableLines.induct)
  case (1 room s t)
  obtain line rest eof where r: "ReadString s = (line, rest, eof)" by (cases "ReadString s")
  show ?case
    using "1.IH" [OF r [symmetric] refl]
    by (subst readAvailableLines.simps, subst lines_in.simps) (simp add: r deliver_line_offers)
qed

lemma readAvailableLines_keeps [simp]:
  "t_f (readAvailableLines room s t) = t_f t \<and> t_filePath (readAvailableLines room s t) = t_filePath t"
proof (induction room s t rule: readAvailableLines.induct)
  case (1 room s t)
  obtain line rest eof where r: "ReadString s = (line, rest, eof)" by (cases "ReadString s")
  show ?case
    using "1.IH" [OF r [symmetric] refl] by (subst (1 2) readAvailableLines.simps) (simp add: r)
qed

text \<open>A text of whole lines: empty or ending in a line end. Its lines do not depend on what follows.\<close>

definition whole :: "string \<Rightarrow> bool" where
  "whole s = (s = [] \<or> last s = eol)"

lemma whole_append [simp]: "whole a \<Longrightarrow> whole b \<Longrightarrow> whole (a @ b)"
  by (cases "b = []") (auto simp: whole_def last_append)

lemma whole_Nil [simp]: "whole []"
  by (simp add: whole_def)

lemma lines_in_Nil [simp]: "lines_in [] = []"
  by (subst lines_in.simps) (simp add: ReadString_def line_text_def)

lemma ReadString_line: "eol \<notin> set l \<Longrightarrow> ReadString (l @ eol # s) = (l @ [eol], s, False)"
  by (simp add: ReadString_def takeWhile_until dropWhile_until)

lemma lines_in_append: "whole a \<Longrightarrow> lines_in (a @ b) = lines_in a @ lines_in b"
proof (induction a rule: length_induct)
  case (1 a)
  show ?case
  proof (cases "a = []")
    case False
    then have "eol \<in> set a" using "1.prems" by (metis last_in_set whole_def)
    then obtain l r where a: "a = l @ eol # r" "eol \<notin> set l" using split_list_first by fastforce
    have "whole r" using "1.prems" a(1) by (cases "r = []") (auto simp: whole_def)
    then have ih: "lines_in (r @ b) = lines_in r @ lines_in b" using "1.IH" a(1) by simp
    have "lines_in (l @ eol # s) = line_text (l @ [eol]) @ lines_in s" for s
      by (subst lines_in.simps) (simp add: ReadString_line [OF a(2)])
    then show ?thesis using ih by (simp add: a(1))
  qed simp
qed

lemma read_file_effect:
  assumes "t_f t = Some (i, pos)" "pos \<le> length (inodes fs ! i)"
  shows "t_f (read_file room fs t) = Some (i, length (inodes fs ! i)) \<and>
         t_filePath (read_file room fs t) = t_filePath t \<and>
         map fst (t_offers (read_file room fs t)) = map fst (t_offers t) @ lines_in (drop pos (inodes fs ! i))"
  using assms by (simp add: read_file_def readAvailableLines_offers max_absorb2)

subsection \<open>Following a writer through rotations\<close>

text \<open>
  A writer, the log rotation and the tail reader. \<open>fo_w\<close> is the inode the writer has open and \<open>fo_written\<close> all it has
  written. The writer writes whole lines; after a rename it may go on with the old file until the reader has handled the
  notification, and after that it writes to the file it creates. One rotation is handled before the next begins. The
  environment of each event is free but for the paths, and no call fails.
\<close>

record follow =
  fo_fs :: fsys
  fo_w :: nat
  fo_t :: TailReader
  fo_written :: string

definition event_for :: "tail_env \<Rightarrow> TailReader \<Rightarrow> fsevent \<Rightarrow> bool" where
  "event_for E t ev = (isTargetFile E t ev \<and> \<not> te_openErr E)"

inductive follow_step :: "(nat \<Rightarrow> bool) \<Rightarrow> string \<Rightarrow> follow \<Rightarrow> follow \<Rightarrow> bool" for room path where
  appends: "whole c \<Longrightarrow> (\<exists>pos. t_f (fo_t s) = Some (fo_w s, pos)) \<or> names (fo_fs s) path = Some (fo_w s) \<Longrightarrow>
    follow_step room path s
      (s\<lparr>fo_fs := append_to (fo_w s) c (fo_fs s), fo_written := fo_written s @ c\<rparr>)"
| on_write: "event_for E (fo_t s) ev \<Longrightarrow> ev_Write ev \<Longrightarrow>
    follow_step room path s (s\<lparr>fo_t := tail_event room E (fo_fs s) ev (fo_t s)\<rparr>)"
| renames: "names (fo_fs s) path = Some (fo_w s) \<Longrightarrow> t_f (fo_t s) = Some (fo_w s, pos) \<Longrightarrow> b \<noteq> path \<Longrightarrow>
    follow_step room path s (s\<lparr>fo_fs := rename_file path b (fo_fs s)\<rparr>)"
| on_rename: "event_for E (fo_t s) ev \<Longrightarrow> \<not> ev_Write ev \<Longrightarrow> ev_Rename ev \<or> ev_Remove ev \<Longrightarrow>
    t_f (fo_t s) = Some (i, pos) \<Longrightarrow> names (fo_fs s) path \<noteq> Some i \<Longrightarrow>
    follow_step room path s (s\<lparr>fo_t := tail_event room E (fo_fs s) ev (fo_t s)\<rparr>)"
| creates: "names (fo_fs s) path = None \<Longrightarrow>
    follow_step room path s (s\<lparr>fo_fs := create_file path (fo_fs s), fo_w := length (inodes (fo_fs s))\<rparr>)"
| on_create: "event_for E (fo_t s) ev \<Longrightarrow> \<not> ev_Write ev \<Longrightarrow> \<not> ev_Rename ev \<Longrightarrow> \<not> ev_Remove ev \<Longrightarrow> ev_Create ev \<Longrightarrow>
    t_f (fo_t s) = None \<Longrightarrow> names (fo_fs s) path = Some (fo_w s) \<Longrightarrow>
    follow_step room path s (s\<lparr>fo_t := tail_event room E (fo_fs s) ev (fo_t s)\<rparr>)"

definition follow_init :: "string \<Rightarrow> fsys \<Rightarrow> nat \<Rightarrow> follow" where
  "follow_init path fs w =
     \<lparr> fo_fs = fs, fo_w = w, fo_t = (NewTailReader path)\<lparr>t_f := Some (w, length (inodes fs ! w))\<rparr>, fo_written = [] \<rparr>"

text \<open>The bytes written that no event has made the reader read yet.\<close>

definition unread :: "string \<Rightarrow> follow \<Rightarrow> string" where
  "unread path s =
     (case t_f (fo_t s) of
        Some (i, pos) \<Rightarrow>
          drop pos (inodes (fo_fs s) ! i) @ (if i = fo_w s then [] else inodes (fo_fs s) ! fo_w s)
      | None \<Rightarrow> if names (fo_fs s) path = Some (fo_w s) then inodes (fo_fs s) ! fo_w s else [])"

definition follow_ok :: "string \<Rightarrow> follow \<Rightarrow> bool" where
  "follow_ok path s =
     (t_filePath (fo_t s) = path \<and> fo_w s < length (inodes (fo_fs s)) \<and>
      (names (fo_fs s) path = None \<or> names (fo_fs s) path = Some (fo_w s)) \<and>
      (\<forall>i pos. t_f (fo_t s) = Some (i, pos) \<longrightarrow>
         i < length (inodes (fo_fs s)) \<and> pos \<le> length (inodes (fo_fs s) ! i) \<and> whole (drop pos (inodes (fo_fs s) ! i)) \<and>
         (i \<noteq> fo_w s \<longrightarrow> names (fo_fs s) path = Some (fo_w s) \<and> whole (inodes (fo_fs s) ! fo_w s))) \<and>
      (t_f (fo_t s) = None \<and> names (fo_fs s) path = Some (fo_w s) \<longrightarrow> whole (inodes (fo_fs s) ! fo_w s)) \<and>
      (\<exists>d. whole d \<and> fo_written s = d @ unread path s \<and> map fst (t_offers (fo_t s)) = lines_in d))"

lemma tail_log_keeps [simp]:
  "t_f (tail_log l t) = t_f t" "t_offers (tail_log l t) = t_offers t" "t_filePath (tail_log l t) = t_filePath t"
  by (simp_all add: tail_log_def)

lemma isTargetFile_log [simp]: "isTargetFile E (tail_log l t) ev = isTargetFile E t ev"
  by (simp add: isTargetFile_def)

text \<open>The three events on a reader that is where it should be.\<close>

lemma tail_event_write:
  assumes "isTargetFile E t ev" "ev_Write ev" "t_f t = Some (i, pos)" "pos \<le> length (inodes fs ! i)"
  shows "t_f (tail_event room E fs ev t) = Some (i, length (inodes fs ! i)) \<and>
         t_filePath (tail_event room E fs ev t) = t_filePath t \<and>
         map fst (t_offers (tail_event room E fs ev t)) = map fst (t_offers t) @ lines_in (drop pos (inodes fs ! i))"
  using assms read_file_effect [of "tail_log ''debug'' t" i pos fs room]
  by (simp add: tail_event_def Let_def handleTruncation_def)

lemma tail_event_write_closed:
  assumes "isTargetFile E t ev" "ev_Write ev" "t_f t = None"
  shows "tail_event room E fs ev t = tail_log ''debug'' t"
  using assms by (simp add: tail_event_def Let_def)

lemma tail_event_rename:
  assumes "isTargetFile E t ev" "\<not> ev_Write ev" "ev_Rename ev \<or> ev_Remove ev" "t_f t = Some (i, pos)" "pos \<le> length (inodes fs ! i)"
  shows "t_f (tail_event room E fs ev t) = None \<and>
         t_filePath (tail_event room E fs ev t) = t_filePath t \<and>
         map fst (t_offers (tail_event room E fs ev t)) = map fst (t_offers t) @ lines_in (drop pos (inodes fs ! i))"
  using assms read_file_effect [of "tail_log ''debug'' t" i pos fs room]
  by (simp add: tail_event_def Let_def)

lemma tail_event_create:
  assumes "isTargetFile E t ev" "\<not> te_openErr E" "\<not> ev_Write ev" "\<not> ev_Rename ev" "\<not> ev_Remove ev" "ev_Create ev"
    and "names fs (t_filePath t) = Some i"
  shows "t_f (tail_event room E fs ev t) = Some (i, length (inodes fs ! i)) \<and>
         t_filePath (tail_event room E fs ev t) = t_filePath t \<and>
         map fst (t_offers (tail_event room E fs ev t)) = map fst (t_offers t) @ lines_in (inodes fs ! i)"
  using assms
    read_file_effect [of "tail_log ''info'' ((tail_log ''debug'' t)\<lparr>t_f := Some (i, 0), t_watch := True\<rparr>)" i 0 fs room]
  by (simp add: tail_event_def Let_def)

lemma follow_read:
  assumes "follow_ok path s" "whole piece" "unread path s = piece @ unread path (s\<lparr>fo_t := t\<rparr>)"
    and "map fst (t_offers t) = map fst (t_offers (fo_t s)) @ lines_in piece"
  shows "\<exists>d. whole d \<and> fo_written s = d @ unread path (s\<lparr>fo_t := t\<rparr>) \<and> map fst (t_offers t) = lines_in d"
proof -
  from assms(1) obtain d where "whole d" "fo_written s = d @ unread path s" "map fst (t_offers (fo_t s)) = lines_in d"
    by (auto simp: follow_ok_def)
  then show ?thesis using assms lines_in_append [of d piece] by (intro exI [of _ "d @ piece"]) simp
qed

lemma follow_ok_append:
  assumes "follow_ok path s" "whole c" "(\<exists>pos. t_f (fo_t s) = Some (fo_w s, pos)) \<or> names (fo_fs s) path = Some (fo_w s)"
  shows "follow_ok path (s\<lparr>fo_fs := append_to (fo_w s) c (fo_fs s), fo_written := fo_written s @ c\<rparr>)" (is "follow_ok path ?s")
proof -
  have w: "fo_w s < length (inodes (fo_fs s))" using assms(1) by (simp add: follow_ok_def)
  have c: "inodes (append_to (fo_w s) c (fo_fs s)) ! i = inodes (fo_fs s) ! i @ (if i = fo_w s then c else [])" for i
    using w by simp
  have u: "unread path ?s = unread path s @ c"
    using assms(1,3) w by (auto simp: unread_def c follow_ok_def split: option.split)
  show ?thesis using assms u w by (auto simp: follow_ok_def c)
qed

lemma follow_ok_on_write:
  assumes ok: "follow_ok path s" and ev: "event_for E (fo_t s) ev" "ev_Write ev"
  shows "follow_ok path (s\<lparr>fo_t := tail_event room E (fo_fs s) ev (fo_t s)\<rparr>)"
proof (cases "t_f (fo_t s)")
  case None
  then have "tail_event room E (fo_fs s) ev (fo_t s) = tail_log ''debug'' (fo_t s)"
    using ev by (simp add: event_for_def tail_event_write_closed)
  then show ?thesis using ok None by (auto simp: follow_ok_def unread_def)
next
  case (Some ip)
  obtain i pos where ip: "ip = (i, pos)" by (cases ip)
  let ?t = "tail_event room E (fo_fs s) ev (fo_t s)"
  have b: "pos \<le> length (inodes (fo_fs s) ! i)" "whole (drop pos (inodes (fo_fs s) ! i))"
    using ok Some ip by (auto simp: follow_ok_def)
  have t: "t_f ?t = Some (i, length (inodes (fo_fs s) ! i))" "t_filePath ?t = t_filePath (fo_t s)"
    "map fst (t_offers ?t) = map fst (t_offers (fo_t s)) @ lines_in (drop pos (inodes (fo_fs s) ! i))"
    using tail_event_write [of E "fo_t s" ev i pos "fo_fs s" room] ev Some ip b(1) by (auto simp: event_for_def)
  have "unread path s = drop pos (inodes (fo_fs s) ! i) @ unread path (s\<lparr>fo_t := ?t\<rparr>)"
    using Some ip t(1) by (simp add: unread_def)
  from follow_read [OF ok b(2) this t(3)] ok t(1,2) Some ip show ?thesis by (auto simp: follow_ok_def)
qed

lemma follow_ok_renames:
  assumes "follow_ok path s" "names (fo_fs s) path = Some (fo_w s)" "t_f (fo_t s) = Some (fo_w s, pos)" "b \<noteq> path"
  shows "follow_ok path (s\<lparr>fo_fs := rename_file path b (fo_fs s)\<rparr>)"
  using assms by (auto simp: follow_ok_def unread_def rename_file_def)

lemma follow_ok_on_rename:
  assumes ok: "follow_ok path s" and ev: "event_for E (fo_t s) ev" "\<not> ev_Write ev" "ev_Rename ev \<or> ev_Remove ev"
    and f: "t_f (fo_t s) = Some (i, pos)" "names (fo_fs s) path \<noteq> Some i"
  shows "follow_ok path (s\<lparr>fo_t := tail_event room E (fo_fs s) ev (fo_t s)\<rparr>)"
proof -
  let ?t = "tail_event room E (fo_fs s) ev (fo_t s)"
  have b: "pos \<le> length (inodes (fo_fs s) ! i)" "whole (drop pos (inodes (fo_fs s) ! i))"
    using ok f by (auto simp: follow_ok_def)
  have t: "t_f ?t = None" "t_filePath ?t = t_filePath (fo_t s)"
    "map fst (t_offers ?t) = map fst (t_offers (fo_t s)) @ lines_in (drop pos (inodes (fo_fs s) ! i))"
    using tail_event_rename [of E "fo_t s" ev i pos "fo_fs s" room] ev f(1) b(1) by (auto simp: event_for_def)
  have "i = fo_w s \<longrightarrow> names (fo_fs s) path = None" "i \<noteq> fo_w s \<longrightarrow> names (fo_fs s) path = Some (fo_w s)"
    using ok f by (auto simp: follow_ok_def)
  then have "unread path s = drop pos (inodes (fo_fs s) ! i) @ unread path (s\<lparr>fo_t := ?t\<rparr>)"
    using f t(1) by (auto simp: unread_def)
  from follow_read [OF ok b(2) this t(3)] ok t(1,2) f show ?thesis by (auto simp: follow_ok_def)
qed

lemma create_file_inodes [simp]:
  "i < length (inodes fs) \<Longrightarrow> inodes (create_file path fs) ! i = inodes fs ! i"
  "inodes (create_file path fs) ! length (inodes fs) = []"
  "length (inodes (create_file path fs)) = length (inodes fs) + 1"
  "names (create_file path fs) path = Some (length (inodes fs))"
  by (simp_all add: create_file_def nth_append)

lemma follow_ok_creates:
  assumes ok: "follow_ok path s" and n: "names (fo_fs s) path = None"
  shows "follow_ok path (s\<lparr>fo_fs := create_file path (fo_fs s), fo_w := length (inodes (fo_fs s))\<rparr>)" (is "follow_ok path ?s")
proof -
  obtain d where d: "whole d" "fo_written s = d @ unread path s" "map fst (t_offers (fo_t s)) = lines_in d"
    using ok by (auto simp: follow_ok_def)
  have p: "t_filePath (fo_t s) = path" using ok by (simp add: follow_ok_def)
  show ?thesis
  proof (cases "t_f (fo_t s)")
    case None
    then have "unread path ?s = unread path s" using n by (simp add: unread_def)
    then show ?thesis using None d p by (auto simp: follow_ok_def)
  next
    case (Some ip)
    obtain i pos where ip: "ip = (i, pos)" by (cases ip)
    have b: "i < length (inodes (fo_fs s))" "i = fo_w s" "pos \<le> length (inodes (fo_fs s) ! i)"
      "whole (drop pos (inodes (fo_fs s) ! i))"
      using ok n Some ip by (auto simp: follow_ok_def)
    then have "unread path ?s = unread path s" using Some ip by (simp add: unread_def)
    then show ?thesis using Some ip d p b by (auto simp: follow_ok_def)
  qed
qed

lemma follow_ok_on_create:
  assumes ok: "follow_ok path s"
    and ev: "event_for E (fo_t s) ev" "\<not> ev_Write ev" "\<not> ev_Rename ev" "\<not> ev_Remove ev" "ev_Create ev"
    and f: "t_f (fo_t s) = None" "names (fo_fs s) path = Some (fo_w s)"
  shows "follow_ok path (s\<lparr>fo_t := tail_event room E (fo_fs s) ev (fo_t s)\<rparr>)"
proof -
  let ?t = "tail_event room E (fo_fs s) ev (fo_t s)"
  have p: "names (fo_fs s) (t_filePath (fo_t s)) = Some (fo_w s)" "whole (inodes (fo_fs s) ! fo_w s)"
    using ok f by (auto simp: follow_ok_def)
  have t: "t_f ?t = Some (fo_w s, length (inodes (fo_fs s) ! fo_w s))" "t_filePath ?t = t_filePath (fo_t s)"
    "map fst (t_offers ?t) = map fst (t_offers (fo_t s)) @ lines_in (inodes (fo_fs s) ! fo_w s)"
    using tail_event_create [of E "fo_t s" ev "fo_fs s" "fo_w s" room] ev p(1) by (auto simp: event_for_def)
  have "unread path s = inodes (fo_fs s) ! fo_w s @ unread path (s\<lparr>fo_t := ?t\<rparr>)"
    using f t(1) by (simp add: unread_def)
  from follow_read [OF ok p(2) this t(3)] ok t(1,2) f show ?thesis by (auto simp: follow_ok_def)
qed

lemma follow_ok_step:
  assumes "follow_step room path s s'" "follow_ok path s"
  shows "follow_ok path s'"
  using assms(1)
proof cases
  case (appends c)
  show ?thesis unfolding appends(1) by (rule follow_ok_append [OF assms(2) appends(2,3)])
next
  case (on_write E ev)
  show ?thesis unfolding on_write(1) by (rule follow_ok_on_write [OF assms(2) on_write(2,3)])
next
  case (renames pos b)
  show ?thesis unfolding renames(1) by (rule follow_ok_renames [OF assms(2) renames(2-4)])
next
  case (on_rename E ev i pos)
  show ?thesis unfolding on_rename(1) by (rule follow_ok_on_rename [OF assms(2) on_rename(2-6)])
next
  case creates
  show ?thesis unfolding creates(1) by (rule follow_ok_creates [OF assms(2) creates(2)])
next
  case (on_create E ev)
  show ?thesis unfolding on_create(1) by (rule follow_ok_on_create [OF assms(2) on_create(2-8)])
qed

lemma follow_ok_reachable:
  assumes "(follow_step room path)\<^sup>*\<^sup>* (follow_init path fs w) s" "w < length (inodes fs)" "names fs path = Some w"
  shows "follow_ok path s"
  using assms(1)
proof (induction rule: rtranclp_induct)
  case base
  then show ?case using assms(2,3) by (auto simp: follow_ok_def follow_init_def unread_def NewTailReader_def)
next
  case (step s s')
  then show ?case using follow_ok_step by blast
qed


definition tail_env0 :: tail_env where
  "tail_env0 = \<lparr> te_Clean = id, te_seekErr = False, te_statErr = False, te_openErr = False \<rparr>"

definition write_event :: "string \<Rightarrow> fsevent" where
  "write_event path = \<lparr> ev_Name = path, ev_Write = True, ev_Rename = False, ev_Remove = False, ev_Create = False \<rparr>"

lemma demo_lines: "lines_in (''a'' @ [eol]) = [''a'']"
  by (simp add: lines_in.simps ReadString_def line_text_def maxLineSize_def TrimRight_def crlf_def)


text \<open>
  A line the writer writes in two pieces, with a notification after each, becomes two lines: the reader takes what
  \<^verbatim>\<open>ReadString\<close> returns together with the end of the file for a line.
\<close>

lemma partial_line_splits:
  "map fst (t_offers (readAvailableLines (\<lambda>n. True) (''c'' @ [eol]) (readAvailableLines (\<lambda>n. True) ''ab'' (NewTailReader ''log''))))
     = [''ab'', ''c'']"
proof -
  have "lines_in ''ab'' = [''ab'']" "lines_in (''c'' @ [eol]) = [''c'']"
    by (simp_all add: lines_in.simps ReadString_def line_text_def maxLineSize_def TrimRight_def crlf_def)
  then show ?thesis by (simp add: readAvailableLines_offers NewTailReader_def)
qed

text \<open>A file cut and grown past the old position before the notification is not recognised as truncated.\<close>

lemma regrown_file_not_detected:
  "t_f t = Some (i, pos) \<Longrightarrow> pos \<le> length (inodes fs ! i) \<Longrightarrow> handleTruncation E fs t = (t, False)"
  by (simp add: handleTruncation_def)

end
