(* ===== verification/Detector_Params.thy ===== *)
theory Detector_Params
  imports Go_Text Plugin_Registry
begin

text \<open>
  The typed access to the parameters of a detector, \<^verbatim>\<open>pkg/detector/params.go\<close>: a parameter is an untyped value as the
  YAML decoder leaves it, and each helper converts the types it knows and returns the default for the rest. \<^verbatim>\<open>int\<close> is 64
  bits. The conversion of a double to an integer truncates; outside of the range of \<^verbatim>\<open>int64\<close> the language leaves the
  result to the implementation, which is the parameter \<open>lib_f2i\<close>.
\<close>

section \<open>The helpers\<close>

definition GetInt :: "golib \<Rightarrow> any DetectorConfig \<Rightarrow> string \<Rightarrow> i64 \<Rightarrow> i64" where
  "GetInt L cfg key defaultVal =
     (case map_get (dc_Params cfg) key of
        Some (AInt v) \<Rightarrow> v
      | Some (AInt64 v) \<Rightarrow> v
      | Some (AFloat v) \<Rightarrow> float_to_int64 L v
      | _ \<Rightarrow> defaultVal)"

definition GetFloat64 :: "any DetectorConfig \<Rightarrow> string \<Rightarrow> f64 \<Rightarrow> f64" where
  "GetFloat64 cfg key defaultVal =
     (case map_get (dc_Params cfg) key of
        Some (AFloat v) \<Rightarrow> v
      | Some (AInt v) \<Rightarrow> f_of_int (sint v)
      | Some (AInt64 v) \<Rightarrow> f_of_int (sint v)
      | _ \<Rightarrow> defaultVal)"

definition GetBool :: "any DetectorConfig \<Rightarrow> string \<Rightarrow> bool \<Rightarrow> bool" where
  "GetBool cfg key defaultVal =
     (case map_get (dc_Params cfg) key of Some (ABool b) \<Rightarrow> b | _ \<Rightarrow> defaultVal)"

definition GetDuration :: "golib \<Rightarrow> any DetectorConfig \<Rightarrow> string \<Rightarrow> i64 \<Rightarrow> i64" where
  "GetDuration L cfg key defaultVal =
     (case map_get (dc_Params cfg) key of
        Some (AString s) \<Rightarrow> (case lib_parse_duration L s of None \<Rightarrow> defaultVal | Some dur \<Rightarrow> dur)
      | Some (AInt v) \<Rightarrow> v
      | Some (AInt64 v) \<Rightarrow> v
      | Some (AFloat v) \<Rightarrow> float_to_int64 L v
      | _ \<Rightarrow> defaultVal)"

fun any_strings :: "any list \<Rightarrow> string list" where
  "any_strings [] = []"
| "any_strings (AString s # xs) = s # any_strings xs"
| "any_strings (_ # xs) = any_strings xs"

definition GetStrings :: "any DetectorConfig \<Rightarrow> string \<Rightarrow> string list \<Rightarrow> string list" where
  "GetStrings cfg key defaultVal =
     (case map_get (dc_Params cfg) key of
        Some (AStrings ss) \<Rightarrow> ss
      | Some (AList xs) \<Rightarrow> any_strings xs
      | _ \<Rightarrow> defaultVal)"

section \<open>Lemmas\<close>

lemma any_strings_map [simp]: "any_strings (map AString ss) = ss"
  by (induction ss) simp_all

text \<open>A sequence of strings reads the same whether the decoder left it typed or untyped.\<close>

lemma GetStrings_uniform:
  "map_get (dc_Params cfg) key = Some (AStrings ss) \<or> map_get (dc_Params cfg) key = Some (AList (map AString ss)) \<Longrightarrow>
   GetStrings cfg key d = ss"
  by (auto simp: GetStrings_def)

text \<open>A missing parameter or one of a foreign type gives the default, in every helper.\<close>

lemma params_default:
  assumes "map_get (dc_Params cfg) key = None \<or> map_get (dc_Params cfg) key = Some ANil \<or>
     (\<exists>m. map_get (dc_Params cfg) key = Some (AMap m))"
  shows "GetInt L cfg key i = i" "GetFloat64 cfg key x = x" "GetBool cfg key b = b" "GetDuration L cfg key d = d"
    "GetStrings cfg key ss = ss"
  using assms by (auto simp: GetInt_def GetFloat64_def GetBool_def GetDuration_def GetStrings_def)

text \<open>
  A whole number of at most 53 bits in the configuration reads the same whichever of its three numeric types the
  decoder gave it, as an integer, as a double and as a duration in nanoseconds.
\<close>

theorem numeric_params_agree:
  assumes "\<bar>sint v\<bar> < 2 ^ 53"
    and "map_get (dc_Params cfg) key = Some (AInt v) \<or> map_get (dc_Params cfg) key = Some (AInt64 v) \<or>
         map_get (dc_Params cfg) key = Some (AFloat (f_of_int (sint v)))"
  shows "GetInt L cfg key i = v \<and> GetDuration L cfg key d = v \<and> GetFloat64 cfg key x = f_of_int (sint v)"
proof -
  have "min_int64 \<le> sint v \<and> sint v \<le> max_int64"
    using sint_greater_eq [of v] sint_less [of v] by (simp add: min_int64_def max_int64_def)
  then have "float_to_int64 L (f_of_int (sint v)) = v"
    using f_of_int_small [OF assms(1)] by (simp add: float_to_int64_def)
  then show ?thesis using assms(2) by (auto simp: GetInt_def GetDuration_def GetFloat64_def)
qed

theorem numeric_params_agree_witness:
  "GetInt golib0 \<lparr> dc_Enabled = True, dc_Params = [(''threshold'', AFloat (f_of_int 142))], dc_Exec = [] \<rparr> ''threshold'' 5 = 142"
  using numeric_params_agree [of 142 "\<lparr> dc_Enabled = True, dc_Params = [(''threshold'', AFloat (f_of_int 142))], dc_Exec = [] \<rparr>"
      "''threshold''" golib0 5 0 0]
  by (simp add: map_get_def)

end
