(* ===== verification/Exec_Plugin.thy ===== *)
theory Exec_Plugin
  imports Log_Parser Event_Sinks
begin

text \<open>
  External plugins, \<^verbatim>\<open>pkg/execplugin\<close>: the messages of the protocol and their conversions (\<^verbatim>\<open>protocol.go\<close>), the managed
  process with its request and response lines (\<^verbatim>\<open>process.go\<close>), and the detector, the sink and the executor that talk to it
  (\<^verbatim>\<open>detector.go\<close>, \<^verbatim>\<open>sink.go\<close>, \<^verbatim>\<open>executor.go\<close>). The source is in \<open>Exec_Source\<close>.

  A message is a JSON tree; its text, and the tree of a text, are the library's. The process is what it has received on
  its standard input and the lines it will write. Each call on the process runs under a mutex and is one step.
\<close>

section \<open>Messages\<close>

definition ProtoVersion :: string where "ProtoVersion = ''1''"

definition RFC3339 :: string where "RFC3339 = ''2006-01-02T15:04:05Z07:00''"

record LogEntryJSON =
  lj_RemoteAddr :: string
  lj_RemoteUser :: string
  lj_Time :: string
  lj_Method :: string
  lj_RawURI :: string
  lj_Path :: string
  lj_Query :: string
  lj_Protocol :: string
  lj_Status :: i64
  lj_BytesSent :: i64
  lj_Referer :: string
  lj_UserAgent :: string
  lj_RealIP :: string

definition LogEntryJSON0 :: LogEntryJSON where
  "LogEntryJSON0 = \<lparr> lj_RemoteAddr = [], lj_RemoteUser = [], lj_Time = [], lj_Method = [], lj_RawURI = [], lj_Path = [],
     lj_Query = [], lj_Protocol = [], lj_Status = 0, lj_BytesSent = 0, lj_Referer = [], lj_UserAgent = [], lj_RealIP = [] \<rparr>"

record IPViewJSON =
  ij_IP :: string
  ij_TotalRequests :: i64
  ij_Requests404 :: i64
  ij_RecentPaths :: "string list"
  ij_ApproxRate :: f64

record ThreatEventJSON =
  tj_Timestamp :: string
  tj_Level :: string
  tj_Stream :: string
  tj_Source :: string
  tj_SourceType :: string
  tj_IP :: string
  tj_Score :: i64
  tj_Modules :: "string list option"
  tj_Reason :: string
  tj_RawLine :: string

definition ThreatEventJSON0 :: ThreatEventJSON where
  "ThreatEventJSON0 = \<lparr> tj_Timestamp = [], tj_Level = [], tj_Stream = [], tj_Source = [], tj_SourceType = [], tj_IP = [],
     tj_Score = 0, tj_Modules = None, tj_Reason = [], tj_RawLine = [] \<rparr>"

record DetectResponse =
  dr_Score :: i64
  dr_Module :: string
  dr_Reason :: string

record WriteAck =
  wa_OK :: bool

record ExecuteResponse =
  er_OK :: bool
  er_Error :: string

record SourceEntry =
  se_Entry :: LogEntryJSON

subsection \<open>Encoding\<close>

definition jstr :: "textlib \<Rightarrow> string \<Rightarrow> json" where
  "jstr T s = JStr (tl_utf8 T s)"

definition jint :: "i64 \<Rightarrow> json" where
  "jint v = JNum (FormatInt (sint v))"

definition LogEntryJSON_tree :: "textlib \<Rightarrow> LogEntryJSON \<Rightarrow> json" where
  "LogEntryJSON_tree T j = JObj
     [(''remote_addr'', jstr T (lj_RemoteAddr j)), (''remote_user'', jstr T (lj_RemoteUser j)),
      (''time'', jstr T (lj_Time j)), (''method'', jstr T (lj_Method j)), (''raw_uri'', jstr T (lj_RawURI j)),
      (''path'', jstr T (lj_Path j)), (''query'', jstr T (lj_Query j)), (''protocol'', jstr T (lj_Protocol j)),
      (''status'', jint (lj_Status j)), (''bytes_sent'', jint (lj_BytesSent j)),
      (''referer'', jstr T (lj_Referer j)), (''user_agent'', jstr T (lj_UserAgent j)), (''real_ip'', jstr T (lj_RealIP j))]"

definition IPViewJSON_tree :: "textlib \<Rightarrow> IPViewJSON \<Rightarrow> json option" where
  "IPViewJSON_tree T j =
     (if IsNaN (ij_ApproxRate j) \<or> IsInf (ij_ApproxRate j) then None
      else Some (JObj [(''ip'', jstr T (ij_IP j)), (''total_requests'', jint (ij_TotalRequests j)),
             (''requests_404'', jint (ij_Requests404 j)), (''recent_paths'', JArr (map (jstr T) (ij_RecentPaths j))),
             (''approx_rate_1m'', JNum (tl_float_lit T (ij_ApproxRate j)))]))"

definition ThreatEventJSON_tree :: "textlib \<Rightarrow> ThreatEventJSON \<Rightarrow> json" where
  "ThreatEventJSON_tree T j = JObj
     ([(''timestamp'', jstr T (tj_Timestamp j)), (''level'', jstr T (tj_Level j)), (''stream'', jstr T (tj_Stream j)),
       (''source'', jstr T (tj_Source j)), (''source_type'', jstr T (tj_SourceType j)), (''ip'', jstr T (tj_IP j)),
       (''score'', jint (tj_Score j)),
       (''modules'', (case tj_Modules j of None \<Rightarrow> JNull | Some ms \<Rightarrow> JArr (map (jstr T) ms))),
       (''reason'', jstr T (tj_Reason j))]
      @ (if tj_RawLine j = [] then [] else [(''raw_line'', jstr T (tj_RawLine j))]))"

text \<open>A request: version, action and its parts. \<open>None\<close> is a value \<^verbatim>\<open>json.Marshal\<close> refuses.\<close>

definition request_tree :: "string \<Rightarrow> (string \<times> json) list \<Rightarrow> json" where
  "request_tree action parts = JObj ([(''v'', JStr ProtoVersion), (''action'', JStr action)] @ parts)"

definition DetectRequest :: "textlib \<Rightarrow> LogEntryJSON \<Rightarrow> IPViewJSON \<Rightarrow> json option" where
  "DetectRequest T e v =
     map_option (\<lambda>st. request_tree ''detect'' [(''entry'', LogEntryJSON_tree T e), (''state'', st)]) (IPViewJSON_tree T v)"

definition WriteRequest :: "textlib \<Rightarrow> ThreatEventJSON \<Rightarrow> json" where
  "WriteRequest T e = request_tree ''write'' [(''event'', ThreatEventJSON_tree T e)]"

definition ExecuteRequest :: "textlib \<Rightarrow> ThreatEventJSON \<Rightarrow> json" where
  "ExecuteRequest T e = request_tree ''execute'' [(''event'', ThreatEventJSON_tree T e)]"

definition StartRequest :: json where "StartRequest = request_tree ''start'' []"

definition StopRequest :: json where "StopRequest = request_tree ''stop'' []"

subsection \<open>Decoding\<close>

definition LogEntryJSON_fields :: "(string \<times> LogEntryJSON field_decoder) list" where
  "LogEntryJSON_fields =
     [(''remote_addr'', dec_string (\<lambda>s r. r\<lparr>lj_RemoteAddr := s\<rparr>)), (''remote_user'', dec_string (\<lambda>s r. r\<lparr>lj_RemoteUser := s\<rparr>)),
      (''time'', dec_string (\<lambda>s r. r\<lparr>lj_Time := s\<rparr>)), (''method'', dec_string (\<lambda>s r. r\<lparr>lj_Method := s\<rparr>)),
      (''raw_uri'', dec_string (\<lambda>s r. r\<lparr>lj_RawURI := s\<rparr>)), (''path'', dec_string (\<lambda>s r. r\<lparr>lj_Path := s\<rparr>)),
      (''query'', dec_string (\<lambda>s r. r\<lparr>lj_Query := s\<rparr>)), (''protocol'', dec_string (\<lambda>s r. r\<lparr>lj_Protocol := s\<rparr>)),
      (''status'', dec_int (\<lambda>v r. r\<lparr>lj_Status := v\<rparr>)), (''bytes_sent'', dec_int (\<lambda>v r. r\<lparr>lj_BytesSent := v\<rparr>)),
      (''referer'', dec_string (\<lambda>s r. r\<lparr>lj_Referer := s\<rparr>)), (''user_agent'', dec_string (\<lambda>s r. r\<lparr>lj_UserAgent := s\<rparr>)),
      (''real_ip'', dec_string (\<lambda>s r. r\<lparr>lj_RealIP := s\<rparr>))]"

definition ThreatEventJSON_fields :: "(string \<times> ThreatEventJSON field_decoder) list" where
  "ThreatEventJSON_fields =
     [(''timestamp'', dec_string (\<lambda>s r. r\<lparr>tj_Timestamp := s\<rparr>)), (''level'', dec_string (\<lambda>s r. r\<lparr>tj_Level := s\<rparr>)),
      (''stream'', dec_string (\<lambda>s r. r\<lparr>tj_Stream := s\<rparr>)), (''source'', dec_string (\<lambda>s r. r\<lparr>tj_Source := s\<rparr>)),
      (''source_type'', dec_string (\<lambda>s r. r\<lparr>tj_SourceType := s\<rparr>)), (''ip'', dec_string (\<lambda>s r. r\<lparr>tj_IP := s\<rparr>)),
      (''score'', dec_int (\<lambda>v r. r\<lparr>tj_Score := v\<rparr>)), (''modules'', dec_strings (\<lambda>ms r. r\<lparr>tj_Modules := ms\<rparr>)),
      (''reason'', dec_string (\<lambda>s r. r\<lparr>tj_Reason := s\<rparr>)), (''raw_line'', dec_string (\<lambda>s r. r\<lparr>tj_RawLine := s\<rparr>))]"

definition ParseDetectResponse :: "textlib \<Rightarrow> string \<Rightarrow> DetectResponse \<times> bool" where
  "ParseDetectResponse T line =
     unmarshal_struct T
       [(''score'', dec_int (\<lambda>v r. r\<lparr>dr_Score := v\<rparr>)), (''module'', dec_string (\<lambda>s r. r\<lparr>dr_Module := s\<rparr>)),
        (''reason'', dec_string (\<lambda>s r. r\<lparr>dr_Reason := s\<rparr>))]
       line \<lparr> dr_Score = 0, dr_Module = [], dr_Reason = [] \<rparr>"

definition ParseWriteAck :: "textlib \<Rightarrow> string \<Rightarrow> WriteAck \<times> bool" where
  "ParseWriteAck T line = unmarshal_struct T [(''ok'', dec_bool (\<lambda>b r. r\<lparr>wa_OK := b\<rparr>))] line \<lparr> wa_OK = False \<rparr>"

definition ParseSourceEntry :: "textlib \<Rightarrow> string \<Rightarrow> SourceEntry \<times> bool" where
  "ParseSourceEntry T line =
     unmarshal_struct T
       [(''entry'', \<lambda>j r. case decode_struct T LogEntryJSON_fields j (se_Entry r) of (x, e) \<Rightarrow> (r\<lparr>se_Entry := x\<rparr>, e))]
       line \<lparr> se_Entry = LogEntryJSON0 \<rparr>"

definition ParseExecuteResponse :: "textlib \<Rightarrow> string \<Rightarrow> ExecuteResponse \<times> bool" where
  "ParseExecuteResponse T line =
     unmarshal_struct T
       [(''ok'', dec_bool (\<lambda>b r. r\<lparr>er_OK := b\<rparr>)), (''error'', dec_string (\<lambda>s r. r\<lparr>er_Error := s\<rparr>))]
       line \<lparr> er_OK = False, er_Error = [] \<rparr>"

subsection \<open>Conversions\<close>

definition logEntryToJSON :: "golib \<Rightarrow> LogEntry \<Rightarrow> LogEntryJSON" where
  "logEntryToJSON L e = \<lparr> lj_RemoteAddr = le_RemoteAddr e, lj_RemoteUser = le_RemoteUser e,
     lj_Time = lib_format_time L RFC3339 (le_Time e), lj_Method = le_Method e, lj_RawURI = le_RawURI e,
     lj_Path = le_Path e, lj_Query = le_Query e, lj_Protocol = le_Protocol e, lj_Status = le_Status e,
     lj_BytesSent = le_BytesSent e, lj_Referer = le_Referer e, lj_UserAgent = le_UserAgent e, lj_RealIP = le_RealIP e \<rparr>"

definition logEntryFromJSON :: "golib \<Rightarrow> LogEntryJSON \<Rightarrow> LogEntry" where
  "logEntryFromJSON L j = \<lparr> le_RemoteAddr = lj_RemoteAddr j, le_RemoteUser = lj_RemoteUser j,
     le_Time = parse_time_or_zero L RFC3339 (lj_Time j), le_Method = lj_Method j, le_RawURI = lj_RawURI j,
     le_Path = lj_Path j, le_Query = lj_Query j, le_Protocol = lj_Protocol j, le_Status = lj_Status j,
     le_BytesSent = lj_BytesSent j, le_Referer = lj_Referer j, le_UserAgent = lj_UserAgent j, le_RealIP = lj_RealIP j,
     le_ChainIssue = [] \<rparr>"

datatype threat_error = ThreatNilEvent | ThreatNilPayload | ThreatMarshal | ThreatUnmarshal

text \<open>
  The payload belongs to the product: \<open>marshal\<close> is its JSON tree, \<open>None\<close> when \<^verbatim>\<open>json.Marshal\<close> fails; a nil payload is
  the payload \<open>None\<close>.
\<close>

definition threatEventToJSON ::
  "textlib \<Rightarrow> ('p \<Rightarrow> json option) \<Rightarrow> 'p option Event option \<Rightarrow> threat_error + ThreatEventJSON" where
  "threatEventToJSON T marshal ev =
     (case ev of
        None \<Rightarrow> Inl ThreatNilEvent
      | Some e \<Rightarrow>
          (case Payload e of
             None \<Rightarrow> Inl ThreatNilPayload
           | Some p \<Rightarrow>
               (case marshal p of
                  None \<Rightarrow> Inl ThreatMarshal
                | Some body \<Rightarrow>
                    (case decode_struct T ThreatEventJSON_fields body ThreatEventJSON0 of
                       (x, err) \<Rightarrow> if err then Inl ThreatUnmarshal else Inr x))))"

record IPView =
  iv_IP :: string
  iv_TotalRequests :: i64
  iv_Requests404 :: i64
  iv_RecentPaths :: "string list option"
  iv_ApproxRate :: "i64 \<Rightarrow> f64"

definition time_Minute :: i64 where "time_Minute = 60000000000"

definition ipViewToJSON :: "IPView \<Rightarrow> IPViewJSON" where
  "ipViewToJSON sv = \<lparr> ij_IP = iv_IP sv, ij_TotalRequests = iv_TotalRequests sv, ij_Requests404 = iv_Requests404 sv,
     ij_RecentPaths = (case iv_RecentPaths sv of None \<Rightarrow> [] | Some ps \<Rightarrow> ps),
     ij_ApproxRate = iv_ApproxRate sv time_Minute \<rparr>"

section \<open>The managed process\<close>

datatype proc_phase = Running | Exited

text \<open>
  \<open>pr_stdin\<close> are the lines it has received, \<open>pr_stdout\<close> the lines it will still write, after which its output ends,
  with an error of the scanner or not; \<open>pr_broken\<close> says that its input is closed.
\<close>

record ManagedProcess =
  pr_stdin :: "string list"
  pr_stdout :: "string list"
  pr_scanErr :: bool
  pr_broken :: bool
  pr_readTimeout :: i64
  pr_phase :: proc_phase

datatype recv_error = RecvScanner | RecvEOF | RecvTimeout

definition SetReadTimeout :: "i64 \<Rightarrow> ManagedProcess \<Rightarrow> ManagedProcess" where
  "SetReadTimeout d p = p\<lparr>pr_readTimeout := d\<rparr>"

definition Send :: "string \<Rightarrow> ManagedProcess \<Rightarrow> bool \<times> ManagedProcess" where
  "Send line p = (if pr_broken p then (False, p) else (True, p\<lparr>pr_stdin := pr_stdin p @ [line]\<rparr>))"

definition recvRaw :: "ManagedProcess \<Rightarrow> (recv_error + string) \<times> ManagedProcess" where
  "recvRaw p =
     (case pr_stdout p of
        [] \<Rightarrow> (Inl (if pr_scanErr p then RecvScanner else RecvEOF), p)
      | l # ls \<Rightarrow> (Inr l, p\<lparr>pr_stdout := ls\<rparr>))"

text \<open>\<open>late\<close>: the answer does not come within the limit, and the abandoned goroutine will swallow the next line.\<close>

definition Recv :: "bool \<Rightarrow> ManagedProcess \<Rightarrow> (recv_error + string) \<times> ManagedProcess" where
  "Recv late p =
     (if 0 < sint (pr_readTimeout p) \<and> late then (Inl RecvTimeout, p\<lparr>pr_stdout := tl (pr_stdout p)\<rparr>) else recvRaw p)"

datatype close_result = CloseNil | CloseWait bool | CloseKilled

text \<open>\<open>inTime\<close>: the process ends within three seconds of the signal; \<open>waitErr\<close>: \<^verbatim>\<open>Wait\<close> reports a failure.\<close>

definition Close :: "bool \<Rightarrow> bool \<Rightarrow> ManagedProcess \<Rightarrow> close_result \<times> ManagedProcess" where
  "Close inTime waitErr p0 =
     (let p = p0\<lparr>pr_broken := True\<rparr>
      in case pr_phase p of
           Exited \<Rightarrow> (CloseNil, p)
         | Running \<Rightarrow> (if inTime then CloseWait waitErr else CloseKilled, p\<lparr>pr_phase := Exited\<rparr>))"

text \<open>
  Starting a plugin: each of the three steps may fail with a message. A started process has received nothing, and
  \<open>sw_lines\<close> is what it is going to write.
\<close>

record spawn_world =
  sw_stdinErr :: "string option"
  sw_stdoutErr :: "string option"
  sw_startErr :: "string option"
  sw_lines :: "string list"
  sw_scanErr :: bool

definition NewManagedProcess :: "spawn_world \<Rightarrow> string + ManagedProcess" where
  "NewManagedProcess w =
     (case sw_stdinErr w of
        Some e \<Rightarrow> Inl (''failed to create stdin pipe: '' @ e)
      | None \<Rightarrow>
          (case sw_stdoutErr w of
             Some e \<Rightarrow> Inl (''failed to create stdout pipe: '' @ e)
           | None \<Rightarrow>
               (case sw_startErr w of
                  Some e \<Rightarrow> Inl (''failed to start plugin: '' @ e)
                | None \<Rightarrow>
                    Inr \<lparr> pr_stdin = [], pr_stdout = sw_lines w, pr_scanErr = sw_scanErr w, pr_broken = False,
                      pr_readTimeout = 0, pr_phase = Running \<rparr>)))"

section \<open>The detector\<close>

record ExecDetector =
  xd_name :: string
  xd_proc :: ManagedProcess

text \<open>\<open>quote\<close> is the verb \<^verbatim>\<open>%q\<close>. The parameters are accepted and never used.\<close>

definition NewDetector :: "(string \<Rightarrow> string) \<Rightarrow> string \<Rightarrow> string \<Rightarrow> 'params \<Rightarrow> spawn_world \<Rightarrow> string + ExecDetector" where
  "NewDetector quote name execPath params w =
     (case NewManagedProcess w of
        Inl e \<Rightarrow> Inl (''failed to spawn detector plugin '' @ quote name @ '' at '' @ execPath @ '': '' @ e)
      | Inr p \<Rightarrow> Inr \<lparr> xd_name = name, xd_proc = p \<rparr>)"

record DetectResult =
  Score :: i64
  Module :: string
  Reason :: string

definition DetectResult0 :: DetectResult where
  "DetectResult0 = \<lparr> Score = 0, Module = [], Reason = [] \<rparr>"

text \<open>The panic of a wrong payload is \<open>Inl\<close>. A nil entry, which the unwrapping lets pass, is dereferenced: also a panic.\<close>

definition Detect ::
  "textlib \<Rightarrow> IPView \<Rightarrow> payload Event option \<Rightarrow> ManagedProcess \<Rightarrow> unit + DetectResult \<times> ManagedProcess" where
  "Detect T sv event p =
     (case UnwrapLogEntry event of
        Inl _ \<Rightarrow> Inl ()
      | Inr None \<Rightarrow> Inl ()
      | Inr (Some entry) \<Rightarrow>
          Inr (case DetectRequest T (logEntryToJSON (tl_go T) entry) (ipViewToJSON sv) of
                 None \<Rightarrow> (DetectResult0, p)
               | Some req \<Rightarrow>
                   (case Send (tl_print T req) p of
                      (False, p1) \<Rightarrow> (DetectResult0, p1)
                    | (True, p1) \<Rightarrow>
                        (case Recv False p1 of
                           (Inl _, p2) \<Rightarrow> (DetectResult0, p2)
                         | (Inr line, p2) \<Rightarrow>
                             (case ParseDetectResponse T line of
                                (resp, True) \<Rightarrow> (DetectResult0, p2)
                              | (resp, False) \<Rightarrow>
                                  (\<lparr> Score = dr_Score resp, Module = dr_Module resp, Reason = dr_Reason resp \<rparr>, p2))))))"

section \<open>The sink\<close>

record ExecSink =
  xk_name :: string
  xk_proc :: ManagedProcess
  xk_eventsWritten :: i64
  xk_errors :: i64

datatype exec_sink_error = XkThreat threat_error | XkSend

definition NewSink :: "string \<Rightarrow> string + ManagedProcess \<Rightarrow> string + ExecSink" where
  "NewSink execPath spawned =
     (case spawned of
        Inl e \<Rightarrow> Inl e
      | Inr p \<Rightarrow> Inr \<lparr> xk_name = ''exec:'' @ execPath, xk_proc = p, xk_eventsWritten = 0, xk_errors = 0 \<rparr>)"

definition ExecSink_Write ::
  "textlib \<Rightarrow> ('p \<Rightarrow> json option) \<Rightarrow> 'p option Event option \<Rightarrow> ExecSink \<Rightarrow> exec_sink_error option \<times> ExecSink" where
  "ExecSink_Write T marshal event s =
     (case threatEventToJSON T marshal event of
        Inl e \<Rightarrow> (Some (XkThreat e), s\<lparr>xk_errors := xk_errors s + 1\<rparr>)
      | Inr threatJSON \<Rightarrow>
          (case Send (tl_print T (WriteRequest T threatJSON)) (xk_proc s) of
             (False, p) \<Rightarrow> (Some XkSend, s\<lparr>xk_proc := p, xk_errors := xk_errors s + 1\<rparr>)
           | (True, p) \<Rightarrow> (None, s\<lparr>xk_proc := p, xk_eventsWritten := xk_eventsWritten s + 1\<rparr>)))"

definition ExecSink_Stats :: "ExecSink \<Rightarrow> SinkStats" where
  "ExecSink_Stats s = \<lparr> EventsWritten = xk_eventsWritten s, sk_Dropped = 0, sk_Errors = xk_errors s \<rparr>"

definition ExecSink_Manifest :: Manifest where
  "ExecSink_Manifest = sink_manifest ''exec'' [''exec'', ''external'', ''plugin'']"

section \<open>The executor\<close>

record ExecExecutor =
  xe_name :: string
  xe_execType :: string
  xe_proc :: ManagedProcess
  xe_executed :: i64
  xe_errors :: i64

record ExecutorStats =
  Executed :: i64
  Skipped :: i64
  xs_Errors :: i64

definition NewExecutor :: "string \<Rightarrow> string + ManagedProcess \<Rightarrow> string + ExecExecutor" where
  "NewExecutor name spawned =
     (case spawned of
        Inl e \<Rightarrow> Inl e
      | Inr p \<Rightarrow> Inr \<lparr> xe_name = name, xe_execType = ''exec'', xe_proc = p, xe_executed = 0, xe_errors = 0 \<rparr>)"

datatype exec_error = XeNilEvent | XeThreat threat_error | XeSend | XeRecv recv_error | XeParse | XePlugin string

definition xe_fail :: "exec_error \<Rightarrow> ExecExecutor \<Rightarrow> exec_error option \<times> ExecExecutor" where
  "xe_fail e x = (Some e, x\<lparr>xe_errors := xe_errors x + 1\<rparr>)"

definition executePlugin ::
  "textlib \<Rightarrow> ('p \<Rightarrow> json option) \<Rightarrow> 'p option Event option \<Rightarrow> ExecExecutor \<Rightarrow> exec_error option \<times> ExecExecutor" where
  "executePlugin T marshal event x =
     (if event = None then xe_fail XeNilEvent x
      else case threatEventToJSON T marshal event of
             Inl e \<Rightarrow> xe_fail (XeThreat e) x
           | Inr threatJSON \<Rightarrow>
               (case Send (tl_print T (ExecuteRequest T threatJSON)) (xe_proc x) of
                  (False, p) \<Rightarrow> xe_fail XeSend (x\<lparr>xe_proc := p\<rparr>)
                | (True, p) \<Rightarrow>
                    (case Recv False p of
                       (Inl e, p1) \<Rightarrow> xe_fail (XeRecv e) (x\<lparr>xe_proc := p1\<rparr>)
                     | (Inr line, p1) \<Rightarrow>
                         (case ParseExecuteResponse T line of
                            (resp, True) \<Rightarrow> xe_fail XeParse (x\<lparr>xe_proc := p1\<rparr>)
                          | (resp, False) \<Rightarrow>
                              if er_Error resp \<noteq> [] then xe_fail (XePlugin (er_Error resp)) (x\<lparr>xe_proc := p1\<rparr>)
                              else (None, x\<lparr>xe_proc := p1, xe_executed := xe_executed x + 1\<rparr>)))))"

text \<open>
  \<^verbatim>\<open>Run\<close>: the events the queue delivers, until its \<^verbatim>\<open>Pop\<close> fails; errors of an event are passed over, and the result is
  nil in any case.
\<close>

definition ExecExecutor_Run ::
  "textlib \<Rightarrow> ('p \<Rightarrow> json option) \<Rightarrow> 'p option Event option list \<Rightarrow> ExecExecutor \<Rightarrow> ExecExecutor" where
  "ExecExecutor_Run T marshal events x = fold (\<lambda>ev s. snd (executePlugin T marshal ev s)) events x"

definition ExecExecutor_Stats :: "ExecExecutor \<Rightarrow> ExecutorStats" where
  "ExecExecutor_Stats x = \<lparr> Executed = xe_executed x, Skipped = 0, xs_Errors = xe_errors x \<rparr>"

definition exec_manifest :: "Role \<Rightarrow> DataType \<Rightarrow> DataType \<Rightarrow> Manifest" where
  "exec_manifest role i o' = \<lparr> PluginID = [], PluginVersion = [], man_Role = role, InputType = i, OutputType = o',
     Tags = [''exec'', ''external-plugin'', ''ndjson''], Produces = [], Consumes = [] \<rparr>"

definition ExecDetector_Manifest :: Manifest where
  "ExecDetector_Manifest = exec_manifest RoleDetector TypeStructured TypeStructured"

definition ExecExecutor_Manifest :: Manifest where
  "ExecExecutor_Manifest = exec_manifest RoleExecutor TypeScoredEvent TypeNone"

section \<open>Lemmas\<close>

subsection \<open>The wire format\<close>

lemma Recv_False [simp]: "Recv False p = recvRaw p"
  by (simp add: Recv_def)

text \<open>The texts of an entry, which \<^verbatim>\<open>json.Marshal\<close> leaves alone when they are valid UTF-8.\<close>

definition entry_texts :: "LogEntryJSON \<Rightarrow> string list" where
  "entry_texts j = [lj_RemoteAddr j, lj_RemoteUser j, lj_Time j, lj_Method j, lj_RawURI j, lj_Path j, lj_Query j,
     lj_Protocol j, lj_Referer j, lj_UserAgent j, lj_RealIP j]"

lemma decode_member:
  "map_of fds k = Some d \<Longrightarrow> d j r = (r1, False) \<Longrightarrow> decode_members T fds ((k, j) # ms) r e = decode_members T fds ms r1 e"
  by (simp add: find_field_exact)

lemma dec_string_jstr: "tl_utf8 T s = s \<Longrightarrow> dec_string upd (jstr T s) r = (upd s r, False)"
  by (simp add: dec_string_def jstr_def)

lemma dec_int_jint [simp]: "dec_int upd (jint v) r = (upd v r, False)"
  by (simp add: dec_int_def jint_def ParseInt_FormatInt_sint)

lemma LogEntryJSON_decodes:
  assumes "list_all (\<lambda>s. tl_utf8 T s = s) (entry_texts j)"
  shows "decode_struct T LogEntryJSON_fields (LogEntryJSON_tree T j) r = (j, False)"
proof -
  have u: "tl_utf8 T (lj_RemoteAddr j) = lj_RemoteAddr j" "tl_utf8 T (lj_RemoteUser j) = lj_RemoteUser j"
    "tl_utf8 T (lj_Time j) = lj_Time j" "tl_utf8 T (lj_Method j) = lj_Method j" "tl_utf8 T (lj_RawURI j) = lj_RawURI j"
    "tl_utf8 T (lj_Path j) = lj_Path j" "tl_utf8 T (lj_Query j) = lj_Query j" "tl_utf8 T (lj_Protocol j) = lj_Protocol j"
    "tl_utf8 T (lj_Referer j) = lj_Referer j" "tl_utf8 T (lj_UserAgent j) = lj_UserAgent j" "tl_utf8 T (lj_RealIP j) = lj_RealIP j"
    using assms by (simp_all add: entry_texts_def)
  show ?thesis
    unfolding decode_struct_def LogEntryJSON_tree_def json.case
    by (simp add: find_field_exact LogEntryJSON_fields_def dec_string_jstr u)
qed


definition wire_textlib :: textlib where
  "wire_textlib = textlib0\<lparr>tl_json := \<lambda>s. Some (JObj [(''entry'', LogEntryJSON_tree textlib0 (logEntryToJSON golib0 entry0))])\<rparr>"


subsection \<open>Requests and answers stay in step\<close>

text \<open>What a detector makes of one line of the plugin.\<close>

definition detect_answer :: "textlib \<Rightarrow> string \<Rightarrow> DetectResult" where
  "detect_answer T line =
     (case ParseDetectResponse T line of
        (resp, True) \<Rightarrow> DetectResult0
      | (resp, False) \<Rightarrow> \<lparr> Score = dr_Score resp, Module = dr_Module resp, Reason = dr_Reason resp \<rparr>)"

fun detect_run ::
  "textlib \<Rightarrow> (IPView \<times> LogEntry \<times> Envelope) list \<Rightarrow> ManagedProcess \<Rightarrow> (unit + DetectResult) list \<times> ManagedProcess" where
  "detect_run T [] p = ([], p)"
| "detect_run T ((sv, e, env) # cs) p =
     (case Detect T sv (Some (WrapLogEntry (Some e) env)) p of
        Inl u \<Rightarrow> ([Inl u], p)
      | Inr (r, p1) \<Rightarrow> (case detect_run T cs p1 of (rs, p2) \<Rightarrow> (Inr r # rs, p2)))"

definition finite_rate :: "IPView \<Rightarrow> bool" where
  "finite_rate sv = (\<not> IsNaN (iv_ApproxRate sv time_Minute) \<and> \<not> IsInf (iv_ApproxRate sv time_Minute))"

lemma DetectRequest_finite:
  "finite_rate sv \<Longrightarrow> \<exists>req. DetectRequest T j (ipViewToJSON sv) = Some req"
  by (simp add: DetectRequest_def IPViewJSON_tree_def ipViewToJSON_def finite_rate_def)

lemma Detect_step:
  assumes "finite_rate sv" "\<not> pr_broken p"
  shows "\<exists>p1. Detect T sv (Some (WrapLogEntry (Some e) env)) p =
      Inr (case pr_stdout p of [] \<Rightarrow> DetectResult0 | l # ls \<Rightarrow> detect_answer T l, p1) \<and>
    pr_stdout p1 = tl (pr_stdout p) \<and> length (pr_stdin p1) = length (pr_stdin p) + 1 \<and> \<not> pr_broken p1"
proof -
  obtain req where "DetectRequest T (logEntryToJSON (tl_go T) e) (ipViewToJSON sv) = Some req"
    using DetectRequest_finite [OF assms(1)] by blast
  then show ?thesis
    using assms(2)
    by (cases "pr_stdout p") (auto simp: Detect_def Send_def recvRaw_def detect_answer_def split: prod.split bool.split)
qed

text \<open>
  C28: requests and answers of a detector plugin stay in step: for any sequence of calls on a running plugin the i-th
  call returns what the i-th line of the plugin says, a malformed line included (it counts as clean), one line is sent
  per call, and when the plugin's output has ended every further call returns the clean result.
\<close>

theorem detector_stays_in_step:
  assumes "list_all (\<lambda>c. finite_rate (fst c)) cs" "\<not> pr_broken p"
  shows "fst (detect_run T cs p) =
           map (\<lambda>i. Inr (if i < length (pr_stdout p) then detect_answer T (pr_stdout p ! i) else DetectResult0)) [0..<length cs] \<and>
         length (pr_stdin (snd (detect_run T cs p))) = length (pr_stdin p) + length cs \<and>
         pr_stdout (snd (detect_run T cs p)) = drop (length cs) (pr_stdout p)"
  using assms
proof (induction cs arbitrary: p)
  case Nil
  then show ?case by simp
next
  case (Cons c cs)
  obtain sv e env where c: "c = (sv, e, env)" by (cases c)
  obtain p1 where d: "Detect T sv (Some (WrapLogEntry (Some e) env)) p =
      Inr (case pr_stdout p of [] \<Rightarrow> DetectResult0 | l # ls \<Rightarrow> detect_answer T l, p1)"
    and p1: "pr_stdout p1 = tl (pr_stdout p)" "length (pr_stdin p1) = length (pr_stdin p) + 1" "\<not> pr_broken p1"
    using Detect_step [of sv p T e env] Cons.prems by (auto simp: c)
  note ih = Cons.IH [OF _ p1(3)]
  have up: "[0..<length (c # cs)] = 0 # map Suc [0..<length cs]"
    by (simp only: length_Cons upt_conv_Cons [OF zero_less_Suc] map_Suc_upt)
  have "fst (detect_run T (c # cs) p) = Inr (case pr_stdout p of [] \<Rightarrow> DetectResult0 | l # ls \<Rightarrow> detect_answer T l) #
      map (\<lambda>i. Inr (if i < length (tl (pr_stdout p)) then detect_answer T (tl (pr_stdout p) ! i) else DetectResult0)) [0..<length cs]"
    using ih Cons.prems(1) p1(1) by (simp add: c d case_prod_unfold)
  also have "\<dots> = map (\<lambda>i. Inr (if i < length (pr_stdout p) then detect_answer T (pr_stdout p ! i) else DetectResult0)) [0..<length (c # cs)]"
    unfolding up by (cases "pr_stdout p") simp_all
  finally show ?case
    using ih Cons.prems(1) p1 by (simp add: c d case_prod_unfold drop_Suc)
qed

definition demo_view :: IPView where
  "demo_view = \<lparr> iv_IP = ''10.0.0.7'', iv_TotalRequests = 3, iv_Requests404 = 1, iv_RecentPaths = None, iv_ApproxRate = (\<lambda>w. 0) \<rparr>"

definition demo_proc :: ManagedProcess where
  "demo_proc = \<lparr> pr_stdin = [], pr_stdout = [''a''], pr_scanErr = False, pr_broken = False, pr_readTimeout = 0, pr_phase = Running \<rparr>"

theorem detector_stays_in_step_witness:
  "fst (detect_run textlib0 (replicate 2 (demo_view, entry0, \<lparr>Timestamp = zero_time, Stream = [], Source = [], SourceType = [], Level = []\<rparr>)) demo_proc)
     = [Inr DetectResult0, Inr DetectResult0]"
proof -
  let ?cs = "replicate 2 (demo_view, entry0, \<lparr>Timestamp = zero_time, Stream = [], Source = [], SourceType = [], Level = []\<rparr>)"
  have "list_all (\<lambda>c. finite_rate (fst c)) ?cs"
    by (simp add: finite_rate_def demo_view_def IsNaN_def IsInf_def f_exp_def numeral_2_eq_2)
  from detector_stays_in_step [OF this, of demo_proc textlib0] show ?thesis
    by (simp add: demo_proc_def upt_conv_Cons detect_answer_def ParseDetectResponse_def unmarshal_struct_def textlib0_def)
qed

text \<open>A rate that is not a number cannot be encoded: the plugin is not asked and the request counts as clean.\<close>

lemma unencodable_rate_is_clean:
  "\<not> finite_rate sv \<Longrightarrow> Detect T sv (Some (WrapLogEntry (Some e) env)) p = Inr (DetectResult0, p)"
  by (auto simp: Detect_def DetectRequest_def IPViewJSON_tree_def ipViewToJSON_def finite_rate_def)

subsection \<open>Sink and executor\<close>

interpretation xsink: event_sink "ExecSink_Write T marshal" ExecSink_Stats for T marshal
  by unfold_locales
     (auto simp: ExecSink_Write_def ExecSink_Stats_def split: sum.splits prod.splits bool.splits)

lemma executePlugin_counts:
  "executePlugin T marshal ev x = (r, y) \<Longrightarrow>
     xe_executed y = xe_executed x + (if r = None then 1 else 0) \<and> xe_errors y = xe_errors x + (if r = None then 0 else 1)"
  by (auto simp: executePlugin_def xe_fail_def split: if_splits sum.splits prod.splits bool.splits)

text \<open>Every event the executor takes is counted once, as executed or as an error.\<close>

lemma ExecExecutor_Run_counts:
  "Executed (ExecExecutor_Stats (ExecExecutor_Run T marshal evs x)) + xs_Errors (ExecExecutor_Stats (ExecExecutor_Run T marshal evs x)) =
   Executed (ExecExecutor_Stats x) + xs_Errors (ExecExecutor_Stats x) + word_of_nat (length evs)"
proof (induction evs arbitrary: x)
  case Nil
  then show ?case by (simp add: ExecExecutor_Run_def)
next
  case (Cons ev evs)
  obtain r y where "executePlugin T marshal ev x = (r, y)" by (cases "executePlugin T marshal ev x")
  with executePlugin_counts [OF this] Cons.IH [of y] show ?case
    by (simp add: ExecExecutor_Run_def ExecExecutor_Stats_def split: if_splits)
qed

text \<open>An answer that says it failed, without an error text, counts as executed: only the text is looked at.\<close>

lemma failed_answer_without_text_counts:
  assumes "threatEventToJSON T marshal event = Inr t" "event \<noteq> None" "\<not> pr_broken (xe_proc x)" "pr_stdout (xe_proc x) = [line]"
    and "ParseExecuteResponse T line = (\<lparr> er_OK = False, er_Error = [] \<rparr>, False)"
  shows "fst (executePlugin T marshal event x) = None"
  using assms by (auto simp: executePlugin_def Send_def recvRaw_def)

subsection \<open>Starting\<close>

text \<open>A detector is made exactly when all three steps succeed; its process is fresh, and its parameters make no difference.\<close>

lemma NewDetector_Inr_iff:
  "NewDetector quote name execPath params w = Inr d \<longleftrightarrow>
     sw_stdinErr w = None \<and> sw_stdoutErr w = None \<and> sw_startErr w = None \<and>
     d = \<lparr> xd_name = name, xd_proc = \<lparr> pr_stdin = [], pr_stdout = sw_lines w, pr_scanErr = sw_scanErr w, pr_broken = False,
       pr_readTimeout = 0, pr_phase = Running \<rparr> \<rparr>"
  by (auto simp: NewDetector_def NewManagedProcess_def split: option.splits)

lemma detector_params_ignored: "NewDetector quote name execPath params w = NewDetector quote name execPath params1 w"
  by (simp add: NewDetector_def)

end
