(* ===== verification/Exec_Source.thy ===== *)
theory Exec_Source
  imports Exec_Plugin "HOL-Library.Sublist"
begin

text \<open>
  The source that streams entries from a plugin process, \<^verbatim>\<open>pkg/execplugin/source.go\<close>: a goroutine reads the plugin's
  lines, decodes them and offers the events to an internal channel, and the loop of \<^verbatim>\<open>Run\<close> forwards them to the pipeline.
  Both drop what does not fit. The two are a step relation with one step per channel operation.

  Unlike the other sources it counts a line as read only after it has been decoded.
\<close>

section \<open>The model\<close>

record ExecSource =
  xo_execPath :: string

definition NewSource :: "string \<Rightarrow> ExecSource option" where
  "NewSource execPath = (if execPath = [] then None else Some \<lparr> xo_execPath = execPath \<rparr>)"

definition xo_Name :: "ExecSource \<Rightarrow> string" where
  "xo_Name s = ''exec:'' @ xo_execPath s"

definition entriesBuf :: nat where "entriesBuf = 256"

definition exec_event :: "golib \<Rightarrow> SourceEntry \<Rightarrow> payload Event" where
  "exec_event L se =
     (let entry = logEntryFromJSON L (se_Entry se)
      in WrapLogEntry (Some entry)
           \<lparr> Timestamp = le_Time entry, Stream = [], Source = le_RemoteAddr entry, SourceType = ''exec'', Level = [] \<rparr>)"

datatype exec_result = ExecNil | ExecReadErr

text \<open>
  \<open>xs_todo\<close> are the lines the plugin will still write; \<open>xs_seen\<close> records the events decoded so far, and \<open>xs_lost\<close> the one
  event that was in hand when the context ended.
\<close>

record exec_src =
  xs_todo :: "string list"
  xs_endErr :: bool
  xs_readerDone :: bool
  xs_entries :: "payload Event list"
  xs_closed :: bool
  xs_readErr :: bool
  xs_linesRead :: i64
  xs_parseErrs :: i64
  xs_dropped :: i64
  xs_out :: "payload Event list"
  xs_seen :: "payload Event list"
  xs_lost :: nat
  xs_stops :: nat
  xs_cancelled :: bool
  xs_result :: "exec_result option"

text \<open>The start: the process is spawned and sent the start request; either may fail.\<close>

definition exec_start :: "string list \<Rightarrow> bool \<Rightarrow> exec_src" where
  "exec_start stdout endErr =
     \<lparr> xs_todo = stdout, xs_endErr = endErr, xs_readerDone = False, xs_entries = [], xs_closed = False,
       xs_readErr = False, xs_linesRead = 0, xs_parseErrs = 0, xs_dropped = 0, xs_out = [], xs_seen = [], xs_lost = 0,
       xs_stops = 0, xs_cancelled = False, xs_result = None \<rparr>"

inductive exec_step :: "textlib \<Rightarrow> exec_src \<Rightarrow> exec_src \<Rightarrow> bool" for T where
  recv_bad: "\<not> xs_readerDone s \<Longrightarrow> xs_todo s = l # ls \<Longrightarrow> ParseSourceEntry T l = (se, True) \<Longrightarrow>
    exec_step T s (s\<lparr>xs_todo := ls, xs_parseErrs := xs_parseErrs s + 1\<rparr>)"
| recv_kept: "\<not> xs_readerDone s \<Longrightarrow> xs_todo s = l # ls \<Longrightarrow> ParseSourceEntry T l = (se, False) \<Longrightarrow>
    length (xs_entries s) < entriesBuf \<Longrightarrow>
    exec_step T s (s\<lparr>xs_todo := ls, xs_linesRead := xs_linesRead s + 1, xs_seen := xs_seen s @ [exec_event (tl_go T) se],
      xs_entries := xs_entries s @ [exec_event (tl_go T) se]\<rparr>)"
| recv_full: "\<not> xs_readerDone s \<Longrightarrow> xs_todo s = l # ls \<Longrightarrow> ParseSourceEntry T l = (se, False) \<Longrightarrow>
    entriesBuf \<le> length (xs_entries s) \<Longrightarrow>
    exec_step T s (s\<lparr>xs_todo := ls, xs_linesRead := xs_linesRead s + 1, xs_seen := xs_seen s @ [exec_event (tl_go T) se],
      xs_dropped := xs_dropped s + 1\<rparr>)"
| recv_end: "\<not> xs_readerDone s \<Longrightarrow> xs_todo s = [] \<Longrightarrow>
    exec_step T s (s\<lparr>xs_readerDone := True, xs_readErr := xs_endErr s\<rparr>)"
| recv_late: "\<not> xs_readerDone s \<Longrightarrow> exec_step T s (s\<lparr>xs_readerDone := True, xs_readErr := True\<rparr>)"
| reader_close: "xs_readerDone s \<Longrightarrow> exec_step T s (s\<lparr>xs_closed := True\<rparr>)"
| run_cancel: "xs_result s = None \<Longrightarrow>
    exec_step T s (s\<lparr>xs_result := Some ExecNil, xs_cancelled := True, xs_stops := xs_stops s + 1\<rparr>)"
| run_forward: "xs_result s = None \<Longrightarrow> xs_entries s = e # es \<Longrightarrow>
    exec_step T s (s\<lparr>xs_entries := es, xs_out := xs_out s @ [e]\<rparr>)"
| run_cancel_send: "xs_result s = None \<Longrightarrow> xs_entries s = e # es \<Longrightarrow>
    exec_step T s (s\<lparr>xs_entries := es, xs_lost := xs_lost s + 1, xs_result := Some ExecNil, xs_cancelled := True,
      xs_stops := xs_stops s + 1\<rparr>)"
| run_drop: "xs_result s = None \<Longrightarrow> xs_entries s = e # es \<Longrightarrow>
    exec_step T s (s\<lparr>xs_entries := es, xs_dropped := xs_dropped s + 1\<rparr>)"
| run_closed: "xs_result s = None \<Longrightarrow> xs_entries s = [] \<Longrightarrow> xs_closed s \<Longrightarrow>
    exec_step T s (s\<lparr>xs_result := Some ExecNil\<rparr>)"
| run_readErr: "xs_result s = None \<Longrightarrow> xs_readErr s \<Longrightarrow>
    exec_step T s (s\<lparr>xs_readErr := False, xs_result := Some ExecReadErr\<rparr>)"
| run_readErr_done: "xs_result s = None \<Longrightarrow> xs_readErr s \<Longrightarrow>
    exec_step T s (s\<lparr>xs_readErr := False, xs_result := Some ExecNil, xs_cancelled := True\<rparr>)"

inductive_cases exec_stepE: "exec_step T s s'"

definition ExecSource_Stats :: "exec_src \<Rightarrow> SourceStats" where
  "ExecSource_Stats s = \<lparr> LinesRead = xs_linesRead s, ParseErrors = xs_parseErrs s, st_Dropped = xs_dropped s \<rparr>"

definition ExecSource_Manifest :: Manifest where
  "ExecSource_Manifest = source_manifest ''exec'' [''exec'', ''external-plugin'', ''ndjson''] []"

section \<open>Lemmas\<close>

definition exec_ok :: "exec_src \<Rightarrow> bool" where
  "exec_ok s =
     (xs_linesRead s = xs_dropped s + word_of_nat (length (xs_out s) + length (xs_entries s) + xs_lost s) \<and>
      length (xs_entries s) \<le> entriesBuf \<and>
      (xs_lost s = 0 \<or> xs_lost s = 1 \<and> xs_cancelled s \<and> xs_result s \<noteq> None) \<and>
      (xs_result s = Some ExecNil \<and> \<not> xs_cancelled s \<longrightarrow> xs_entries s = [] \<and> xs_readerDone s) \<and>
      (xs_closed s \<longrightarrow> xs_readerDone s) \<and>
      subseq (xs_out s @ xs_entries s) (xs_seen s))"

lemma subseq_snoc: "subseq xs ys \<Longrightarrow> subseq xs (ys @ [y])"
  using list_emb_append_mono [of "(=)" xs ys "[]" "[y]"] by simp

lemma subseq_drop_mid: "subseq (xs @ e # es) ys \<Longrightarrow> subseq (xs @ es) ys"
proof -
  have "subseq (xs @ es) (xs @ e # es)" by (intro list_emb_append_mono) auto
  then show "subseq (xs @ e # es) ys \<Longrightarrow> subseq (xs @ es) ys" by (rule subseq_order.trans)
qed

lemma subseq_push: "subseq xs ys \<Longrightarrow> subseq (xs @ [e]) (ys @ [e])"
  by (intro list_emb_append_mono) auto

lemma exec_ok_step:
  assumes "exec_step T s s'" "exec_ok s"
  shows "exec_ok s'"
  using assms(1)
proof cases
  case (recv_kept l ls se)
  then show ?thesis
    using assms(2) subseq_push [of "xs_out s @ xs_entries s" "xs_seen s" "exec_event (tl_go T) se"]
    by (auto simp: exec_ok_def)
next
  case (recv_full l ls se)
  then show ?thesis using assms(2) by (auto simp: exec_ok_def subseq_snoc)
next
  case (run_cancel_send e es)
  then show ?thesis using assms(2) subseq_drop_mid [of "xs_out s" e es "xs_seen s"] by (auto simp: exec_ok_def)
next
  case (run_drop e es)
  then show ?thesis using assms(2) subseq_drop_mid [of "xs_out s" e es "xs_seen s"] by (auto simp: exec_ok_def)
qed (use assms(2) in \<open>auto simp: exec_ok_def\<close>)

lemma exec_ok_reachable: "(exec_step T)\<^sup>*\<^sup>* (exec_start stdout endErr) s \<Longrightarrow> exec_ok s"
proof (induction rule: rtranclp_induct)
  case base
  then show ?case by (simp add: exec_ok_def exec_start_def)
next
  case (step s s')
  then show ?case using exec_ok_step by blast
qed

text \<open>
  In every interleaving of the reading goroutine and the forwarding loop of an external source, the delivered events
  are decoded events in the order of the plugin's lines, none twice, and the counters account for each decoded line:
  delivered, dropped at one of the two channels, still buffered, or the one in hand when the context ended; when \<^verbatim>\<open>Run\<close>
  ends by itself nothing is left in the buffer.
\<close>

theorem exec_source_accounts:
  assumes "(exec_step T)\<^sup>*\<^sup>* (exec_start stdout endErr) s"
  shows "subseq (xs_out s @ xs_entries s) (xs_seen s) \<and>
    LinesRead (ExecSource_Stats s) =
      st_Dropped (ExecSource_Stats s) + word_of_nat (length (xs_out s) + length (xs_entries s) + xs_lost s) \<and>
    xs_lost s \<le> (if xs_cancelled s then 1 else 0) \<and> length (xs_entries s) \<le> entriesBuf \<and>
    (xs_result s = Some ExecNil \<and> \<not> xs_cancelled s \<longrightarrow>
       LinesRead (ExecSource_Stats s) = st_Dropped (ExecSource_Stats s) + word_of_nat (length (xs_out s)))"
  using exec_ok_reachable [OF assms] by (auto simp: exec_ok_def ExecSource_Stats_def)

theorem exec_source_accounts_witness:
  "\<exists>s. (exec_step wire_textlib)\<^sup>*\<^sup>* (exec_start [''x''] False) s \<and> xs_out s = [exec_event golib0 \<lparr>se_Entry = logEntryToJSON golib0 entry0\<rparr>] \<and>
     LinesRead (ExecSource_Stats s) = 1"
proof -
  let ?ev = "exec_event golib0 \<lparr>se_Entry = logEntryToJSON golib0 entry0\<rparr>"
  define s0 where "s0 = exec_start [''x''] False"
  define s1 where "s1 = s0\<lparr>xs_todo := [], xs_linesRead := xs_linesRead s0 + 1, xs_seen := xs_seen s0 @ [?ev], xs_entries := xs_entries s0 @ [?ev]\<rparr>"
  define s2 where "s2 = s1\<lparr>xs_entries := [], xs_out := xs_out s1 @ [?ev]\<rparr>"
  have T: "tl_go wire_textlib = golib0" by (simp add: wire_textlib_def textlib0_def)
  have tr: "LogEntryJSON_tree textlib0 j = LogEntryJSON_tree wire_textlib j" for j
    by (simp add: LogEntryJSON_tree_def jstr_def wire_textlib_def textlib0_def)
  have u: "tl_utf8 wire_textlib = (\<lambda>s. s)" by (simp add: wire_textlib_def textlib0_def)
  have j: "tl_json wire_textlib ''x'' = Some (JObj [(''entry'', LogEntryJSON_tree wire_textlib (logEntryToJSON golib0 entry0))])"
    unfolding tr [symmetric] by (simp add: wire_textlib_def)
  have dec: "decode_struct wire_textlib LogEntryJSON_fields (LogEntryJSON_tree wire_textlib (logEntryToJSON golib0 entry0)) r =
      (logEntryToJSON golib0 entry0, False)" for r
    by (rule LogEntryJSON_decodes) (simp add: u entry_texts_def)
  have p: "ParseSourceEntry wire_textlib ''x'' = (\<lparr>se_Entry = logEntryToJSON golib0 entry0\<rparr>, False)"
    by (simp add: ParseSourceEntry_def unmarshal_struct_def j decode_struct_def [of _ _ "JObj _"] find_field_exact dec)
  have "exec_step wire_textlib s0 s1"
    using recv_kept [of s0 "''x''" "[]" wire_textlib, OF _ _ p]
    by (simp add: s1_def s0_def exec_start_def entriesBuf_def T)
  moreover have "exec_step wire_textlib s1 s2"
    unfolding s2_def by (rule run_forward) (simp_all add: s1_def s0_def exec_start_def)
  ultimately have reach: "(exec_step wire_textlib)\<^sup>*\<^sup>* s0 s2"
    by (rule rtranclp_trans [OF r_into_rtranclp r_into_rtranclp])
  have out: "xs_out s2 = [?ev]" "xs_entries s2 = []" "xs_dropped s2 = 0" "\<not> xs_cancelled s2"
    by (simp_all add: s2_def s1_def s0_def exec_start_def)
  have "LinesRead (ExecSource_Stats s2) = 1"
    using exec_source_accounts [OF reach [unfolded s0_def]] out by (simp add: ExecSource_Stats_def)
  then show ?thesis using reach out(1) unfolding s0_def by (intro exI conjI)
qed

text \<open>The error of the plugin's output and the closed channel race: \<^verbatim>\<open>Run\<close> may return nil after a read error.\<close>

lemma read_error_may_be_lost:
  assumes "xs_result s = None" "xs_entries s = []" "xs_closed s" "xs_readErr s"
  shows "\<exists>s1 s2. exec_step T s s1 \<and> xs_result s1 = Some ExecNil \<and> xs_cancelled s1 = xs_cancelled s \<and>
           exec_step T s s2 \<and> xs_result s2 = Some ExecReadErr"
proof -
  have "exec_step T s (s\<lparr>xs_result := Some ExecNil\<rparr>)" by (rule run_closed) (use assms in auto)
  moreover have "exec_step T s (s\<lparr>xs_readErr := False, xs_result := Some ExecReadErr\<rparr>)"
    by (rule run_readErr) (use assms in auto)
  ultimately show ?thesis by fastforce
qed

end
