(* ===== verification/Json_Scan.thy ===== *)
theory Json_Scan
  imports Go_Text
begin

text \<open>
  The scanner of \<^verbatim>\<open>encoding/json\<close>: a machine that reads a text byte by byte with a stack of the open objects and
  arrays. On it rest \<^verbatim>\<open>json.RawMessage\<close>, which keeps the bytes of a value as they are in the text, and
  \<^verbatim>\<open>json.Decoder\<close>, which reads one value after another. A value of the tree type \<open>json\<close> has lost those bytes, so the
  adapters that forward them are modelled on the scanner.

  The depth of nesting is bounded, as in the library.
\<close>

section \<open>The machine\<close>

datatype open_value = ObjectKey | ObjectValue | ArrayValue

datatype scan_at =
    BeginValue | BeginValueOrEmpty | BeginString | BeginStringOrEmpty | EndValue
  | InString | InStringEsc | InStringEscU nat
  | AtNeg | At1 | At0 | AtDot | AtDot0 | AtE | AtESign | AtE0
  | InLiteral string

type_synonym scanner = "scan_at \<times> open_value list"

definition maxNestingDepth :: nat where "maxNestingDepth = 10000"

definition is_space :: "char \<Rightarrow> bool" where
  "is_space c = (c = CHR '' '' \<or> c = CHR 0x09 \<or> c = CHR 0x0D \<or> c = CHR 0x0A)"

definition scan_push :: "nat \<Rightarrow> scan_at \<Rightarrow> open_value \<Rightarrow> open_value list \<Rightarrow> scanner option" where
  "scan_push D q v st = (if length st < D then Some (q, v # st) else None)"

fun end_value :: "open_value list \<Rightarrow> char \<Rightarrow> scanner option" where
  "end_value [] c = (if is_space c then Some (EndValue, []) else None)"
| "end_value (ObjectKey # st) c =
     (if is_space c then Some (EndValue, ObjectKey # st)
      else if c = CHR '':'' then Some (BeginValue, ObjectValue # st) else None)"
| "end_value (ObjectValue # st) c =
     (if is_space c then Some (EndValue, ObjectValue # st)
      else if c = CHR '','' then Some (BeginString, ObjectKey # st)
      else if c = CHR ''}'' then Some (EndValue, st) else None)"
| "end_value (ArrayValue # st) c =
     (if is_space c then Some (EndValue, ArrayValue # st)
      else if c = CHR '','' then Some (BeginValue, ArrayValue # st)
      else if c = CHR '']'' then Some (EndValue, st) else None)"

definition begin_value :: "nat \<Rightarrow> open_value list \<Rightarrow> char \<Rightarrow> scanner option" where
  "begin_value D st c =
     (if is_space c then Some (BeginValue, st)
      else if c = CHR ''{'' then scan_push D BeginStringOrEmpty ObjectKey st
      else if c = CHR ''['' then scan_push D BeginValueOrEmpty ArrayValue st
      else if c = CHR 0x22 then Some (InString, st)
      else if c = CHR ''-'' then Some (AtNeg, st)
      else if c = CHR ''0'' then Some (At0, st)
      else if c = CHR ''t'' then Some (InLiteral ''rue'', st)
      else if c = CHR ''f'' then Some (InLiteral ''alse'', st)
      else if c = CHR ''n'' then Some (InLiteral ''ull'', st)
      else if is_digit c then Some (At1, st) else None)"

definition begin_string :: "open_value list \<Rightarrow> char \<Rightarrow> scanner option" where
  "begin_string st c =
     (if is_space c then Some (BeginString, st) else if c = CHR 0x22 then Some (InString, st) else None)"

definition at0 :: "open_value list \<Rightarrow> char \<Rightarrow> scanner option" where
  "at0 st c =
     (if c = CHR ''.'' then Some (AtDot, st) else if c = CHR ''e'' \<or> c = CHR ''E'' then Some (AtE, st)
      else end_value st c)"

definition at_esign :: "open_value list \<Rightarrow> char \<Rightarrow> scanner option" where
  "at_esign st c = (if is_digit c then Some (AtE0, st) else None)"

fun scan_step :: "nat \<Rightarrow> scanner \<Rightarrow> char \<Rightarrow> scanner option" where
  "scan_step D (BeginValue, st) c = begin_value D st c"
| "scan_step D (BeginValueOrEmpty, st) c =
     (if is_space c then Some (BeginValueOrEmpty, st)
      else if c = CHR '']'' then end_value st c else begin_value D st c)"
| "scan_step D (BeginString, st) c = begin_string st c"
| "scan_step D (BeginStringOrEmpty, st) c =
     (if is_space c then Some (BeginStringOrEmpty, st)
      else if c = CHR ''}'' then end_value (ObjectValue # tl st) c else begin_string st c)"
| "scan_step D (EndValue, st) c = end_value st c"
| "scan_step D (InString, st) c =
     (if c = CHR 0x22 then Some (EndValue, st) else if c = CHR 0x5C then Some (InStringEsc, st)
      else if (of_char c :: nat) < 32 then None else Some (InString, st))"
| "scan_step D (InStringEsc, st) c =
     (if c \<in> set (''bfnrt/'' @ [CHR 0x5C, CHR 0x22]) then Some (InString, st)
      else if c = CHR ''u'' then Some (InStringEscU 3, st) else None)"
| "scan_step D (InStringEscU n, st) c =
     (if is_hex c then Some (case n of 0 \<Rightarrow> (InString, st) | Suc m \<Rightarrow> (InStringEscU m, st)) else None)"
| "scan_step D (AtNeg, st) c =
     (if c = CHR ''0'' then Some (At0, st) else if is_digit c then Some (At1, st) else None)"
| "scan_step D (At1, st) c = (if is_digit c then Some (At1, st) else at0 st c)"
| "scan_step D (At0, st) c = at0 st c"
| "scan_step D (AtDot, st) c = (if is_digit c then Some (AtDot0, st) else None)"
| "scan_step D (AtDot0, st) c =
     (if is_digit c then Some (AtDot0, st) else if c = CHR ''e'' \<or> c = CHR ''E'' then Some (AtE, st)
      else end_value st c)"
| "scan_step D (AtE, st) c = (if c = CHR ''+'' \<or> c = CHR ''-'' then Some (AtESign, st) else at_esign st c)"
| "scan_step D (AtESign, st) c = at_esign st c"
| "scan_step D (AtE0, st) c = (if is_digit c then Some (AtE0, st) else end_value st c)"
| "scan_step D (InLiteral l, st) c =
     (case l of
        [] \<Rightarrow> None
      | x # r \<Rightarrow> if c = x then Some (if r = [] then (EndValue, st) else (InLiteral r, st)) else None)"

fun scan_run :: "nat \<Rightarrow> scanner \<Rightarrow> string \<Rightarrow> scanner option" where
  "scan_run D q [] = Some q"
| "scan_run D q (c # cs) = (case scan_step D q c of None \<Rightarrow> None | Some q1 \<Rightarrow> scan_run D q1 cs)"

text \<open>
  \<^verbatim>\<open>checkValid\<close>: the library reads the end of the text as a space, which ends a value at the top level when a value is
  complete or a number may end there (\<open>scan_eof_space\<close>).
\<close>

definition at_number_end :: "scan_at \<Rightarrow> bool" where
  "at_number_end q = (q \<in> {At0, At1, AtDot0, AtE0})"

definition scan_eof :: "scanner \<Rightarrow> bool" where
  "scan_eof q = (snd q = [] \<and> (fst q = EndValue \<or> at_number_end (fst q)))"

definition checkValid :: "string \<Rightarrow> bool" where
  "checkValid s =
     (case scan_run maxNestingDepth (BeginValue, []) s of None \<Rightarrow> False | Some q \<Rightarrow> scan_eof q)"

section \<open>Raw values\<close>

text \<open>
  The bytes of one value at the start of a text and what follows. A number ends at the first byte that does not
  continue it, every other value with its own last byte.
\<close>

definition ends_at :: "nat \<Rightarrow> scanner \<Rightarrow> char \<Rightarrow> bool" where
  "ends_at D q c = (snd q = [] \<and>
     (fst q = EndValue \<or> at_number_end (fst q) \<and> scan_step D q c \<in> {None, Some (EndValue, [])}))"

fun take_value :: "nat \<Rightarrow> scanner \<Rightarrow> string \<Rightarrow> (string \<times> string) option" where
  "take_value D q [] = (if scan_eof q then Some ([], []) else None)"
| "take_value D q (c # cs) =
     (if ends_at D q c then Some ([], c # cs)
      else case scan_step D q c of
             None \<Rightarrow> None
           | Some q1 \<Rightarrow> (case take_value D q1 cs of None \<Rightarrow> None | Some (v, r) \<Rightarrow> Some (c # v, r)))"

definition skip_space :: "string \<Rightarrow> string" where
  "skip_space s = dropWhile is_space s"

definition next_value :: "nat \<Rightarrow> string \<Rightarrow> (string \<times> string) option" where
  "next_value D s = take_value D (BeginValue, []) (skip_space s)"

lemma take_value_parts: "take_value D q s = Some (v, r) \<Longrightarrow> s = v @ r"
  by (induction D q s arbitrary: v r rule: take_value.induct) (auto split: if_splits option.splits)

lemma take_value_nonempty: "take_value D (BeginValue, []) s = Some (v, r) \<Longrightarrow> v \<noteq> []"
  by (cases s) (auto simp: scan_eof_def begin_value_def is_space_def ends_at_def at_number_end_def split: if_splits option.splits)

lemma next_value_shorter: "next_value D s = Some (v, r) \<Longrightarrow> length r < length s"
proof -
  assume a: "next_value D s = Some (v, r)"
  then have "skip_space s = v @ r" "v \<noteq> []"
    using take_value_parts take_value_nonempty by (auto simp: next_value_def)
  then have "length r < length (skip_space s)" by simp
  then show ?thesis using length_dropWhile_le [of is_space s] by (simp add: skip_space_def)
qed

lemma skip_space_Cons_shorter: "skip_space s = c # r \<Longrightarrow> length r < length s"
  using length_dropWhile_le [of is_space s] by (simp add: skip_space_def)

text \<open>The elements of an array, from after its bracket; the text has been found valid before.\<close>

function raw_list :: "nat \<Rightarrow> string \<Rightarrow> string list option" where
  "raw_list D s =
     (case next_value D s of
        None \<Rightarrow> None
      | Some (v, r) \<Rightarrow>
          (case skip_space r of
             [] \<Rightarrow> None
           | c # r1 \<Rightarrow>
               if c = CHR '']'' then Some [v]
               else if c = CHR '','' then map_option (Cons v) (raw_list D r1) else None))"
  by pat_completeness auto
termination
  by (relation "measure (\<lambda>(D, s). length s)") (auto dest!: next_value_shorter skip_space_Cons_shorter)

declare raw_list.simps [simp del]

text \<open>Decoding into a \<^verbatim>\<open>[]json.RawMessage\<close>: \<^verbatim>\<open>null\<close> leaves it nil, anything but an array is an error.\<close>

definition unmarshal_raws :: "string \<Rightarrow> string list option" where
  "unmarshal_raws s =
     (if \<not> checkValid s then None
      else case skip_space s of
             [] \<Rightarrow> None
           | c # r \<Rightarrow>
               if c = CHR ''n'' then Some []
               else if c = CHR ''['' then
                 (if take 1 (skip_space r) = '']'' then Some [] else raw_list maxNestingDepth r)
               else None)"

text \<open>The members of an object, from after its brace: the decoded name and the bytes of the value.\<close>

definition raw_name :: "textlib \<Rightarrow> string \<Rightarrow> string option" where
  "raw_name T v = (case tl_json T v of Some (JStr k) \<Rightarrow> Some k | _ \<Rightarrow> None)"

function raw_members :: "textlib \<Rightarrow> nat \<Rightarrow> string \<Rightarrow> (string \<times> string) list option" where
  "raw_members T D s =
     (case next_value D s of
        None \<Rightarrow> None
      | Some (k, r) \<Rightarrow>
          (case skip_space r of
             [] \<Rightarrow> None
           | _ # r1 \<Rightarrow>
               (case next_value D r1 of
                  None \<Rightarrow> None
                | Some (v, r2) \<Rightarrow>
                    (case (skip_space r2, raw_name T k) of
                       (c # r3, Some name) \<Rightarrow>
                         if c = CHR ''}'' then Some [(name, v)]
                         else if c = CHR '','' then map_option (Cons (name, v)) (raw_members T D r3) else None
                     | _ \<Rightarrow> None))))"
  by pat_completeness auto
termination
  by (relation "measure (\<lambda>(T, D, s). length s)")
    (auto dest!: next_value_shorter skip_space_Cons_shorter skip_space_Cons_shorter [OF sym])

declare raw_members.simps [simp del]

text \<open>Decoding into a \<^verbatim>\<open>map[string]json.RawMessage\<close>; \<^verbatim>\<open>map_get\<close> takes the last member of a name.\<close>

definition unmarshal_raw_map :: "textlib \<Rightarrow> string \<Rightarrow> (string \<times> string) list option" where
  "unmarshal_raw_map T s =
     (if \<not> checkValid s then None
      else case skip_space s of
             [] \<Rightarrow> None
           | c # r \<Rightarrow>
               if c = CHR ''n'' then Some []
               else if c = CHR ''{'' then
                 (if take 1 (skip_space r) = ''}'' then Some [] else raw_members T maxNestingDepth r)
               else None)"

text \<open>\<^verbatim>\<open>json.Unmarshal(raw, &s)\<close> for a string \<open>s\<close> that is empty before.\<close>

definition unmarshal_string :: "textlib \<Rightarrow> string \<Rightarrow> string option" where
  "unmarshal_string T s =
     (case tl_json T s of Some (JStr v) \<Rightarrow> Some v | Some JNull \<Rightarrow> Some [] | _ \<Rightarrow> None)"

text \<open>
  \<^verbatim>\<open>for dec.More() { dec.Decode(..) }\<close> at the top level: the values one after another, until the end of the text or
  a closing bracket, for which \<^verbatim>\<open>More\<close> is false. \<^verbatim>\<open>None\<close> is a syntax error.
\<close>

function decoder_values :: "nat \<Rightarrow> string \<Rightarrow> string list option" where
  "decoder_values D s =
     (case skip_space s of
        [] \<Rightarrow> Some []
      | c # _ \<Rightarrow>
          if c = CHR '']'' \<or> c = CHR ''}'' then Some []
          else case next_value D s of
                 None \<Rightarrow> None
               | Some (v, r) \<Rightarrow> map_option (Cons v) (decoder_values D r))"
  by pat_completeness auto
termination
  by (relation "measure (\<lambda>(D, s). length s)") (auto dest: next_value_shorter)

declare decoder_values.simps [simp del]

section \<open>The scanner on concatenated texts\<close>

text \<open>A text that is exactly one value, nested at most \<open>D\<close> deep, with no space around it.\<close>

definition json_text :: "nat \<Rightarrow> string \<Rightarrow> bool" where
  "json_text D x = (take_value D (BeginValue, []) x = Some (x, []) \<and> skip_space x = x)"

definition closes :: "char \<Rightarrow> bool" where
  "closes c = (is_space c \<or> c = CHR '','' \<or> c = CHR '']'' \<or> c = CHR ''}'')"

lemma closes_not_number [simp]: "closes c \<Longrightarrow> \<not> is_digit c" "closes c \<Longrightarrow> c \<noteq> CHR ''.''" "closes c \<Longrightarrow> c \<noteq> CHR ''e''"
  "closes c \<Longrightarrow> c \<noteq> CHR ''E''"
  by (auto simp: closes_def is_space_def is_digit_def ch_def)

lemma end_value_top: "end_value [] c \<in> {None, Some (EndValue, [])}"
  by simp

lemma scan_eof_space:
  assumes "\<And>l. q \<noteq> InLiteral l"
  shows "scan_eof (q, st) \<longleftrightarrow> scan_step D (q, st) (CHR '' '') = Some (EndValue, [])"
proof -
  have e: "end_value st (CHR '' '') = Some (EndValue, []) \<longleftrightarrow> st = []" for st
    by (cases "(st, CHR '' '')" rule: end_value.cases) (auto simp: is_space_def)
  show ?thesis using assms
    by (cases q) (auto simp: scan_eof_def at_number_end_def e begin_value_def begin_string_def at0_def at_esign_def
        is_space_def is_digit_def ch_def is_hex_def)
qed

lemma eof_ends_at: "scan_eof q \<Longrightarrow> closes c \<Longrightarrow> ends_at D q c"
  by (cases q) (auto simp: scan_eof_def ends_at_def at_number_end_def at0_def)

lemma take_value_extend:
  "take_value D q x = Some (x, []) \<Longrightarrow> closes c \<Longrightarrow> take_value D q (x @ c # r) = Some (x, c # r)"
  by (induction D q x rule: take_value.induct) (auto simp: eof_ends_at split: if_splits option.splits)

lemma json_text_nonempty: "json_text D x \<Longrightarrow> x \<noteq> []"
  using take_value_nonempty by (auto simp: json_text_def)

lemma skip_space_head: "x \<noteq> [] \<Longrightarrow> skip_space x = x \<Longrightarrow> skip_space (x @ y) = x @ y"
proof (cases x)
  case (Cons a as)
  assume "skip_space x = x"
  then have "\<not> is_space a" using Cons skip_space_Cons_shorter [of "as" a "as"] by (auto simp: skip_space_def split: if_splits)
  then show ?thesis using Cons by (simp add: skip_space_def)
qed simp

lemma next_value_text:
  assumes "json_text D x" "closes c"
  shows "next_value D (x @ c # r) = Some (x, c # r)"
  using assms json_text_nonempty [of D x] by (simp add: next_value_def json_text_def skip_space_head take_value_extend)

lemma raw_list_join:
  assumes "xs \<noteq> []" "\<forall>x\<in>set xs. json_text D x"
  shows "raw_list D (join '','' xs @ '']'' @ r) = Some xs"
  using assms
proof (induction xs rule: list_nonempty_induct)
  case (single x)
  then show ?case using next_value_text [of D x "CHR '']''" r]
    by (simp add: raw_list.simps closes_def skip_space_def is_space_def)
next
  case (cons x xs)
  have "raw_list D (x @ CHR '','' # join '','' xs @ '']'' @ r) = Some (x # xs)"
    using cons next_value_text [of D x "CHR '',''" "join '','' xs @ '']'' @ r"]
    by (subst raw_list.simps) (simp add: closes_def skip_space_def is_space_def)
  then show ?case using cons by (cases xs) simp_all
qed

text \<open>
  A value inside an array: the machine runs as it does at the top level, with the array at the bottom of its stack and one
  level of nesting less to go.
\<close>

lemma end_value_under:
  "st \<noteq> [] \<Longrightarrow> end_value st c = Some (q1, st1) \<Longrightarrow> end_value (st @ [b]) c = Some (q1, st1 @ [b])"
  by (cases "(st, c)" rule: end_value.cases) (auto split: if_splits)

lemma step_under:
  assumes "scan_step D (q, st) c = Some (q1, st1)" "\<not> ends_at D (q, st) c" "q = BeginStringOrEmpty \<or> q = BeginValueOrEmpty \<longrightarrow> st \<noteq> []"
  shows "scan_step (Suc D) (q, st @ [b]) c = Some (q1, st1 @ [b])"
proof -
  have e: "end_value (st @ [b]) c = Some (q1, st1 @ [b])" if "end_value st c = Some (q1, st1)" "st \<noteq> []"
    using end_value_under that by blast
  show ?thesis
  proof (cases "st = []")
    case True
    then show ?thesis using assms
      by (cases q) (auto simp: ends_at_def at_number_end_def begin_value_def begin_string_def at0_def at_esign_def scan_push_def
          split: if_splits nat.splits list.splits)
  next
    case False
    then have "end_value (ObjectValue # tl st @ [b]) c = Some (q1, st1 @ [b])" if "end_value (ObjectValue # tl st) c = Some (q1, st1)"
      using end_value_under [of "ObjectValue # tl st" c q1 st1 b] that by simp
    then show ?thesis using assms False e
      by (cases q) (auto simp: begin_value_def begin_string_def at0_def at_esign_def scan_push_def
          split: if_splits nat.splits list.splits)
  qed
qed

definition opened :: "scanner \<Rightarrow> bool" where
  "opened q = (fst q \<in> {BeginStringOrEmpty, BeginValueOrEmpty} \<longrightarrow> snd q \<noteq> [])"

lemma end_value_state: "end_value st c = Some (q1, st1) \<Longrightarrow> q1 \<in> {EndValue, BeginValue, BeginString}"
  by (cases "(st, c)" rule: end_value.cases) (auto split: if_splits)

lemma step_opened:
  assumes "scan_step D (q, st) c = Some (q1, st1)" "opened (q, st)"
  shows "opened (q1, st1)"
proof -
  have e: "opened (q1, st1)" if "end_value st' c = Some (q1, st1)" for st'
    using end_value_state [OF that] by (auto simp: opened_def)
  show ?thesis
    using assms e [of st] e [of "ObjectValue # tl st"]
    by (cases q) (auto simp: opened_def begin_value_def begin_string_def at0_def at_esign_def scan_push_def
        split: if_splits nat.splits list.splits)
qed

lemma run_under:
  "take_value D q x = Some (x, []) \<Longrightarrow> opened q \<Longrightarrow>
   \<exists>q1. scan_run (Suc D) (fst q, snd q @ [b]) x = Some (q1, [b]) \<and> scan_eof (q1, [])"
proof (induction D q x rule: take_value.induct)
  case (1 D q)
  then show ?case by (cases q) (auto simp: scan_eof_def split: if_splits)
next
  case (2 D q c cs)
  obtain a st where q: "q = (a, st)" by (cases q)
  have n: "\<not> ends_at D q c" using "2.prems"(1) by (auto split: if_splits)
  with "2.prems"(1) obtain a1 st1 where s: "scan_step D q c = Some (a1, st1)"
    by (auto split: option.splits)
  then have t: "take_value D (a1, st1) cs = Some (cs, [])" using "2.prems"(1) n by (auto split: option.splits)
  have o: "opened (a1, st1)" using step_opened s "2.prems"(2) q by blast
  have "scan_step (Suc D) (a, st @ [b]) c = Some (a1, st1 @ [b])"
    using step_under s n "2.prems"(2) q by (auto simp: opened_def)
  then show ?case using "2.IH" [OF n s t o] q by simp
qed

lemma scan_run_append: "scan_run D q (x @ y) = (case scan_run D q x of None \<Rightarrow> None | Some q1 \<Rightarrow> scan_run D q1 y)"
  by (induction D q x rule: scan_run.induct) (auto split: option.split)

lemma eof_separator: "scan_eof (q, []) \<Longrightarrow> scan_step D (q, [ArrayValue]) (CHR '','') = Some (BeginValue, [ArrayValue])"
  "scan_eof (q, []) \<Longrightarrow> scan_step D (q, [ArrayValue]) (CHR '']'') = Some (EndValue, [])"
  by (auto simp: scan_eof_def at_number_end_def at0_def is_digit_def ch_def is_space_def)

lemma run_join:
  assumes "xs \<noteq> []" "\<forall>x\<in>set xs. json_text D x"
  shows "scan_run (Suc D) (BeginValue, [ArrayValue]) (join '','' xs @ '']'') = Some (EndValue, [])"
  using assms
proof (induction xs rule: list_nonempty_induct)
  case (single x)
  then obtain q1 where "scan_run (Suc D) (BeginValue, [ArrayValue]) x = Some (q1, [ArrayValue])" "scan_eof (q1, [])"
    using run_under [of D "(BeginValue, [])" x ArrayValue] by (auto simp: json_text_def opened_def)
  then show ?case by (simp add: scan_run_append eof_separator)
next
  case (cons x xs)
  then obtain q1 where "scan_run (Suc D) (BeginValue, [ArrayValue]) x = Some (q1, [ArrayValue])" "scan_eof (q1, [])"
    using run_under [of D "(BeginValue, [])" x ArrayValue] by (auto simp: json_text_def opened_def)
  then have "scan_run (Suc D) (BeginValue, [ArrayValue]) (x @ '','' @ join '','' xs @ '']'') = Some (EndValue, [])"
    using cons by (simp add: scan_run_append eof_separator)
  then show ?case using cons by (cases xs) simp_all
qed

text \<open>A deeper bound accepts at least as much.\<close>

lemma step_deeper: "scan_step D q c = Some q1 \<Longrightarrow> scan_step (Suc D) q c = Some q1"
  by (cases "(D, q, c)" rule: scan_step.cases) (auto simp: begin_value_def scan_push_def split: if_splits)

lemma ends_at_deeper: "ends_at (Suc D) q c = ends_at D q c"
  by (cases "(D, q, c)" rule: scan_step.cases) (auto simp: ends_at_def at_number_end_def)

lemma take_value_deeper: "take_value D q s = Some vr \<Longrightarrow> take_value (Suc D) q s = Some vr"
  by (induction D q s arbitrary: vr rule: take_value.induct)
    (auto simp: ends_at_deeper dest: step_deeper split: if_splits option.splits)

lemma json_text_deeper: "json_text D x \<Longrightarrow> json_text (Suc D) x"
  by (simp add: json_text_def take_value_deeper)

text \<open>The text of an array of values is valid, and its raw elements are those values, byte for byte.\<close>

definition array_text :: "string list \<Rightarrow> string" where
  "array_text xs = ''['' @ join '','' xs @ '']''"

lemma json_text_first: "json_text D (c # x) \<Longrightarrow> \<not> closes c"
proof
  assume a: "json_text D (c # x)" "closes c"
  then have "\<not> is_space c" using skip_space_Cons_shorter [of x c x] by (auto simp: json_text_def skip_space_def)
  moreover have "begin_value D [] c = None" if "\<not> is_space c"
    using that a(2) closes_not_number(1) [OF a(2)] by (auto simp: closes_def begin_value_def)
  ultimately show False using a(1) by (simp add: json_text_def ends_at_def at_number_end_def)
qed

lemma first_not_bracket:
  assumes "xs \<noteq> []" "\<forall>x\<in>set xs. json_text D x"
  shows "scan_step E (BeginValueOrEmpty, st) (hd (join '','' xs)) = scan_step E (BeginValue, st) (hd (join '','' xs))"
    "skip_space (join '','' xs @ y) = join '','' xs @ y" "hd (join '','' xs) \<noteq> CHR '']''" "join '','' xs \<noteq> []"
proof -
  obtain c x where x: "hd xs = c # x" using assms json_text_nonempty by (cases "hd xs") (auto intro: list.set_sel)
  then obtain r where j: "join '','' xs = c # r" using assms(1) by (cases xs; cases "tl xs") auto
  have c: "\<not> closes c" using assms x json_text_first by (metis list.set_sel(1))
  then show "scan_step E (BeginValueOrEmpty, st) (hd (join '','' xs)) = scan_step E (BeginValue, st) (hd (join '','' xs))"
    "skip_space (join '','' xs @ y) = join '','' xs @ y" "hd (join '','' xs) \<noteq> CHR '']''" "join '','' xs \<noteq> []"
    using j by (auto simp: closes_def skip_space_def)
qed

lemma checkValid_array:
  assumes "\<forall>x\<in>set xs. json_text (maxNestingDepth - 1) x"
  shows "checkValid (array_text xs)"
proof (cases "xs = []")
  case True
  then show ?thesis by (simp add: checkValid_def array_text_def begin_value_def is_space_def scan_push_def maxNestingDepth_def scan_eof_def)
next
  case False
  have D: "Suc (maxNestingDepth - 1) = maxNestingDepth" by (simp add: maxNestingDepth_def)
  obtain c r where j: "join '','' xs = c # r" using first_not_bracket(4) [OF False assms] by (cases "join '','' xs") auto
  have "scan_run maxNestingDepth (BeginValueOrEmpty, [ArrayValue]) (join '','' xs @ '']'') = Some (EndValue, [])"
    using run_join [OF False assms, unfolded D] first_not_bracket(1) [OF False assms, of maxNestingDepth "[ArrayValue]"]
    by (simp add: j)
  moreover have "scan_step maxNestingDepth (BeginValue, []) (CHR ''['') = Some (BeginValueOrEmpty, [ArrayValue])"
    by (simp add: begin_value_def is_space_def scan_push_def maxNestingDepth_def)
  ultimately show ?thesis by (simp add: checkValid_def array_text_def scan_eof_def)
qed

lemma unmarshal_raws_array:
  assumes "\<forall>x\<in>set xs. json_text (maxNestingDepth - 1) x"
  shows "unmarshal_raws (array_text xs) = Some xs"
proof -
  have D: "Suc (maxNestingDepth - 1) = maxNestingDepth" by (simp add: maxNestingDepth_def)
  show ?thesis
  proof (cases "xs = []")
    case True
    then show ?thesis using checkValid_array [of "[]"] by (simp add: unmarshal_raws_def array_text_def skip_space_def is_space_def)
  next
    case False
    have "\<forall>x\<in>set xs. json_text maxNestingDepth x" using assms json_text_deeper D by metis
    then have "raw_list maxNestingDepth (join '','' xs @ '']'') = Some xs"
      using raw_list_join [OF False, of maxNestingDepth "[]"] by simp
    moreover have "take 1 (skip_space (join '','' xs @ '']'')) \<noteq> '']''"
      using first_not_bracket(2-4) [OF False assms] by (cases "join '','' xs") auto
    ultimately show ?thesis using checkValid_array [OF assms]
      by (simp add: unmarshal_raws_def array_text_def skip_space_def is_space_def)
  qed
qed

text \<open>Values one after another, each followed by a space of any kind.\<close>

lemma decoder_values_lines:
  assumes "\<forall>x\<in>set xs. json_text D x" "is_space c"
  shows "decoder_values D (concat (map (\<lambda>x. x @ [c]) xs)) = Some xs"
  using assms(1)
proof (induction xs)
  case Nil
  then show ?case by (simp add: decoder_values.simps skip_space_def)
next
  case (Cons x xs)
  obtain a y where x: "x = a # y" using Cons.prems json_text_nonempty by (cases x) auto
  have "\<not> closes a" using Cons.prems x json_text_first by auto
  moreover have "decoder_values D (c # concat (map (\<lambda>x. x @ [c]) xs)) = decoder_values D (concat (map (\<lambda>x. x @ [c]) xs))"
  proof -
    have "skip_space (c # y) = skip_space y" "next_value D (c # y) = next_value D y" for y
      using assms(2) by (simp_all add: skip_space_def next_value_def)
    then show ?thesis by (subst (1 2) decoder_values.simps) (simp split: list.split)
  qed
  ultimately show ?case using Cons next_value_text [of D x c "concat (map (\<lambda>x. x @ [c]) xs)"] assms(2) x
    by (subst decoder_values.simps) (simp add: closes_def skip_space_def)
qed

text \<open>A closing bracket between the values ends the loop without an error, whatever comes after it.\<close>

lemma decoder_stops_at_bracket:
  assumes "json_text D x" "c = CHR '']'' \<or> c = CHR ''}''"
  shows "decoder_values D (x @ c # r) = Some [x]"
proof -
  obtain a y where x: "x = a # y" using assms(1) json_text_nonempty by (cases x) auto
  have "\<not> closes a" using assms(1) x json_text_first by auto
  moreover have "decoder_values D (c # r) = Some []" using assms(2) by (auto simp: decoder_values.simps skip_space_def is_space_def)
  ultimately show ?thesis using next_value_text [OF assms(1), of c r] assms(2) x
    by (subst decoder_values.simps) (auto simp: closes_def skip_space_def)
qed

end
