(* ===== verification/Go_Base64.thy ===== *)
theory Go_Base64
  imports Go_Prelude
begin

text \<open>
  The two encodings of \<^verbatim>\<open>encoding/base64\<close> the HTTP adapters use: \<^verbatim>\<open>StdEncoding\<close>, with padding, and
  \<^verbatim>\<open>RawURLEncoding\<close>, without. The decoder is the library's: it skips line ends, wants the padding exactly where it
  belongs and nothing after it, and does not look at the bits of the last digit that no byte uses. The encoder is the
  reference the round trip is stated against.
\<close>

record encoding =
  enc_alphabet :: string
  enc_padded :: bool

definition StdEncoding :: encoding where
  "StdEncoding = \<lparr> enc_alphabet = ''ABCDEFGHIJKLMNOPQRSTUVWXYZabcdefghijklmnopqrstuvwxyz0123456789+/'', enc_padded = True \<rparr>"

definition RawURLEncoding :: encoding where
  "RawURLEncoding = \<lparr> enc_alphabet = ''ABCDEFGHIJKLMNOPQRSTUVWXYZabcdefghijklmnopqrstuvwxyz0123456789-_'', enc_padded = False \<rparr>"

fun index_in :: "'a list \<Rightarrow> 'a \<Rightarrow> nat option" where
  "index_in [] x = None"
| "index_in (y # ys) x = (if x = y then Some 0 else map_option Suc (index_in ys x))"

definition b64_digit :: "encoding \<Rightarrow> char \<Rightarrow> nat option" where
  "b64_digit E c = index_in (enc_alphabet E) c"

definition b64_char :: "encoding \<Rightarrow> nat \<Rightarrow> char" where
  "b64_char E i = enc_alphabet E ! i"

text \<open>Four digits as three bytes, and three bytes as four digits.\<close>

definition quad_bytes :: "nat \<Rightarrow> nat \<Rightarrow> nat \<Rightarrow> nat \<Rightarrow> string" where
  "quad_bytes x y z w =
     [char_of (x * 4 + y div 16), char_of (y mod 16 * 16 + z div 4), char_of (z mod 4 * 64 + w)]"

definition byte_quad :: "nat \<Rightarrow> nat \<Rightarrow> nat \<Rightarrow> nat list" where
  "byte_quad a b c = [a div 4, a mod 4 * 16 + b div 16, b mod 16 * 4 + c div 64, c mod 64]"

fun b64_quanta :: "encoding \<Rightarrow> string \<Rightarrow> string option" where
  "b64_quanta E [] = Some []"
| "b64_quanta E [a] = None"
| "b64_quanta E [a, b] =
     (case (enc_padded E, b64_digit E a, b64_digit E b) of
        (False, Some x, Some y) \<Rightarrow> Some (take 1 (quad_bytes x y 0 0))
      | _ \<Rightarrow> None)"
| "b64_quanta E [a, b, c] =
     (case (enc_padded E, b64_digit E a, b64_digit E b, b64_digit E c) of
        (False, Some x, Some y, Some z) \<Rightarrow> Some (take 2 (quad_bytes x y z 0))
      | _ \<Rightarrow> None)"
| "b64_quanta E (a # b # c # d # r) =
     (case (b64_digit E a, b64_digit E b) of
        (Some x, Some y) \<Rightarrow>
          (case b64_digit E c of
             Some z \<Rightarrow>
               (case b64_digit E d of
                  Some w \<Rightarrow> map_option (append (quad_bytes x y z w)) (b64_quanta E r)
                | None \<Rightarrow> if enc_padded E \<and> d = CHR ''='' \<and> r = [] then Some (take 2 (quad_bytes x y z 0)) else None)
           | None \<Rightarrow> if enc_padded E \<and> c = CHR ''='' \<and> d = CHR ''='' \<and> r = [] then Some (take 1 (quad_bytes x y 0 0))
               else None)
      | _ \<Rightarrow> None)"

definition line_end :: "char \<Rightarrow> bool" where
  "line_end c = (c = CHR 0x0A \<or> c = CHR 0x0D)"

definition DecodeString :: "encoding \<Rightarrow> string \<Rightarrow> string option" where
  "DecodeString E s = b64_quanta E (filter (\<lambda>c. \<not> line_end c) s)"

definition b64_tail :: "encoding \<Rightarrow> nat \<Rightarrow> string" where
  "b64_tail E n = (if enc_padded E then replicate n (CHR ''='') else [])"

fun EncodeToString :: "encoding \<Rightarrow> string \<Rightarrow> string" where
  "EncodeToString E [] = []"
| "EncodeToString E [a] = map (b64_char E) (take 2 (byte_quad (of_char a) 0 0)) @ b64_tail E 2"
| "EncodeToString E [a, b] = map (b64_char E) (take 3 (byte_quad (of_char a) (of_char b) 0)) @ b64_tail E 1"
| "EncodeToString E (a # b # c # r) =
     map (b64_char E) (byte_quad (of_char a) (of_char b) (of_char c)) @ EncodeToString E r"

section \<open>Round trip\<close>

text \<open>An alphabet of 64 distinct characters, neither line ends nor the padding.\<close>

definition enc_ok :: "encoding \<Rightarrow> bool" where
  "enc_ok E = (length (enc_alphabet E) = 64 \<and> distinct (enc_alphabet E) \<and>
     list_all (\<lambda>c. \<not> line_end c \<and> c \<noteq> CHR ''='') (enc_alphabet E))"

lemma enc_ok_Std [simp]: "enc_ok StdEncoding"
  by code_simp

lemma enc_ok_RawURL [simp]: "enc_ok RawURLEncoding"
  by code_simp

lemma index_in_nth: "distinct xs \<Longrightarrow> i < length xs \<Longrightarrow> index_in xs (xs ! i) = Some i"
proof (induction xs arbitrary: i)
  case (Cons x xs)
  then show ?case by (cases i) (auto simp: nth_mem)
qed simp

lemma index_in_None: "x \<notin> set xs \<Longrightarrow> index_in xs x = None"
  by (induction xs) auto

lemma b64_digit_char: "enc_ok E \<Longrightarrow> i < 64 \<Longrightarrow> b64_digit E (b64_char E i) = Some i"
  by (simp add: b64_digit_def b64_char_def enc_ok_def index_in_nth)

lemma b64_digit_pad: "enc_ok E \<Longrightarrow> b64_digit E (CHR ''='') = None"
  by (auto simp: b64_digit_def enc_ok_def list_all_iff intro: index_in_None)

lemma b64_char_plain: "enc_ok E \<Longrightarrow> i < 64 \<Longrightarrow> \<not> line_end (b64_char E i)"
  by (simp add: b64_char_def enc_ok_def list_all_iff)

lemma of_char_lt [simp]: "of_char (c :: char) < (256 :: nat)"
  using nat_of_char_less_256 [of c] by simp

lemma quad_lt [simp]:
  fixes a b :: nat
  shows "b < 256 \<Longrightarrow> b div 4 < 64" "b < 256 \<Longrightarrow> a mod 4 * 16 + b div 16 < 64" "b < 256 \<Longrightarrow> a mod 16 * 4 + b div 64 < 64"
proof -
  assume b: "b < 256"
  have "a mod 4 < 4" "a mod 16 < 16" "b div 16 < 16" "b div 64 < 4" using b by (simp_all add: less_mult_imp_div_less)
  then show "a mod 4 * 16 + b div 16 < 64" "a mod 16 * 4 + b div 64 < 64" by linarith+
  show "b div 4 < 64" using b by (simp add: less_mult_imp_div_less)
qed

lemma byte_quad_lt: "a < 256 \<Longrightarrow> b < 256 \<Longrightarrow> c < 256 \<Longrightarrow> list_all (\<lambda>i. i < 64) (byte_quad a b c)"
  by (simp add: byte_quad_def)

lemma quad_round_trip:
  assumes "a < 256" "b < 256" "c < 256"
  shows "a div 4 * 4 + (a mod 4 * 16 + b div 16) div 16 = a"
    "(a mod 4 * 16 + b div 16) mod 16 * 16 + (b mod 16 * 4 + c div 64) div 4 = b"
    "(b mod 16 * 4 + c div 64) mod 4 * 64 + c mod 64 = (c :: nat)"
proof -
  have "b div 16 < 16" "c div 64 < 4" using assms by (simp_all add: less_mult_imp_div_less)
  then show "a div 4 * 4 + (a mod 4 * 16 + b div 16) div 16 = a"
    "(a mod 4 * 16 + b div 16) mod 16 * 16 + (b mod 16 * 4 + c div 64) div 4 = b"
    "(b mod 16 * 4 + c div 64) mod 4 * 64 + c mod 64 = (c :: nat)"
    using div_mult_mod_eq [of a 4] div_mult_mod_eq [of b 16] div_mult_mod_eq [of c 64] by simp_all
qed

lemma quad_bytes_quad:
  "quad_bytes (of_char a div 4) (of_char a mod 4 * 16 + of_char b div 16) (of_char b mod 16 * 4 + of_char c div 64)
     (of_char c mod 64) = [a, b, c]"
  using quad_round_trip [of "of_char a" "of_char b" "of_char c"] by (simp add: quad_bytes_def)

lemma encoded_plain: "enc_ok E \<Longrightarrow> list_all (\<lambda>c. \<not> line_end c) (EncodeToString E s)"
  by (induction E s rule: EncodeToString.induct)
    (simp_all add: byte_quad_def b64_char_plain b64_tail_def line_end_def [of "CHR ''=''"] numeral_3_eq_3 numeral_2_eq_2)

lemma quanta_encoded: "enc_ok E \<Longrightarrow> b64_quanta E (EncodeToString E s) = Some s"
proof (induction E s rule: EncodeToString.induct)
  case (1 E)
  show ?case by simp
next
  case (2 E a)
  have "take 1 (quad_bytes (of_char a div 4) (of_char a mod 4 * 16) 0 0) = [a]"
    using quad_round_trip(1) [of "of_char a" 0 0] by (simp add: quad_bytes_def)
  then show ?case using 2
    by (simp add: byte_quad_def b64_tail_def b64_digit_char b64_digit_pad numeral_2_eq_2)
next
  case (3 E a b)
  have "take 2 (quad_bytes (of_char a div 4) (of_char a mod 4 * 16 + of_char b div 16) (of_char b mod 16 * 4) 0) = [a, b]"
    using quad_round_trip(1,2) [of "of_char a" "of_char b" 0] by (simp add: quad_bytes_def)
  then show ?case using 3
    by (simp add: byte_quad_def b64_tail_def b64_digit_char b64_digit_pad numeral_3_eq_3)
next
  case (4 E a b c r)
  have "list_all (\<lambda>i. i < 64) (byte_quad (of_char a) (of_char b) (of_char c))" by (intro byte_quad_lt) simp_all
  then show ?case using 4 quad_bytes_quad [of a b c] by (simp add: byte_quad_def b64_digit_char)
qed

theorem base64_round_trip: "enc_ok E \<Longrightarrow> DecodeString E (EncodeToString E s) = Some s"
  using quanta_encoded [of E s] encoded_plain [of E s] by (simp add: DecodeString_def list_all_iff filter_id_conv)

text \<open>Line ends in an encoded text change nothing.\<close>

lemma decode_ignores_line_ends:
  "filter (\<lambda>c. \<not> line_end c) s = filter (\<lambda>c. \<not> line_end c) t \<Longrightarrow> DecodeString E s = DecodeString E t"
  by (simp add: DecodeString_def)

text \<open>The unpadded decoder refuses padding, so padded data that ends in it is an error.\<close>

lemma raw_refuses_padding: "DecodeString RawURLEncoding (EncodeToString StdEncoding [a]) = None"
proof -
  have "index_in ''ABCDEFGHIJKLMNOPQRSTUVWXYZabcdefghijklmnopqrstuvwxyz0123456789-_'' (CHR ''='') = None" by code_simp
  then have d: "b64_digit RawURLEncoding (CHR ''='') = None" by (simp add: b64_digit_def RawURLEncoding_def)
  have "\<not> line_end (b64_char StdEncoding (of_char a div 4))" "\<not> line_end (b64_char StdEncoding (of_char a mod 4 * 16))"
    using of_char_lt [of a] by (intro b64_char_plain; simp; linarith)+
  then show ?thesis
    by (simp add: DecodeString_def byte_quad_def b64_tail_def StdEncoding_def RawURLEncoding_def line_end_def d [unfolded RawURLEncoding_def]
        numeral_2_eq_2 split: option.split)
qed

end
