(* ===== verification/Http_Adapters.thy ===== *)
theory Http_Adapters
  imports Json_Scan Go_Base64 Plugin_Registry
begin

text \<open>
  The protocol adapters of the HTTP source, \<^verbatim>\<open>pkg/source/http/adapters\<close>: each turns the body of a request into log
  records and writes the acknowledgement its protocol wants. The adapters are one datatype with the constructors of the
  package, \<open>adapter_Decode\<close> and \<open>adapter_WriteAck\<close> dispatch as the interface does, and the registry is filled by the
  \<^verbatim>\<open>init\<close> functions in the order of the files.

  Bodies and records are byte strings. What the library is asked for beyond \<open>textlib\<close> is in \<open>weblib\<close>. Of an error the
  adapter that reports it is kept. A member that occurs twice in an object is decoded twice, an array from the start each
  time.
\<close>

section \<open>Library\<close>

text \<open>
  \<open>wl_format_f\<close> is \<^verbatim>\<open>strconv.FormatFloat(x, 'f', -1, 64)\<close>. \<open>wl_gunzip\<close> is a gzip stream: \<^verbatim>\<open>None\<close> when its header is
  refused, otherwise the bytes it yields and whether it ends without an error. \<open>wl_url\<close> is \<^verbatim>\<open>url.Parse\<close>.
  \<open>wl_verify\<close> is \<^verbatim>\<open>rsa.VerifyPKCS1v15\<close> on the SHA-256 of a text: modulus, exponent, text and signature.
\<close>

record url =
  u_Scheme :: string
  u_Hostname :: string
  u_Port :: string
  u_Path :: string
  u_RawQuery :: string

record weblib =
  wl_text :: textlib
  wl_format_f :: "f64 \<Rightarrow> string"
  wl_gunzip :: "string \<Rightarrow> (string \<times> bool) option"
  wl_url :: "string \<Rightarrow> url option"
  wl_verify :: "nat \<Rightarrow> nat \<Rightarrow> string \<Rightarrow> string \<Rightarrow> bool"

definition weblib0 :: weblib where
  "weblib0 = \<lparr> wl_text = textlib0, wl_format_f = (\<lambda>x. ''0''), wl_gunzip = (\<lambda>s. Some (s, True)),
     wl_url = (\<lambda>s. None), wl_verify = (\<lambda>n e t s. False) \<rparr>"

section \<open>Records and helpers\<close>

record EnvelopeRecord =
  er_RawLine :: string
  er_Timestamp :: i64
  er_Metadata :: "(string \<rightharpoonup> string) option"

definition raw_record :: "string \<Rightarrow> EnvelopeRecord" where
  "raw_record line = \<lparr> er_RawLine = line, er_Timestamp = 0, er_Metadata = None \<rparr>"

datatype ts_error = BadTimestamp string string | TimestampOutOfRange f64 | UnknownTimestampKind string

text \<open>The doubles \<^verbatim>\<open>float64(math.MaxInt64)/1e9\<close>, \<^verbatim>\<open>float64(math.MinInt64)/1e9\<close> and \<^verbatim>\<open>1e9\<close>.\<close>

definition maxUnixFloatSec :: f64 where "maxUnixFloatSec = 0x42012E0BE826D695"
definition minUnixFloatSec :: f64 where "minUnixFloatSec = 0xC2012E0BE826D695"
definition float_1e9 :: f64 where "float_1e9 = 0x41CDCD6500000000"

definition time_UnixNano :: "gotime \<Rightarrow> i64" where
  "time_UnixNano t = word_of_int (t_ns t)"

definition rfc3339 :: string where "rfc3339 = ''2006-01-02T15:04:05Z07:00''"

definition unix_float :: "golib \<Rightarrow> string \<Rightarrow> ts_error + i64" where
  "unix_float L val =
     (case lib_parse_float L val of
        None \<Rightarrow> Inl (BadTimestamp ''unix_float'' val)
      | Some f \<Rightarrow>
          if f_lt maxUnixFloatSec f \<or> f_lt f minUnixFloatSec then Inl (TimestampOutOfRange f)
          else Inr (float_to_int64 L (f_mul f float_1e9)))"

definition normalizeTimestamp :: "golib \<Rightarrow> string \<Rightarrow> string \<Rightarrow> ts_error + i64" where
  "normalizeTimestamp L val kind =
     (if kind = ''unix_ns'' then
        (case ParseInt val of None \<Rightarrow> Inl (BadTimestamp ''unix_ns'' val) | Some n \<Rightarrow> Inr n)
      else if kind = ''unix_ns_str'' then
        (case ParseInt val of None \<Rightarrow> Inl (BadTimestamp ''unix_ns_str'' val) | Some n \<Rightarrow> Inr n)
      else if kind = ''unix_ms'' then
        (case ParseInt val of None \<Rightarrow> Inl (BadTimestamp ''unix_ms'' val) | Some n \<Rightarrow> Inr (n * 1000000))
      else if kind = ''rfc3339'' then
        (case lib_parse_time L rfc3339 val of
           None \<Rightarrow> Inl (BadTimestamp ''rfc3339'' val)
         | Some t \<Rightarrow> Inr (time_UnixNano t))
      else if kind = ''unix_float'' then unix_float L val
      else Inl (UnknownTimestampKind kind))"

text \<open>\<^verbatim>\<open>ts, _ = normalizeTimestamp(..)\<close>: the value beside an error is 0.\<close>

definition best_effort :: "'e + i64 \<Rightarrow> i64" where
  "best_effort r = (case r of Inl _ \<Rightarrow> 0 | Inr n \<Rightarrow> n)"

definition copyMap :: "(string \<rightharpoonup> string) option \<Rightarrow> (string \<rightharpoonup> string) option" where
  "copyMap m = (case m of None \<Rightarrow> None | Some f \<Rightarrow> Some (\<lambda>k. case f k of None \<Rightarrow> None | Some v \<Rightarrow> Some v))"

section \<open>Decoding into the wire types\<close>

text \<open>Slices of a type that is zero before, maps of strings, and pointers to scalars.\<close>

definition dec_slice :: "(json \<Rightarrow> 'a \<times> bool) \<Rightarrow> json \<Rightarrow> 'a list \<Rightarrow> 'a list \<times> bool" where
  "dec_slice d j old =
     (case j of
        JArr js \<Rightarrow> (map (fst \<circ> d) js, list_ex (snd \<circ> d) js)
      | JNull \<Rightarrow> ([], False)
      | _ \<Rightarrow> (old, True))"

definition dec_text :: "json \<Rightarrow> string \<Rightarrow> string \<times> bool" where
  "dec_text j old = (case j of JStr s \<Rightarrow> (s, False) | JNull \<Rightarrow> (old, False) | _ \<Rightarrow> (old, True))"

fun dec_pairs :: "(string \<times> json) list \<Rightarrow> (string \<rightharpoonup> string) \<Rightarrow> (string \<rightharpoonup> string) \<times> bool" where
  "dec_pairs [] m = (m, False)"
| "dec_pairs ((k, j) # ms) m =
     (case dec_text j [] of (v, e) \<Rightarrow> (case dec_pairs ms (m(k \<mapsto> v)) of (m1, e1) \<Rightarrow> (m1, e \<or> e1)))"

definition dec_strmap :: "json \<Rightarrow> (string \<rightharpoonup> string) option \<Rightarrow> (string \<rightharpoonup> string) option \<times> bool" where
  "dec_strmap j old =
     (case j of
        JObj ms \<Rightarrow> (case dec_pairs ms (case old of None \<Rightarrow> Map.empty | Some m \<Rightarrow> m) of (m, e) \<Rightarrow> (Some m, e))
      | JNull \<Rightarrow> (None, False)
      | _ \<Rightarrow> (old, True))"

definition dec_int_ptr :: "json \<Rightarrow> i64 option \<Rightarrow> i64 option \<times> bool" where
  "dec_int_ptr j old =
     (case j of
        JNum n \<Rightarrow> (case ParseInt n of Some v \<Rightarrow> (Some v, False) | None \<Rightarrow> (old, True))
      | JNull \<Rightarrow> (None, False)
      | _ \<Rightarrow> (old, True))"

definition dec_float_ptr :: "golib \<Rightarrow> json \<Rightarrow> f64 option \<Rightarrow> f64 option \<times> bool" where
  "dec_float_ptr L j old =
     (case j of
        JNum n \<Rightarrow> (case lib_parse_float L n of Some v \<Rightarrow> (Some v, False) | None \<Rightarrow> (old, True))
      | JNull \<Rightarrow> (None, False)
      | _ \<Rightarrow> (old, True))"

definition dec_bool_ptr :: "json \<Rightarrow> bool option \<Rightarrow> bool option \<times> bool" where
  "dec_bool_ptr j old = (case j of JBool b \<Rightarrow> (Some b, False) | JNull \<Rightarrow> (None, False) | _ \<Rightarrow> (old, True))"

text \<open>A decoder for the type of a field as a decoder for the field.\<close>

definition at_field :: "('r \<Rightarrow> 'a) \<Rightarrow> ('a \<Rightarrow> 'r \<Rightarrow> 'r) \<Rightarrow> (json \<Rightarrow> 'a \<Rightarrow> 'a \<times> bool) \<Rightarrow> 'r field_decoder" where
  "at_field get upd d j r = (case d j (get r) of (v, e) \<Rightarrow> (upd v r, e))"

subsection \<open>Wire types\<close>

definition firehose_data :: "textlib \<Rightarrow> json \<Rightarrow> string \<times> bool" where
  "firehose_data T j = decode_struct T [(''data'', dec_string (\<lambda>s _. s))] j []"

record firehoseBody =
  fb_Records :: "string list"

definition firehose_fields :: "textlib \<Rightarrow> (string \<times> firehoseBody field_decoder) list" where
  "firehose_fields T = [(''records'', at_field fb_Records (\<lambda>v r. r\<lparr>fb_Records := v\<rparr>) (dec_slice (firehose_data T)))]"

record pubSubMessage =
  pm_Data :: string
  pm_MessageID :: string

record pubSubBody =
  ps_Message :: pubSubMessage

definition pubSub0 :: pubSubBody where
  "pubSub0 = \<lparr> ps_Message = \<lparr> pm_Data = [], pm_MessageID = [] \<rparr> \<rparr>"

definition pubsub_fields :: "textlib \<Rightarrow> (string \<times> pubSubBody field_decoder) list" where
  "pubsub_fields T =
     [(''message'', at_field ps_Message (\<lambda>v r. r\<lparr>ps_Message := v\<rparr>)
        (decode_struct T
          [(''data'', dec_string (\<lambda>s r. r\<lparr>pm_Data := s\<rparr>)), (''messageId'', dec_string (\<lambda>s r. r\<lparr>pm_MessageID := s\<rparr>))]))]"

record lokiStream =
  lk_Stream :: "(string \<rightharpoonup> string) option"
  lk_Values :: "string list list"

record lokiPushRequest =
  lk_Streams :: "lokiStream list"

definition loki_stream :: "textlib \<Rightarrow> json \<Rightarrow> lokiStream \<times> bool" where
  "loki_stream T j =
     decode_struct T
       [(''stream'', at_field lk_Stream (\<lambda>v r. r\<lparr>lk_Stream := v\<rparr>) dec_strmap),
        (''values'', at_field lk_Values (\<lambda>v r. r\<lparr>lk_Values := v\<rparr>)
           (dec_slice (\<lambda>j. dec_slice (\<lambda>j. dec_text j []) j [])))]
       j \<lparr> lk_Stream = None, lk_Values = [] \<rparr>"

definition loki_fields :: "textlib \<Rightarrow> (string \<times> lokiPushRequest field_decoder) list" where
  "loki_fields T = [(''streams'', at_field lk_Streams (\<lambda>v r. r\<lparr>lk_Streams := v\<rparr>) (dec_slice (loki_stream T)))]"

record otlpAnyValue =
  av_String :: string
  av_Int :: "i64 option"
  av_Double :: "f64 option"
  av_Bool :: "bool option"

record otlpBody = otlpAnyValue +
  av_Bytes :: string

definition anyValue0 :: otlpAnyValue where
  "anyValue0 = \<lparr> av_String = [], av_Int = None, av_Double = None, av_Bool = None \<rparr>"

definition otlpBody0 :: otlpBody where
  "otlpBody0 = \<lparr> av_String = [], av_Int = None, av_Double = None, av_Bool = None, av_Bytes = [] \<rparr>"

definition any_value_fields :: "textlib \<Rightarrow> (string \<times> 'r otlpAnyValue_scheme field_decoder) list" where
  "any_value_fields T =
     [(''stringValue'', at_field av_String (\<lambda>v r. r\<lparr>av_String := v\<rparr>) dec_text),
      (''intValue'', at_field av_Int (\<lambda>v r. r\<lparr>av_Int := v\<rparr>) dec_int_ptr),
      (''doubleValue'', at_field av_Double (\<lambda>v r. r\<lparr>av_Double := v\<rparr>) (dec_float_ptr (tl_go T))),
      (''boolValue'', at_field av_Bool (\<lambda>v r. r\<lparr>av_Bool := v\<rparr>) dec_bool_ptr)]"

record otlpAttr =
  at_Key :: string
  at_Value :: otlpAnyValue

record logRecord =
  lr_TimeUnixNano :: string
  lr_Body :: otlpBody
  lr_Attributes :: "otlpAttr list"

definition otlp_attr :: "textlib \<Rightarrow> json \<Rightarrow> otlpAttr \<times> bool" where
  "otlp_attr T j =
     decode_struct T
       [(''key'', dec_string (\<lambda>s r. r\<lparr>at_Key := s\<rparr>)),
        (''value'', at_field at_Value (\<lambda>v r. r\<lparr>at_Value := v\<rparr>) (decode_struct T (any_value_fields T)))]
       j \<lparr> at_Key = [], at_Value = anyValue0 \<rparr>"

definition otlp_body :: "textlib \<Rightarrow> json \<Rightarrow> otlpBody \<Rightarrow> otlpBody \<times> bool" where
  "otlp_body T =
     decode_struct T (any_value_fields T @ [(''bytesValue'', dec_string (\<lambda>s r. r\<lparr>av_Bytes := s\<rparr>))])"

definition log_record :: "textlib \<Rightarrow> json \<Rightarrow> logRecord \<times> bool" where
  "log_record T j =
     decode_struct T
       [(''timeUnixNano'', dec_string (\<lambda>s r. r\<lparr>lr_TimeUnixNano := s\<rparr>)),
        (''body'', at_field lr_Body (\<lambda>v r. r\<lparr>lr_Body := v\<rparr>) (otlp_body T)),
        (''attributes'', at_field lr_Attributes (\<lambda>v r. r\<lparr>lr_Attributes := v\<rparr>) (dec_slice (otlp_attr T)))]
       j \<lparr> lr_TimeUnixNano = [], lr_Body = otlpBody0, lr_Attributes = [] \<rparr>"

text \<open>The three levels of the request, each a struct with one slice.\<close>

definition one_slice :: "textlib \<Rightarrow> string \<Rightarrow> (json \<Rightarrow> 'a \<times> bool) \<Rightarrow> json \<Rightarrow> 'a list \<times> bool" where
  "one_slice T name d j = decode_struct T [(name, dec_slice d)] j []"

definition otlpRequest :: "textlib \<Rightarrow> json \<Rightarrow> logRecord list list list \<times> bool" where
  "otlpRequest T =
     one_slice T ''resourceLogs'' (one_slice T ''scopeLogs'' (one_slice T ''logRecords'' (log_record T)))"

section \<open>The adapters\<close>

datatype adapter =
    AzureAdapter
  | CloudflareAdapter
  | FirehoseAdapter
  | GenericAdapter string bool
  | LokiAdapter
  | OTLPAdapter
  | PubSubAdapter
  | SplunkAdapter

datatype decode_error = DecodeError string

type_synonym decoded = "decode_error + EnvelopeRecord list"

subsection \<open>Lines\<close>

definition body_lines :: "string \<Rightarrow> string list" where
  "body_lines body = filter (\<lambda>l. l \<noteq> []) (map (\<lambda>l. TrimRight l [CHR 0x0D]) (split_on (CHR 0x0A) body))"

definition Cloudflare_Decode :: "string \<Rightarrow> decoded" where
  "Cloudflare_Decode body = Inr (map raw_record (body_lines body))"

text \<open>One line of NDJSON when a field is configured; a line without the field is kept whole.\<close>

definition ndjson_line :: "textlib \<Rightarrow> string \<Rightarrow> string \<Rightarrow> decode_error + EnvelopeRecord" where
  "ndjson_line T field line =
     (case unmarshal_raw_map T line of
        None \<Rightarrow> Inl (DecodeError ''ndjson'')
      | Some raw \<Rightarrow>
          (case map_get raw field of
             None \<Rightarrow> Inr (raw_record line)
           | Some val \<Rightarrow>
               (case unmarshal_string T val of
                  None \<Rightarrow> Inr (raw_record val)
                | Some s \<Rightarrow> Inr (raw_record s))))"

text \<open>The loops that stop at the first error.\<close>

fun decode_each :: "('a \<Rightarrow> decode_error + 'b) \<Rightarrow> 'a list \<Rightarrow> decode_error + 'b list" where
  "decode_each f [] = Inr []"
| "decode_each f (x # xs) =
     try_then (f x) (\<lambda>y. try_then (decode_each f xs) (\<lambda>ys. Inr (y # ys)))"

definition Generic_Decode :: "textlib \<Rightarrow> string \<Rightarrow> bool \<Rightarrow> string \<Rightarrow> decoded" where
  "Generic_Decode T field isNDJSON body =
     (if isNDJSON \<and> field \<noteq> [] then decode_each (ndjson_line T field) (body_lines body)
      else Inr (map raw_record (body_lines body)))"

subsection \<open>Cloud formats\<close>

definition Firehose_Decode :: "textlib \<Rightarrow> string \<Rightarrow> decoded" where
  "Firehose_Decode T body =
     (case unmarshal_struct T (firehose_fields T) body \<lparr> fb_Records = [] \<rparr> of
        (fb, err) \<Rightarrow>
          fail_if err (DecodeError ''firehose'')
            (decode_each
               (\<lambda>d. case DecodeString StdEncoding d of
                      None \<Rightarrow> Inl (DecodeError ''firehose: base64 decode'')
                    | Some line \<Rightarrow> Inr (raw_record line))
               (fb_Records fb)))"

definition PubSub_Decode :: "textlib \<Rightarrow> string \<Rightarrow> decoded" where
  "PubSub_Decode T body =
     (case unmarshal_struct T (pubsub_fields T) body pubSub0 of
        (ps, err) \<Rightarrow>
          fail_if err (DecodeError ''pubsub'')
            (case DecodeString RawURLEncoding (pm_Data (ps_Message ps)) of
               None \<Rightarrow> Inl (DecodeError ''pubsub: base64 decode'')
             | Some line \<Rightarrow>
                 Inr [\<lparr> er_RawLine = line, er_Timestamp = 0,
                        er_Metadata = Some [''messageId'' \<mapsto> pm_MessageID (ps_Message ps)] \<rparr>]))"

definition loki_records :: "lokiStream \<Rightarrow> EnvelopeRecord list" where
  "loki_records s =
     map (\<lambda>v. \<lparr> er_RawLine = v ! 1, er_Timestamp = ParseInt_value (v ! 0), er_Metadata = copyMap (lk_Stream s) \<rparr>)
       (filter (\<lambda>v. \<not> length v < 2) (lk_Values s))"

definition Loki_Decode :: "textlib \<Rightarrow> string \<Rightarrow> decoded" where
  "Loki_Decode T body =
     (case unmarshal_struct T (loki_fields T) body \<lparr> lk_Streams = [] \<rparr> of
        (req, err) \<Rightarrow> fail_if err (DecodeError ''loki'') (Inr (concat (map loki_records (lk_Streams req)))))"

definition FormatBool :: "bool \<Rightarrow> string" where
  "FormatBool b = (if b then ''true'' else ''false'')"

text \<open>The pointers in the order the code tries them.\<close>

definition formatOTLPAttrValue :: "weblib \<Rightarrow> 'r otlpAnyValue_scheme \<Rightarrow> string" where
  "formatOTLPAttrValue W v =
     (if av_String v \<noteq> [] then av_String v
      else case av_Int v of
             Some i \<Rightarrow> FormatInt (sint i)
           | None \<Rightarrow>
               (case av_Double v of
                  Some x \<Rightarrow> wl_format_f W x
                | None \<Rightarrow> (case av_Bool v of Some b \<Rightarrow> FormatBool b | None \<Rightarrow> [])))"

definition decodeOTLPBody :: "weblib \<Rightarrow> otlpBody \<Rightarrow> string" where
  "decodeOTLPBody W b =
     (if av_String b \<noteq> [] then av_String b
      else if av_Bytes b \<noteq> [] then
        (case DecodeString StdEncoding (av_Bytes b) of None \<Rightarrow> av_Bytes b | Some s \<Rightarrow> s)
      else case av_Int b of
             Some i \<Rightarrow> FormatInt (sint i)
           | None \<Rightarrow>
               (case av_Double b of
                  Some x \<Rightarrow> wl_format_f W x
                | None \<Rightarrow> (case av_Bool b of Some c \<Rightarrow> FormatBool c | None \<Rightarrow> [])))"

definition otlp_record :: "weblib \<Rightarrow> logRecord \<Rightarrow> EnvelopeRecord" where
  "otlp_record W lr =
     \<lparr> er_RawLine = decodeOTLPBody W (lr_Body lr),
       er_Timestamp = best_effort (normalizeTimestamp (tl_go (wl_text W)) (lr_TimeUnixNano lr) ''unix_ns_str''),
       er_Metadata =
         Some (fold (\<lambda>a m. m(at_Key a \<mapsto> formatOTLPAttrValue W (at_Value a))) (lr_Attributes lr) Map.empty) \<rparr>"

definition OTLP_Decode :: "weblib \<Rightarrow> string \<Rightarrow> decoded" where
  "OTLP_Decode W body =
     (case tl_json (wl_text W) body of
        None \<Rightarrow> Inl (DecodeError ''otlp'')
      | Some j \<Rightarrow>
          (case otlpRequest (wl_text W) j of
             (req, err) \<Rightarrow> fail_if err (DecodeError ''otlp'') (Inr (map (otlp_record W) (concat (concat req))))))"

text \<open>Azure: the elements of the array as they are, with the time of those that are objects and have one.\<close>

definition azure_time :: "textlib \<Rightarrow> string \<Rightarrow> i64" where
  "azure_time T raw =
     (case unmarshal_raw_map T raw of
        None \<Rightarrow> 0
      | Some obj \<Rightarrow>
          (case map_get obj ''time'' of
             None \<Rightarrow> 0
           | Some timeRaw \<Rightarrow>
               (case unmarshal_string T timeRaw of
                  None \<Rightarrow> 0
                | Some s \<Rightarrow> best_effort (normalizeTimestamp (tl_go T) s ''rfc3339''))))"

definition Azure_Decode :: "textlib \<Rightarrow> string \<Rightarrow> decoded" where
  "Azure_Decode T body =
     (case unmarshal_raws body of
        None \<Rightarrow> Inl (DecodeError ''azure'')
      | Some raws \<Rightarrow> Inr (map (\<lambda>raw. (raw_record raw)\<lparr>er_Timestamp := azure_time T raw\<rparr>) raws))"

text \<open>
  Splunk: a stream of objects. A member goes to the field of its name, or else of its name up to case; the value of
  \<^verbatim>\<open>event\<close> stays raw.
\<close>

record splunkEvent =
  se_Time :: "f64 option"
  se_Event :: "string option"

definition splunk_member :: "textlib \<Rightarrow> string \<times> string \<Rightarrow> splunkEvent \<times> bool \<Rightarrow> splunkEvent \<times> bool" where
  "splunk_member T kv re =
     (let names = [''time'', ''event''];
          field = (if fst kv \<in> set names then Some (fst kv) else find (\<lambda>n. fold_name T n = fold_name T (fst kv)) names)
      in if field = Some ''event'' then ((fst re)\<lparr>se_Event := Some (snd kv)\<rparr>, snd re)
         else if field = Some ''time'' then
           (case tl_json T (snd kv) of
              None \<Rightarrow> (fst re, True)
            | Some j \<Rightarrow> (case dec_float_ptr (tl_go T) j (se_Time (fst re)) of (t, e) \<Rightarrow> ((fst re)\<lparr>se_Time := t\<rparr>, snd re \<or> e)))
         else re)"

definition splunk_event :: "textlib \<Rightarrow> string \<Rightarrow> decode_error + splunkEvent" where
  "splunk_event T raw =
     (case unmarshal_raw_map T raw of
        None \<Rightarrow> Inl (DecodeError ''splunk'')
      | Some ms \<Rightarrow>
          (case fold (splunk_member T) ms (\<lparr> se_Time = None, se_Event = None \<rparr>, False) of
             (se, err) \<Rightarrow> fail_if err (DecodeError ''splunk'') (Inr se)))"

definition splunk_record :: "weblib \<Rightarrow> splunkEvent \<Rightarrow> EnvelopeRecord" where
  "splunk_record W se =
     \<lparr> er_RawLine =
         (case se_Event se of
            None \<Rightarrow> []
          | Some raw \<Rightarrow> (case unmarshal_string (wl_text W) raw of Some s \<Rightarrow> s | None \<Rightarrow> raw)),
       er_Timestamp =
         (case se_Time se of
            None \<Rightarrow> 0
          | Some t \<Rightarrow> best_effort (normalizeTimestamp (tl_go (wl_text W)) (wl_format_f W t) ''unix_float'')),
       er_Metadata = None \<rparr>"

definition Splunk_Decode :: "weblib \<Rightarrow> string \<Rightarrow> decoded" where
  "Splunk_Decode W body =
     (case decoder_values maxNestingDepth body of
        None \<Rightarrow> Inl (DecodeError ''splunk'')
      | Some raws \<Rightarrow>
          try_then (decode_each (splunk_event (wl_text W)) raws) (\<lambda>ses. Inr (map (splunk_record W) ses)))"

fun adapter_Decode :: "weblib \<Rightarrow> adapter \<Rightarrow> string \<Rightarrow> decoded" where
  "adapter_Decode W AzureAdapter body = Azure_Decode (wl_text W) body"
| "adapter_Decode W CloudflareAdapter body = Cloudflare_Decode body"
| "adapter_Decode W FirehoseAdapter body = Firehose_Decode (wl_text W) body"
| "adapter_Decode W (GenericAdapter field isNDJSON) body = Generic_Decode (wl_text W) field isNDJSON body"
| "adapter_Decode W LokiAdapter body = Loki_Decode (wl_text W) body"
| "adapter_Decode W OTLPAdapter body = OTLP_Decode W body"
| "adapter_Decode W PubSubAdapter body = PubSub_Decode (wl_text W) body"
| "adapter_Decode W SplunkAdapter body = Splunk_Decode W body"

subsection \<open>Acknowledgements\<close>

datatype body_error =
    GunzipError
  | DecompressError
  | DecompressedTooBig i64
  | UnsupportedEncoding string
  | AdapterError decode_error
  | Unauthorized

datatype reply = NoBody | TextBody string | JsonBody json | ErrorBody body_error

record response =
  rs_Code :: nat
  rs_Type :: string
  rs_Body :: reply

definition header_only :: "nat \<Rightarrow> response" where
  "header_only code = \<lparr> rs_Code = code, rs_Type = [], rs_Body = NoBody \<rparr>"

definition json_text_reply :: "json \<Rightarrow> response" where
  "json_text_reply j = \<lparr> rs_Code = 200, rs_Type = ''application/json'', rs_Body = JsonBody j \<rparr>"

definition time_UnixMilli :: "gotime \<Rightarrow> i64" where
  "time_UnixMilli t = word_of_int (t_ns t div 1000000)"

fun adapter_WriteAck :: "adapter \<Rightarrow> gotime \<Rightarrow> (string \<rightharpoonup> string) \<Rightarrow> response" where
  "adapter_WriteAck AzureAdapter now meta = header_only 204"
| "adapter_WriteAck CloudflareAdapter now meta = header_only 200"
| "adapter_WriteAck FirehoseAdapter now meta =
     json_text_reply (JObj
       [(''requestId'', JStr (case meta ''X-Amz-Firehose-Request-Id'' of Some r \<Rightarrow> r | None \<Rightarrow> [])),
        (''timestamp'', JNum (FormatInt (sint (time_UnixMilli now))))])"
| "adapter_WriteAck (GenericAdapter field isNDJSON) now meta = header_only 200"
| "adapter_WriteAck LokiAdapter now meta = header_only 204"
| "adapter_WriteAck OTLPAdapter now meta = json_text_reply (JObj [(''partialSuccess'', JObj [])])"
| "adapter_WriteAck PubSubAdapter now meta = header_only 204"
| "adapter_WriteAck SplunkAdapter now meta = json_text_reply (JObj [(''text'', JStr ''Success''), (''code'', JNum ''0'')])"

section \<open>The registry\<close>

record AdapterConfig =
  ac_EnvelopeField :: string

type_synonym adapter_factory = "AdapterConfig \<Rightarrow> build_failure + adapter"

text \<open>The \<^verbatim>\<open>init\<close> functions, in the order of the files.\<close>

definition adapter_inits :: "(string \<times> adapter_factory) list" where
  "adapter_inits =
     [(''azure'', \<lambda>cfg. Inr AzureAdapter),
      (''cloudflare'', \<lambda>cfg. Inr CloudflareAdapter),
      (''firehose'', \<lambda>cfg. Inr FirehoseAdapter),
      (''plain'', \<lambda>cfg. Inr (GenericAdapter [] False)),
      (''ndjson'', \<lambda>cfg. Inr (GenericAdapter (ac_EnvelopeField cfg) True)),
      (''loki'', \<lambda>cfg. Inr LokiAdapter),
      (''otlp'', \<lambda>cfg. Inr OTLPAdapter),
      (''pubsub'', \<lambda>cfg. Inr PubSubAdapter),
      (''splunk'', \<lambda>cfg. Inr SplunkAdapter)]"

fun register_adapters :: "(string \<times> 'f) list \<Rightarrow> ('f, 'm) Registry \<Rightarrow> ('f, 'm) Registry option" where
  "register_adapters [] r = Some r"
| "register_adapters ((n, f) # nfs) r = (case reg_Register r n f of None \<Rightarrow> None | Some r1 \<Rightarrow> register_adapters nfs r1)"

definition adapters_Build ::
  "(adapter_factory, 'm) Registry \<Rightarrow> string \<Rightarrow> AdapterConfig \<Rightarrow> build_failure + adapter" where
  "adapters_Build r name cfg =
     (case reg_Get r name of
        None \<Rightarrow> Inl (UnknownPlugin name (reg_Names r))
      | Some f \<Rightarrow> f cfg)"

definition adapters_Has :: "(adapter_factory, 'm) Registry \<Rightarrow> string \<Rightarrow> bool" where
  "adapters_Has r name = (reg_Get r name \<noteq> None)"

section \<open>Lemmas\<close>

subsection \<open>Timestamps\<close>

text \<open>
  A whole number of seconds, written as a float, gives that many nanoseconds as long as the product has at most 53 bits;
  the other kinds are exact by construction. Three inputs pass the range check all the same: milliseconds whose
  nanoseconds wrap, NaN, and the upper bound itself, whose product is one more than the largest \<^verbatim>\<open>int64\<close>.
\<close>

lemma unix_ms_wraps: "normalizeTimestamp L ''9223372036855'' ''unix_ms'' = Inr (word_of_int (- 9223372036854551616))"
proof -
  have "ParseInt ''9223372036855'' = Some 9223372036855"
    by (simp add: ParseInt_def is_digit_def ch_def min_int64_def max_int64_def)
  then show ?thesis by (simp add: normalizeTimestamp_def)
qed

lemma unix_float_NaN:
  assumes "lib_parse_float L val = Some x" "IsNaN x"
  shows "normalizeTimestamp L val ''unix_float'' = Inr (lib_f2i L 0x7FF8000000000001)"
proof -
  have "IsNaN 0x7FF8000000000001" by (simp add: IsNaN_def f_exp_def f_man_def)
  then show ?thesis using assms
    by (simp add: normalizeTimestamp_def unix_float_def f_lt_def f_mul_def float_to_int64_def)
qed

subsection \<open>Lines\<close>

text \<open>A log line as the line formats carry it.\<close>

definition plain_line :: "string \<Rightarrow> bool" where
  "plain_line l = (l \<noteq> [] \<and> CHR 0x0A \<notin> set l \<and> last l \<noteq> CHR 0x0D)"

lemma split_on_nonempty [simp]: "split_on c s \<noteq> []"
  by (cases s) (auto split: list.split)

lemma split_on_line: "c \<notin> set l \<Longrightarrow> split_on c (l @ c # r) = l # split_on c r"
  by (induction l) (auto split: list.split)

lemma TrimRight_plain: "l \<noteq> [] \<Longrightarrow> last l \<noteq> c \<Longrightarrow> TrimRight (l @ replicate n c) [c] = l"
proof -
  assume "l \<noteq> []" "last l \<noteq> c"
  then have "dropWhile (\<lambda>x. x = c) (rev l) = rev l" by (cases l rule: rev_cases) auto
  moreover have "dropWhile (\<lambda>x. x = c) (replicate n c @ rev l) = dropWhile (\<lambda>x. x = c) (rev l)" by (induction n) auto
  ultimately show ?thesis by (simp add: TrimRight_def)
qed

text \<open>Lines that end in a line feed, each after any number of carriage returns.\<close>

lemma body_lines_terminated:
  assumes "\<forall>l\<in>set ls. plain_line l"
  shows "body_lines (concat (map (\<lambda>l. l @ replicate n (CHR 0x0D) @ [CHR 0x0A]) ls)) = ls"
  using assms
proof (induction ls)
  case Nil
  then show ?case by (simp add: body_lines_def TrimRight_def)
next
  case (Cons l ls)
  have "split_on (CHR 0x0A) ((l @ replicate n (CHR 0x0D)) @ CHR 0x0A # concat (map (\<lambda>l. l @ replicate n (CHR 0x0D) @ [CHR 0x0A]) ls)) =
      (l @ replicate n (CHR 0x0D)) # split_on (CHR 0x0A) (concat (map (\<lambda>l. l @ replicate n (CHR 0x0D) @ [CHR 0x0A]) ls))"
    using Cons.prems by (intro split_on_line) (auto simp: plain_line_def)
  then show ?case using Cons TrimRight_plain [of l "CHR 0x0D" n] by (simp add: body_lines_def plain_line_def)
qed

subsection \<open>JSON structures\<close>

lemma find_field_one: "find_field T [(k, d)] k = Some d"
  by (simp add: find_field_def)

lemma decode_each_all: "(\<And>x. x \<in> set xs \<Longrightarrow> f (h x) = Inr (g x)) \<Longrightarrow> decode_each f (map h xs) = Inr (map g xs)"
  by (induction xs) simp_all

lemma dec_slice_arr: "(\<And>x. x \<in> set xs \<Longrightarrow> d (f x) = (g x, False)) \<Longrightarrow> dec_slice d (JArr (map f xs)) old = (map g xs, False)"
  by (auto simp: dec_slice_def list_ex_iff)

definition firehose_json :: "string list \<Rightarrow> json" where
  "firehose_json ls = JObj [(''records'', JArr (map (\<lambda>l. JObj [(''data'', JStr (EncodeToString StdEncoding l))]) ls))]"

lemma firehose_batch:
  assumes "tl_json T body = Some (firehose_json ls)"
  shows "Firehose_Decode T body = Inr (map raw_record ls)"
proof -
  have "firehose_data T (JObj [(''data'', JStr s)]) = (s, False)" for s
    by (simp add: firehose_data_def decode_struct_def find_field_one dec_string_def)
  then have "dec_slice (firehose_data T) (JArr (map (\<lambda>l. JObj [(''data'', JStr (EncodeToString StdEncoding l))]) ls)) [] =
      (map (EncodeToString StdEncoding) ls, False)"
    by (intro dec_slice_arr)
  then show ?thesis
    using assms decode_each_all [of ls "\<lambda>d. case DecodeString StdEncoding d of
        None \<Rightarrow> Inl (DecodeError ''firehose: base64 decode'') | Some line \<Rightarrow> Inr (raw_record line)"
        "EncodeToString StdEncoding" raw_record]
    by (simp add: Firehose_Decode_def unmarshal_struct_def firehose_json_def decode_struct_def firehose_fields_def
        find_field_one at_field_def base64_round_trip)
qed

lemma unix_float_upper_bound:
  assumes "lib_parse_float L val = Some maxUnixFloatSec"
  shows "normalizeTimestamp L val ''unix_float'' = Inr (lib_f2i L 0x43E0000000000000)"
proof -
  have "f_mul maxUnixFloatSec float_1e9 = 0x43E0000000000000"
    by (simp add: f_mul_def maxUnixFloatSec_def float_1e9_def IsNaN_def IsInf_def f_exp_def f_man_def f_sig_def f_scale_def
        f_pack_def bit_length.simps round_shift_def Let_def)
  then show ?thesis using assms
    by (simp add: normalizeTimestamp_def unix_float_def f_lt_def maxUnixFloatSec_def minUnixFloatSec_def f_key_def f_mag_def
        float_to_int64_def IsNaN_def IsInf_def f_exp_def f_man_def f_trunc_def max_int64_def Let_def)
qed

definition pubsub_json :: "string \<Rightarrow> string \<Rightarrow> json" where
  "pubsub_json line mid =
     JObj [(''message'', JObj [(''data'', JStr (EncodeToString RawURLEncoding line)), (''messageId'', JStr mid)])]"

lemma pubsub_message:
  assumes "tl_json T body = Some (pubsub_json line mid)"
  shows "PubSub_Decode T body =
    Inr [\<lparr> er_RawLine = line, er_Timestamp = 0, er_Metadata = Some [''messageId'' \<mapsto> mid] \<rparr>]"
  using assms
  by (simp add: PubSub_Decode_def unmarshal_struct_def pubsub_json_def decode_struct_def pubsub_fields_def find_field_def
      at_field_def pubSub0_def dec_string_def base64_round_trip)

definition loki_json :: "((string \<times> string) list \<times> (i64 \<times> string) list) list \<Rightarrow> json" where
  "loki_json ss =
     JObj [(''streams'', JArr (map (\<lambda>s. JObj
       [(''stream'', JObj (map (\<lambda>kv. (fst kv, JStr (snd kv))) (fst s))),
        (''values'', JArr (map (\<lambda>v. JArr (map JStr [FormatInt (sint (fst v)), snd v])) (snd s)))]) ss))]"

lemma dec_pairs_strings: "dec_pairs (map (\<lambda>kv. (fst kv, JStr (snd kv))) kvs) m = (m ++ map_of (rev kvs), False)"
  by (induction kvs arbitrary: m) (simp_all add: dec_text_def map_add_upd_left)

lemma loki_stream_json:
  "loki_stream T (JObj [(''stream'', JObj (map (\<lambda>kv. (fst kv, JStr (snd kv))) labels)),
      (''values'', JArr (map (\<lambda>v. JArr (map JStr [FormatInt (sint (fst v)), snd v])) vs))]) =
   (\<lparr> lk_Stream = Some (map_of (rev labels)), lk_Values = map (\<lambda>v. [FormatInt (sint (fst v)), snd v]) vs \<rparr>, False)"
proof -
  have "dec_slice (\<lambda>j. dec_text j []) (JArr (map JStr ss)) [] = (map id ss, False)" for ss
    by (rule dec_slice_arr) (simp add: dec_text_def)
  then have "dec_slice (\<lambda>j. dec_slice (\<lambda>j. dec_text j []) j []) (JArr (map (\<lambda>v. JArr (map JStr [FormatInt (sint (fst v)), snd v])) vs)) [] =
      (map (\<lambda>v. [FormatInt (sint (fst v)), snd v]) vs, False)"
    by (intro dec_slice_arr) (metis list.map_id)
  then show ?thesis
    by (simp add: loki_stream_def decode_struct_def find_field_def at_field_def dec_strmap_def dec_pairs_strings)
qed

lemma loki_push:
  assumes "tl_json T body = Some (loki_json ss)"
  shows "Loki_Decode T body = Inr (concat (map (\<lambda>s. map (\<lambda>v.
      \<lparr> er_RawLine = snd v, er_Timestamp = fst v, er_Metadata = Some (map_of (rev (fst s))) \<rparr>) (snd s)) ss))"
proof -
  have c: "copyMap m = m" for m by (auto simp: copyMap_def split: option.split)
  have n: "ParseInt_value (FormatInt (sint t)) = t" for t
    by (simp add: ParseInt_value_def ParseInt_FormatInt_sint)
  have "dec_slice (loki_stream T) (JArr (map (\<lambda>s. JObj
       [(''stream'', JObj (map (\<lambda>kv. (fst kv, JStr (snd kv))) (fst s))),
        (''values'', JArr (map (\<lambda>v. JArr (map JStr [FormatInt (sint (fst v)), snd v])) (snd s)))]) ss)) [] =
     (map (\<lambda>s. \<lparr> lk_Stream = Some (map_of (rev (fst s))),
        lk_Values = map (\<lambda>v. [FormatInt (sint (fst v)), snd v]) (snd s) \<rparr>) ss, False)"
    by (rule dec_slice_arr) (rule loki_stream_json)
  then show ?thesis using assms
    by (simp add: Loki_Decode_def unmarshal_struct_def loki_json_def decode_struct_def loki_fields_def find_field_def at_field_def
        loki_records_def c n comp_def filter_map)
qed

definition otlp_json :: "(i64 \<times> string) list list list \<Rightarrow> json" where
  "otlp_json rss =
     JObj [(''resourceLogs'', JArr (map (\<lambda>rs. JObj [(''scopeLogs'', JArr (map (\<lambda>r. JObj [(''logRecords'', JArr (map (\<lambda>v. JObj
       [(''timeUnixNano'', JStr (FormatInt (sint (fst v)))), (''body'', JObj [(''stringValue'', JStr (snd v))])]) r))]) rs))]) rss))]"

lemma one_slice_arr:
  "(\<And>x. x \<in> set xs \<Longrightarrow> d (f x) = (g x, False)) \<Longrightarrow> one_slice T n d (JObj [(n, JArr (map f xs))]) = (map g xs, False)"
  by (simp add: one_slice_def decode_struct_def find_field_one dec_slice_arr)

lemma log_record_json:
  "log_record T (JObj [(''timeUnixNano'', JStr t), (''body'', JObj [(''stringValue'', JStr l)])]) =
   (\<lparr> lr_TimeUnixNano = t, lr_Body = otlpBody0\<lparr>av_String := l\<rparr>, lr_Attributes = [] \<rparr>, False)"
  by (simp add: log_record_def decode_struct_def find_field_def dec_string_def at_field_def otlp_body_def any_value_fields_def dec_text_def)

lemma otlp_request:
  assumes "tl_json (wl_text W) body = Some (otlp_json rss)" "\<forall>rs\<in>set rss. \<forall>r\<in>set rs. \<forall>v\<in>set r. snd v \<noteq> []"
  shows "OTLP_Decode W body = Inr (map (\<lambda>v.
      \<lparr> er_RawLine = snd v, er_Timestamp = fst v, er_Metadata = Some Map.empty \<rparr>) (concat (concat rss)))"
proof -
  define g where "g v = \<lparr> lr_TimeUnixNano = FormatInt (sint (fst v)), lr_Body = otlpBody0\<lparr>av_String := snd v\<rparr>,
    lr_Attributes = [] \<rparr>" for v :: "i64 \<times> string"
  have "otlpRequest (wl_text W) (otlp_json rss) = (map (map (map g)) rss, False)"
    unfolding otlpRequest_def otlp_json_def
    by (intro one_slice_arr) (simp add: log_record_json g_def)
  moreover have "otlp_record W (g v) = \<lparr> er_RawLine = snd v, er_Timestamp = fst v, er_Metadata = Some Map.empty \<rparr>"
    if "snd v \<noteq> []" for v
    using that by (simp add: otlp_record_def g_def decodeOTLPBody_def normalizeTimestamp_def ParseInt_FormatInt_sint best_effort_def)
  ultimately show ?thesis using assms by (auto simp: OTLP_Decode_def map_concat [symmetric])
qed

lemma azure_batch:
  assumes "\<forall>x\<in>set xs. json_text (maxNestingDepth - 1) x"
  shows "\<exists>rs. Azure_Decode T (array_text xs) = Inr rs \<and> map er_RawLine rs = xs"
  using unmarshal_raws_array [OF assms] by (simp add: Azure_Decode_def comp_def raw_record_def)

subsection \<open>Registration\<close>

lemma adapters_registered:
  "\<exists>r :: (adapter_factory, 'm) Registry. register_adapters adapter_inits NewRegistry = Some r \<and> factories r = adapter_inits"
  by (simp add: adapter_inits_def reg_Register_def NewRegistry_def)



end
