(* ===== verification/Http_Middleware.thy ===== *)
theory Http_Middleware
  imports Http_Adapters Line_Source "HOL-Library.Monad_Syntax"
begin

text \<open>
  The gates a pushed request passes before its body is read: \<^verbatim>\<open>bearerAuth\<close> (\<^verbatim>\<open>pkg/source/http/push.go\<close>), the
  ownership challenge (\<^verbatim>\<open>adapters/cloudflare.go\<close>) and the validation of the OIDC token of a Pub/Sub push
  (\<^verbatim>\<open>adapters/pubsub_auth.go\<close>) with its cache of signing keys.

  A handler takes what the request finds outside (the clock, the answer of the key server, the room in the pipeline), the
  request, and the state: the counters of the source and the key cache, which is a variable of the package. A request is
  what \<^verbatim>\<open>net/http\<close> hands over: \<open>rq_Header\<close> is \<^verbatim>\<open>Header.Get\<close>, empty for a header that is absent.
\<close>

section \<open>Handlers\<close>

record request =
  rq_Method :: string
  rq_Path :: string
  rq_Query :: "(string \<times> string) list"
  rq_Header :: "string \<Rightarrow> string"
  rq_Body :: "string \<times> bool"

text \<open>\<open>we_jwks\<close>: no connection, or the body of the answer and whether it was read to its end.\<close>

record web_env =
  we_now_exp :: gotime
  we_now_load :: gotime
  we_now_store :: gotime
  we_now_ack :: gotime
  we_jwks :: "(string \<times> bool) option"
  we_room :: "nat \<Rightarrow> bool"

record jwkKey =
  jk_Kid :: string
  jk_N :: string
  jk_E :: string
  jk_Kty :: string

record jwksCache =
  jc_keys :: "jwkKey list"
  jc_expiry :: gotime

record webst =
  ws_src :: "payload Event srcst"
  ws_jwks :: "jwksCache option"

type_synonym handler = "web_env \<Rightarrow> request \<Rightarrow> webst \<Rightarrow> webst \<times> response"

definition nethttp_Error :: "string \<Rightarrow> nat \<Rightarrow> response" where
  "nethttp_Error msg code =
     \<lparr> rs_Code = code, rs_Type = ''text/plain; charset=utf-8'', rs_Body = TextBody (msg @ [CHR 0x0A]) \<rparr>"

definition writeJSON :: "nat \<Rightarrow> body_error \<Rightarrow> response" where
  "writeJSON code e = \<lparr> rs_Code = code, rs_Type = ''application/json'', rs_Body = ErrorBody e \<rparr>"

definition httpError :: "nat \<Rightarrow> response" where
  "httpError code = nethttp_Error ''Unauthorized'' code"

section \<open>Bearer token and ownership challenge\<close>

definition bearerAuth :: "string \<Rightarrow> handler \<Rightarrow> handler" where
  "bearerAuth token next env rq st =
     (if token = [] then next env rq st
      else if rq_Header rq ''Authorization'' \<noteq> ''Bearer '' @ token then (st, writeJSON 401 Unauthorized)
      else next env rq st)"

definition challenge_byte :: "char \<Rightarrow> bool" where
  "challenge_byte b =
     (97 \<le> ch b \<and> ch b \<le> 122 \<or> 65 \<le> ch b \<and> ch b \<le> 90 \<or> 48 \<le> ch b \<and> ch b \<le> 57 \<or>
      b = CHR ''.'' \<or> b = CHR ''_'' \<or> b = CHR ''-'')"

definition isValidChallenge :: "string \<Rightarrow> bool" where
  "isValidChallenge s = (s \<noteq> [] \<and> list_all challenge_byte s)"

definition query_Get :: "(string \<times> string) list \<Rightarrow> string \<Rightarrow> string" where
  "query_Get q k = (case map_of q k of None \<Rightarrow> [] | Some v \<Rightarrow> v)"

definition CloudflareChallengeMiddleware :: "handler \<Rightarrow> handler" where
  "CloudflareChallengeMiddleware next env rq st =
     (if rq_Method rq = ''GET'' \<and> query_Get (rq_Query rq) ''validate'' = ''true'' then
        (let challenge = rq_Header rq ''Ownership-Challenge''
         in if challenge = [] then next env rq st
            else if \<not> isValidChallenge challenge then (st, nethttp_Error ''invalid challenge format'' 400)
            else (st, \<lparr> rs_Code = 200, rs_Type = ''text/plain'', rs_Body = TextBody challenge \<rparr>))
      else next env rq st)"

section \<open>Signing keys\<close>

definition jwk_key :: "textlib \<Rightarrow> json \<Rightarrow> jwkKey \<times> bool" where
  "jwk_key T j =
     decode_struct T
       [(''kid'', dec_string (\<lambda>s r. r\<lparr>jk_Kid := s\<rparr>)), (''n'', dec_string (\<lambda>s r. r\<lparr>jk_N := s\<rparr>)),
        (''e'', dec_string (\<lambda>s r. r\<lparr>jk_E := s\<rparr>)), (''kty'', dec_string (\<lambda>s r. r\<lparr>jk_Kty := s\<rparr>))]
       j \<lparr> jk_Kid = [], jk_N = [], jk_E = [], jk_Kty = [] \<rparr>"

text \<open>\<^verbatim>\<open>json.Unmarshal\<close> into a \<^verbatim>\<open>jwksResponse\<close>; \<^verbatim>\<open>None\<close> is an error.\<close>

definition jwksResponse :: "textlib \<Rightarrow> string \<Rightarrow> jwkKey list option" where
  "jwksResponse T body =
     (case unmarshal_struct T [(''keys'', dec_slice (jwk_key T))] body [] of
        (keys, err) \<Rightarrow> if err then None else Some keys)"

definition getJWKS :: "textlib \<Rightarrow> web_env \<Rightarrow> jwksCache option \<Rightarrow> jwkKey list option \<times> jwksCache option" where
  "getJWKS T env store =
     (let fetch =
        (case we_jwks env of
           None \<Rightarrow> (None, store)
         | Some (body, readOk) \<Rightarrow>
             if \<not> readOk then (None, store)
             else case jwksResponse T body of
                    None \<Rightarrow> (None, store)
                  | Some keys \<Rightarrow>
                      (Some keys, Some \<lparr> jc_keys = keys, jc_expiry = time_Add (we_now_store env) 3600000000000 \<rparr>))
      in case store of
           None \<Rightarrow> fetch
         | Some cache \<Rightarrow> if time_Before (we_now_load env) (jc_expiry cache) then (Some (jc_keys cache), store) else fetch)"

definition findJWK :: "jwkKey list \<Rightarrow> string \<Rightarrow> jwkKey option" where
  "findJWK keys kid = find (\<lambda>k. jk_Kid k = kid) keys"

definition big_SetBytes :: "string \<Rightarrow> nat" where
  "big_SetBytes bs = foldl (\<lambda>a c. a * 256 + ch c) 0 bs"

definition jwkToPublicKey :: "jwkKey \<Rightarrow> (nat \<times> nat) option" where
  "jwkToPublicKey jk =
     do {
       nBytes \<leftarrow> DecodeString RawURLEncoding (jk_N jk);
       eBytes \<leftarrow> DecodeString RawURLEncoding (jk_E jk);
       let n = big_SetBytes nBytes;
       if length eBytes = 3 then
         Some (n, ch (eBytes ! 0) * 65536 + ch (eBytes ! 1) * 256 + ch (eBytes ! 2))
       else if length eBytes = 1 then Some (n, ch (eBytes ! 0))
       else None
     }"

section \<open>The token\<close>

text \<open>The loop of \<^verbatim>\<open>splitJWT\<close>: the parts found and where the current one starts.\<close>

definition split_dot :: "string \<Rightarrow> string list \<times> nat \<Rightarrow> nat \<Rightarrow> string list \<times> nat" where
  "split_dot token ps i =
     (if token ! i = CHR ''.'' then (fst ps @ [drop (snd ps) (take i token)], i + 1) else ps)"

definition splitJWT :: "string \<Rightarrow> string list" where
  "splitJWT token =
     (case foldl (split_dot token) ([], 0) [0..<length token] of
        (parts, start) \<Rightarrow> parts @ [drop start token])"

record jwtHeader =
  jh_Kid :: string
  jh_Alg :: string

record jwtClaims =
  jc_Aud :: string
  jc_Exp :: i64
  jc_Email :: string
  jc_EmailVerified :: bool

definition unmarshal_ok :: "'r \<times> bool \<Rightarrow> 'r option" where
  "unmarshal_ok re = (if snd re then None else Some (fst re))"

definition jwt_header :: "textlib \<Rightarrow> string \<Rightarrow> jwtHeader option" where
  "jwt_header T s = unmarshal_ok (unmarshal_struct T
     [(''kid'', dec_string (\<lambda>s r. r\<lparr>jh_Kid := s\<rparr>)), (''alg'', dec_string (\<lambda>s r. r\<lparr>jh_Alg := s\<rparr>))]
     s \<lparr> jh_Kid = [], jh_Alg = [] \<rparr>)"

definition jwt_claims :: "textlib \<Rightarrow> string \<Rightarrow> jwtClaims option" where
  "jwt_claims T s = unmarshal_ok (unmarshal_struct T
     [(''aud'', dec_string (\<lambda>s r. r\<lparr>jc_Aud := s\<rparr>)), (''exp'', dec_int (\<lambda>n r. r\<lparr>jc_Exp := n\<rparr>)),
      (''email'', dec_string (\<lambda>s r. r\<lparr>jc_Email := s\<rparr>)), (''email_verified'', dec_bool (\<lambda>b r. r\<lparr>jc_EmailVerified := b\<rparr>))]
     s \<lparr> jc_Aud = [], jc_Exp = 0, jc_Email = [], jc_EmailVerified = False \<rparr>)"

definition must :: "bool \<Rightarrow> unit option" where
  "must b = (if b then Some () else None)"

text \<open>
  Up to the lookup of the key: the key identifier, the text that is signed and the signature, or \<^verbatim>\<open>None\<close> for a 401.
\<close>

definition jwt_parse :: "textlib \<Rightarrow> gotime \<Rightarrow> string \<Rightarrow> string \<Rightarrow> string \<Rightarrow> (string \<times> string \<times> string) option" where
  "jwt_parse T now expectedAud expectedToken auth =
     do {
       must (\<not> length auth < 7);
       must (take 7 auth = ''Bearer '');
       let token = drop 7 auth;
       must (expectedToken = [] \<or> token = expectedToken);
       let parts = splitJWT token;
       must (length parts = 3);
       headerJSON \<leftarrow> DecodeString RawURLEncoding (parts ! 0);
       hdr \<leftarrow> jwt_header T headerJSON;
       must (jh_Alg hdr = ''RS256'');
       payloadJSON \<leftarrow> DecodeString RawURLEncoding (parts ! 1);
       claims \<leftarrow> jwt_claims T payloadJSON;
       must (\<not> sint (jc_Exp claims) < sint (time_Unix now));
       must (jc_Aud claims = expectedAud);
       must (jc_Email claims \<noteq> [] \<and> jc_EmailVerified claims);
       sigBytes \<leftarrow> DecodeString RawURLEncoding (parts ! 2);
       Some (jh_Kid hdr, parts ! 0 @ ''.'' @ parts ! 1, sigBytes)
     }"

definition jwt_verify :: "weblib \<Rightarrow> jwkKey list \<Rightarrow> string \<times> string \<times> string \<Rightarrow> bool" where
  "jwt_verify W keys kis =
     (case kis of
        (kid, signingInput, sigBytes) \<Rightarrow>
          (case findJWK keys kid of
             None \<Rightarrow> False
           | Some jwk \<Rightarrow>
               (case jwkToPublicKey jwk of
                  None \<Rightarrow> False
                | Some (n, e) \<Rightarrow> wl_verify W n e signingInput sigBytes)))"

definition PubSubJWTMiddleware :: "weblib \<Rightarrow> string \<Rightarrow> string \<Rightarrow> handler \<Rightarrow> handler" where
  "PubSubJWTMiddleware W expectedAud expectedToken next env rq st =
     (case jwt_parse (wl_text W) (we_now_exp env) expectedAud expectedToken (rq_Header rq ''Authorization'') of
        None \<Rightarrow> (st, httpError 401)
      | Some kis \<Rightarrow>
          (case getJWKS (wl_text W) env (ws_jwks st) of
             (keys, store) \<Rightarrow>
               (let st1 = st\<lparr>ws_jwks := store\<rparr>
                in case keys of
                     None \<Rightarrow> (st1, httpError 401)
                   | Some ks \<Rightarrow> if jwt_verify W ks kis then next env rq st1 else (st1, httpError 401))))"

section \<open>Lemmas\<close>

lemma must_bind [simp]: "Option.bind (must b) f = (if b then f () else None)"
  by (simp add: must_def)

text \<open>The loop splits at every dot.\<close>

lemma split_dot_loop:
  assumes "i \<le> length token" "start \<le> i" "CHR ''.'' \<notin> set (drop start (take i token))"
  shows "(case foldl (split_dot token) (parts, start) [i..<length token] of (ps, s) \<Rightarrow> ps @ [drop s token]) =
    parts @ split_on (CHR ''.'') (drop start token)"
  using assms
proof (induction "length token - i" arbitrary: i start parts)
  case 0
  have "split_on c s = [s]" if "c \<notin> set s" for c s
    using that by (induction s) auto
  then show ?case using 0 by simp
next
  case (Suc n)
  then have i: "i < length token" by simp
  then have u: "[i..<length token] = i # [Suc i..<length token]" by (rule upt_conv_Cons)
  have d: "drop start token = drop start (take i token) @ token ! i # drop (Suc i) token"
    using i Suc.prems(2) by (metis append_take_drop_id drop_append Cons_nth_drop_Suc diff_is_0_eq' drop0 length_take
        min.absorb4 nat_less_le)
  show ?case
  proof (cases "token ! i = CHR ''.''")
    case True
    then show ?thesis
      using Suc.hyps(1) [of "Suc i" "Suc i" "parts @ [drop start (take i token)]"] Suc.hyps(2) i u d
        split_on_line [OF Suc.prems(3)] by (simp add: split_dot_def)
  next
    case False
    have "drop start (take (Suc i) token) = drop start (take i token) @ [token ! i]"
      using i Suc.prems(2) by (simp add: take_Suc_conv_app_nth)
    then show ?thesis using Suc.hyps(1) [of "Suc i" start parts] Suc.hyps(2) i u False Suc.prems
      by (simp add: split_dot_def)
  qed
qed

lemma splitJWT_split: "splitJWT token = split_on (CHR ''.'') token"
  using split_dot_loop [of 0 token 0 "[]"] by (simp add: splitJWT_def)

subsection \<open>What a token has to be\<close>

text \<open>
  The contract: three parts, of which the first names the algorithm RS256 and a key of the set, the second carries an
  expiry that has not passed, the audience and a verified email, and the third is the signature of the first two under
  that key.
\<close>

definition jwt_parts where
  "jwt_parts T now aud token kid inp sig =
     (\<exists>h p s hdr claims.
        split_on (CHR ''.'') token = [h, p, s] \<and>
        Option.bind (DecodeString RawURLEncoding h) (jwt_header T) = Some hdr \<and> jh_Alg hdr = ''RS256'' \<and>
        Option.bind (DecodeString RawURLEncoding p) (jwt_claims T) = Some claims \<and>
        sint (time_Unix now) \<le> sint (jc_Exp claims) \<and> jc_Aud claims = aud \<and>
        jc_Email claims \<noteq> [] \<and> jc_EmailVerified claims \<and>
        DecodeString RawURLEncoding s = Some sig \<and> kid = jh_Kid hdr \<and> inp = h @ ''.'' @ p)"

definition jwt_ok :: "weblib \<Rightarrow> gotime \<Rightarrow> string \<Rightarrow> jwkKey list \<Rightarrow> string \<Rightarrow> bool" where
  "jwt_ok W now aud keys token =
     (\<exists>kid inp sig jwk n e. jwt_parts (wl_text W) now aud token kid inp sig \<and>
        findJWK keys kid = Some jwk \<and> jwkToPublicKey jwk = Some (n, e) \<and> wl_verify W n e inp sig)"

lemma bearer_prefix: "\<not> length auth < 7 \<and> take 7 auth = ''Bearer '' \<longleftrightarrow> (\<exists>t. auth = ''Bearer '' @ t)"
proof
  assume "\<not> length auth < 7 \<and> take 7 auth = ''Bearer ''"
  then have "auth = ''Bearer '' @ drop 7 auth" by (metis append_take_drop_id)
  then show "\<exists>t. auth = ''Bearer '' @ t" ..
qed auto

lemma jwt_parse_Some:
  "jwt_parse T now aud tok auth = Some (kid, inp, sig) \<longleftrightarrow>
   (\<exists>token. auth = ''Bearer '' @ token \<and> (tok = [] \<or> token = tok) \<and> jwt_parts T now aud token kid inp sig)"
    (is "?L \<longleftrightarrow> ?R")
proof
  assume L: ?L
  then have "\<not> length auth < 7 \<and> take 7 auth = ''Bearer ''" by (simp add: jwt_parse_def split: if_splits)
  then obtain token where a: "auth = ''Bearer '' @ token" using bearer_prefix by auto
  have t: "tok = [] \<or> token = tok" using L by (simp add: jwt_parse_def a Let_def split: if_splits)
  have "length (splitJWT token) = 3" using L by (simp add: jwt_parse_def a Let_def split: if_splits)
  then obtain h p s where sp: "splitJWT token = [h, p, s]" by (auto simp: length_Suc_conv numeral_3_eq_3)
  have "jwt_parts T now aud token kid inp sig"
    using L t unfolding jwt_parts_def splitJWT_split [symmetric] sp
    by (auto simp: jwt_parse_def a sp Let_def Option.bind_eq_Some_conv not_less split: if_splits)
  then show ?R using a t by blast
next
  assume ?R
  then show ?L by (auto simp: jwt_parse_def jwt_parts_def splitJWT_split Let_def dest!: Option.bind_eq_Some_conv [THEN iffD1])
qed

lemma jwt_verify_iff:
  "jwt_verify W keys (kid, inp, sig) \<longleftrightarrow>
   (\<exists>jwk n e. findJWK keys kid = Some jwk \<and> jwkToPublicKey jwk = Some (n, e) \<and> wl_verify W n e inp sig)"
  by (auto simp: jwt_verify_def split: option.split)

lemma jwt_pass:
  "(\<exists>kis. jwt_parse (wl_text W) now aud tok auth = Some kis \<and> jwt_verify W keys kis) \<longleftrightarrow>
   (\<exists>token. auth = ''Bearer '' @ token \<and> (tok = [] \<or> token = tok) \<and> jwt_ok W now aud keys token)"
  unfolding split_paired_Ex jwt_parse_Some jwt_verify_iff jwt_ok_def by blast

subsection \<open>The key cache\<close>

text \<open>What a request can have learnt from the key server.\<close>

definition fetched :: "textlib \<Rightarrow> web_env \<Rightarrow> jwkKey list \<Rightarrow> bool" where
  "fetched T env keys = (\<exists>body. we_jwks env = Some (body, True) \<and> jwksResponse T body = Some keys)"

definition cache_from :: "textlib \<Rightarrow> web_env list \<Rightarrow> jwksCache option \<Rightarrow> bool" where
  "cache_from T envs store = (\<forall>c. store = Some c \<longrightarrow>
     (\<exists>env\<in>set envs. fetched T env (jc_keys c) \<and> jc_expiry c = time_Add (we_now_store env) 3600000000000))"

lemma getJWKS_cases:
  assumes "getJWKS T env store = (keys, store1)"
  shows "store1 = store \<and> (keys = None \<or> (\<exists>c. store = Some c \<and> keys = Some (jc_keys c) \<and> time_Before (we_now_load env) (jc_expiry c))) \<or>
    (\<exists>ks. fetched T env ks \<and> keys = Some ks \<and> store1 = Some \<lparr> jc_keys = ks, jc_expiry = time_Add (we_now_store env) 3600000000000 \<rparr>)"
  using assms by (auto simp: getJWKS_def fetched_def Let_def split: option.splits prod.splits if_splits)

lemma cache_from_getJWKS:
  assumes "cache_from T envs store"
  shows "cache_from T (envs @ [env]) (snd (getJWKS T env store))"
proof -
  obtain keys store1 where g: "getJWKS T env store = (keys, store1)" by (cases "getJWKS T env store")
  show ?thesis using getJWKS_cases [OF g] assms by (auto simp: g cache_from_def)
qed

text \<open>A request that finds the cache unexpired gets its keys, whatever the server would say.\<close>

lemma cached_keys: "time_Before (we_now_load env) (jc_expiry c) \<Longrightarrow> getJWKS T env (Some c) = (Some (jc_keys c), Some c)"
  by (simp add: getJWKS_def)

text \<open>
  An answer without keys, such as an error document of the server, whose status is not looked at, is cached as
  a set of no keys: until it expires every token is refused.
\<close>

lemma jwks_error_document:
  assumes "tl_json T body = Some (JObj [(''error'', j)])" "find_field T [(''keys'', dec_slice (jwk_key T))] ''error'' = None"
    and "we_jwks env = Some (body, True)"
  shows "getJWKS T env None = (Some [], Some \<lparr> jc_keys = [], jc_expiry = time_Add (we_now_store env) 3600000000000 \<rparr>)"
  using assms by (simp add: getJWKS_def jwksResponse_def unmarshal_struct_def decode_struct_def)

lemma no_keys_refuse: "\<not> jwt_verify W [] kis"
  by (simp add: jwt_verify_def findJWK_def split: prod.split)

end
