(* ===== verification/Http_Source.thy ===== *)
theory Http_Source
  imports Http_Middleware
begin

text \<open>
  The HTTP source, \<^verbatim>\<open>pkg/source/http\<close>: the configuration, the reading of bodies with their limits, the handler of pushed
  requests with its chain of gates, and the loop that polls in pull mode.

  The state and the handlers are those of \<open>Http_Middleware\<close>. The server that accepts connections and the client that sends
  the polls are the library's; a poll is given by its outcome, the server by the requests it accepts and how it ends. \<open>we_room\<close> and \<open>room\<close> say for which records of a
  request the pipeline has room.
\<close>

section \<open>Configuration\<close>

record parsedConfig =
  hc_mode :: string
  hc_scheme :: string
  hc_host :: string
  hc_port :: string
  hc_path :: string
  hc_proto :: string
  hc_token :: string
  hc_envelopeField :: string
  hc_tlsCert :: string
  hc_tlsKey :: string
  hc_pullInterval :: i64
  hc_maxBodyBytes :: i64

datatype http_config_error =
    AddrRequired
  | InvalidAddr string
  | URLRequired
  | InvalidURL string
  | TLSRequired
  | ProtocolRequired
  | UnknownProtocol string "string list"
  | InvalidPullInterval string
  | HttpNilParser

definition parseProtocol :: "(adapter_factory, 'm) Registry \<Rightarrow> string \<Rightarrow> http_config_error + string" where
  "parseProtocol r s =
     fail_if (s = []) ProtocolRequired
       (fail_if (\<not> adapters_Has r s) (UnknownProtocol s (reg_Names r)) (Inr s))"

definition config_url :: "weblib \<Rightarrow> string \<Rightarrow> InputConfig \<Rightarrow> http_config_error + url" where
  "config_url W mode cfg =
     (if mode = ''push'' then
        fail_if (ic_Addr cfg = []) AddrRequired
          (case wl_url W (if str_contains (ic_Addr cfg) ''://'' then ic_Addr cfg else ''http://'' @ ic_Addr cfg) of
             None \<Rightarrow> Inl (InvalidAddr (ic_Addr cfg))
           | Some u \<Rightarrow> Inr u)
      else
        fail_if (ic_URL cfg = []) URLRequired
          (case wl_url W (ic_URL cfg) of None \<Rightarrow> Inl (InvalidURL (ic_URL cfg)) | Some u \<Rightarrow> Inr u))"

definition default_to :: "string \<Rightarrow> string \<Rightarrow> string" where
  "default_to d s = (if s = [] then d else s)"

definition parseHTTPConfig ::
  "weblib \<Rightarrow> (adapter_factory, 'm) Registry \<Rightarrow> InputConfig \<Rightarrow> http_config_error + parsedConfig" where
  "parseHTTPConfig W r cfg =
     (let mode = default_to ''push'' (ic_Mode cfg)
      in try_then (config_url W mode cfg) (\<lambda>u.
           let scheme = default_to ''http'' (u_Scheme u);
               port = default_to (if scheme = ''https'' then ''443'' else ''80'') (u_Port u);
               path = default_to ''/'' (u_Path u)
           in fail_if (scheme = ''https'' \<and> (ic_TLSCert cfg = [] \<or> ic_TLSKey cfg = [])) TLSRequired
                (try_then (parseProtocol r (ic_Protocol cfg)) (\<lambda>proto.
                   try_then
                     (if ic_PullInterval cfg \<noteq> [] then
                        (case lib_parse_duration (tl_go (wl_text W)) (ic_PullInterval cfg) of
                           None \<Rightarrow> Inl (InvalidPullInterval (ic_PullInterval cfg))
                         | Some d \<Rightarrow> Inr d)
                      else Inr 30000000000)
                     (\<lambda>pullInterval.
                        Inr \<lparr> hc_mode = mode, hc_scheme = scheme, hc_host = u_Hostname u, hc_port = port, hc_path = path,
                              hc_proto = proto, hc_token = ic_Token cfg, hc_envelopeField = ic_EnvelopeField cfg,
                              hc_tlsCert = ic_TLSCert cfg, hc_tlsKey = ic_TLSKey cfg, hc_pullInterval = pullInterval,
                              hc_maxBodyBytes =
                                (if sint (ic_MaxBodyBytes cfg) \<le> 0 then 10485760 else ic_MaxBodyBytes cfg) \<rparr>)))))"

definition http_New ::
  "weblib \<Rightarrow> (adapter_factory, 'm) Registry \<Rightarrow> InputConfig \<Rightarrow> bool \<Rightarrow> http_config_error + parsedConfig" where
  "http_New W r cfg hasParser = fail_if (\<not> hasParser) HttpNilParser (parseHTTPConfig W r cfg)"

definition http_Manifest :: Manifest where
  "http_Manifest = source_manifest ''http''
     [''http'', ''https'', ''push'', ''pull'', ''cloudflare'', ''firehose'', ''pubsub'', ''loki'', ''otlp'', ''azure'', ''splunk'', ''cloud'']
     envelope_fields"

section \<open>Bodies\<close>

text \<open>
  \<^verbatim>\<open>io.ReadAll(io.LimitReader(r, n))\<close> for a reader that yields these bytes and then ends, with an error or not: at
  most \<open>n\<close> bytes are asked for, so an error behind them is not seen, and with \<open>n \<le> 0\<close> nothing is.
\<close>

definition read_all_limited :: "string \<times> bool \<Rightarrow> i64 \<Rightarrow> string option" where
  "read_all_limited r n =
     (if sint n \<le> 0 then Some []
      else if int (length (fst r)) < sint n then (if snd r then Some (fst r) else None)
      else Some (take (nat (sint n)) (fst r)))"

datatype read_error = ReadFailed | BodyTooBig i64

definition readLimited :: "string \<times> bool \<Rightarrow> i64 \<Rightarrow> read_error + string" where
  "readLimited r maxBytes =
     (case read_all_limited r (maxBytes + 1) of
        None \<Rightarrow> Inl ReadFailed
      | Some data \<Rightarrow> fail_if (sint maxBytes < sint (word_of_nat (length data) :: i64)) (BodyTooBig maxBytes) (Inr data))"

definition maybeGunzip :: "weblib \<Rightarrow> string \<Rightarrow> string \<Rightarrow> i64 \<Rightarrow> body_error + string" where
  "maybeGunzip W body contentEncoding maxBytes =
     (if contentEncoding = [] \<or> contentEncoding = ''identity'' then Inr body
      else if contentEncoding = ''gzip'' \<or> contentEncoding = ''x-gzip'' then
        (case wl_gunzip W body of
           None \<Rightarrow> Inl GunzipError
         | Some r \<Rightarrow>
             (case read_all_limited r (maxBytes + 1) of
                None \<Rightarrow> Inl DecompressError
              | Some data \<Rightarrow>
                  fail_if (sint maxBytes < sint (word_of_nat (length data) :: i64)) (DecompressedTooBig maxBytes) (Inr data)))
      else Inl (UnsupportedEncoding contentEncoding))"

subsection \<open>The other helpers of the module\<close>

definition envelope_normalizeTimestamp :: "golib \<Rightarrow> string \<Rightarrow> string \<Rightarrow> ts_error + i64" where
  "envelope_normalizeTimestamp L val kind =
     (if kind = ''unix_ns'' \<or> kind = ''unix_ns_str'' then
        (case ParseInt val of None \<Rightarrow> Inl (BadTimestamp ''unix_ns'' val) | Some n \<Rightarrow> Inr n)
      else if kind = ''unix_ms'' then
        (case ParseInt val of None \<Rightarrow> Inl (BadTimestamp ''unix_ms'' val) | Some n \<Rightarrow> Inr (n * 1000000))
      else if kind = ''rfc3339'' then
        (case lib_parse_time L rfc3339 val of
           None \<Rightarrow> Inl (BadTimestamp ''rfc3339'' val)
         | Some t \<Rightarrow> Inr (time_UnixNano t))
      else if kind = ''unix_float'' then unix_float L val
      else Inl (UnknownTimestampKind kind))"

definition decodePlain :: "string \<Rightarrow> string list" where
  "decodePlain body =
     concat (map (\<lambda>line. let l = TrimRight line [CHR 0x0D] in if l \<noteq> [] then [l] else []) (split_on (CHR 0x0A) body))"

datatype ndjson_error = MalformedLine nat | FieldNotFound nat string

fun ndjson_loop :: "textlib \<Rightarrow> string \<Rightarrow> nat \<Rightarrow> string list \<Rightarrow> ndjson_error + string list" where
  "ndjson_loop T field i [] = Inr []"
| "ndjson_loop T field i (l # ls) =
     (let line = TrimRight l [CHR 0x0D]
      in if line = [] then ndjson_loop T field (i + 1) ls
         else case unmarshal_raw_map T line of
                None \<Rightarrow> Inl (MalformedLine i)
              | Some raw \<Rightarrow>
                  try_then
                    (if field \<noteq> [] then
                       (case map_get raw field of
                          None \<Rightarrow> Inl (FieldNotFound i field)
                        | Some val \<Rightarrow> Inr (case unmarshal_string T val of None \<Rightarrow> val | Some s \<Rightarrow> s))
                     else Inr line)
                    (\<lambda>r. try_then (ndjson_loop T field (i + 1) ls) (\<lambda>rs. Inr (r # rs))))"

definition decodeNDJSON :: "textlib \<Rightarrow> string \<Rightarrow> string \<Rightarrow> ndjson_error + string list" where
  "decodeNDJSON T body field = ndjson_loop T field 0 (split_on (CHR 0x0A) body)"

definition base64Decode :: "string \<Rightarrow> string option" where
  "base64Decode s = DecodeString StdEncoding s"

datatype extract_error = NotAnObject string string | NoSuchField string

fun extract_loop :: "textlib \<Rightarrow> string \<Rightarrow> string list \<Rightarrow> string \<Rightarrow> extract_error + string" where
  "extract_loop T path [] current = Inr current"
| "extract_loop T path (key # keys) current =
     (case unmarshal_raw_map T current of
        None \<Rightarrow> Inl (NotAnObject path key)
      | Some obj \<Rightarrow> (case map_get obj key of None \<Rightarrow> Inl (NoSuchField path) | Some val \<Rightarrow> extract_loop T path keys val))"

definition extractJSONField :: "textlib \<Rightarrow> string \<Rightarrow> string \<Rightarrow> extract_error + string" where
  "extractJSONField T body path = extract_loop T path (split_on (CHR ''.'') path) body"

section \<open>Records to events\<close>

text \<open>The loop over the decoded records; \<open>origin\<close> is the source named in the envelope.\<close>

definition http_event :: "line_parser \<Rightarrow> (LogEntry \<Rightarrow> string) \<Rightarrow> string \<Rightarrow> payload Event option" where
  "http_event parse origin line = map_option (\<lambda>entry. log_envelope (origin entry) ''http'' entry) (parse line)"

definition take_record ::
  "line_parser \<Rightarrow> (LogEntry \<Rightarrow> string) \<Rightarrow> string \<times> bool \<Rightarrow> payload Event srcst \<Rightarrow> payload Event srcst" where
  "take_record parse origin lr st =
     (case http_event parse origin (fst lr) of
        None \<Rightarrow> st\<lparr>parseErrors := parseErrors st + 1\<rparr>
      | Some ev \<Rightarrow>
          if snd lr then st\<lparr>out := out st @ [ev], linesRead := linesRead st + 1\<rparr>
          else st\<lparr>dropped := dropped st + 1\<rparr>)"

definition offered :: "EnvelopeRecord list \<Rightarrow> (nat \<Rightarrow> bool) \<Rightarrow> (string \<times> bool) list" where
  "offered records room = zip (map er_RawLine records) (map room [0..<length records])"

section \<open>Push\<close>

definition push_meta :: "request \<Rightarrow> string \<rightharpoonup> string" where
  "push_meta rq =
     (let m0 = (if rq_Header rq ''X-Amz-Firehose-Request-Id'' \<noteq> []
                then [''X-Amz-Firehose-Request-Id'' \<mapsto> rq_Header rq ''X-Amz-Firehose-Request-Id''] else Map.empty)
      in if rq_Header rq ''X-Request-ID'' \<noteq> [] then m0(''X-Request-ID'' \<mapsto> rq_Header rq ''X-Request-ID'') else m0)"

definition push_handler :: "weblib \<Rightarrow> parsedConfig \<Rightarrow> adapter \<Rightarrow> line_parser \<Rightarrow> i64 \<Rightarrow> handler" where
  "push_handler W cfg adapter par maxBodyBytes env rq st =
     (case readLimited (rq_Body rq) maxBodyBytes of
        Inl _ \<Rightarrow> (st, nethttp_Error ''request body too large'' 413)
      | Inr body0 \<Rightarrow>
          (case maybeGunzip W body0 (rq_Header rq ''Content-Encoding'') maxBodyBytes of
             Inl e \<Rightarrow> (st, writeJSON 400 e)
           | Inr body \<Rightarrow>
               if (hc_proto cfg = ''loki'' \<or> hc_proto cfg = ''otlp'') \<and> rq_Header rq ''Content-Type'' = ''application/x-protobuf''
               then (st, nethttp_Error ''unsupported content type: application/x-protobuf'' 415)
               else case adapter_Decode W adapter body of
                      Inl e \<Rightarrow> (st, writeJSON 400 (AdapterError e))
                    | Inr records \<Rightarrow>
                        (st\<lparr>ws_src := fold (take_record par le_RemoteAddr) (offered records (we_room env)) (ws_src st)\<rparr>,
                         adapter_WriteAck adapter (we_now_ack env) (push_meta rq))))"

definition endpointURL :: "parsedConfig \<Rightarrow> string" where
  "endpointURL cfg = hc_scheme cfg @ ''://'' @ hc_host cfg @ '':'' @ hc_port cfg @ hc_path cfg"

definition buildPushHandler :: "weblib \<Rightarrow> parsedConfig \<Rightarrow> adapter \<Rightarrow> line_parser \<Rightarrow> i64 \<Rightarrow> handler" where
  "buildPushHandler W cfg adapter par maxBodyBytes =
     (let h = push_handler W cfg adapter par maxBodyBytes;
          handler = CloudflareChallengeMiddleware (bearerAuth (hc_token cfg) h)
      in if hc_proto cfg = ''pubsub'' then PubSubJWTMiddleware W (endpointURL cfg) (hc_token cfg) handler else handler)"

text \<open>
  \<^verbatim>\<open>runPush\<close>: with TLS the certificate is loaded first, which may fail; then the server hands requests to the handler until it
  is shut down, which the context does, or fails. The handlers of concurrent requests are taken in the order of their effects.
\<close>

datatype server_end = ErrServerClosed | ServeFailed string

datatype push_error = LoadCert string | ServeError string

definition serve_requests :: "handler \<Rightarrow> (web_env \<times> request) list \<Rightarrow> webst \<Rightarrow> webst" where
  "serve_requests h reqs st = fold (\<lambda>er st. fst (h (fst er) (snd er) st)) reqs st"

definition runPush ::
  "string option \<Rightarrow> parsedConfig \<Rightarrow> handler \<Rightarrow> (web_env \<times> request) list \<Rightarrow> server_end \<Rightarrow> webst \<Rightarrow> (push_error + unit) \<times> webst" where
  "runPush certErr cfg h reqs ended st =
     (case (if hc_scheme cfg = ''https'' then certErr else None) of
        Some e \<Rightarrow> (Inl (LoadCert e), st)
      | None \<Rightarrow>
          (case ended of ErrServerClosed \<Rightarrow> Inr () | ServeFailed e \<Rightarrow> Inl (ServeError e), serve_requests h reqs st))"

section \<open>Pull\<close>

text \<open>
  What a tick of the poll comes to: the request cannot be built, fails, or is answered with a body, its encoding and
  the room the pipeline has. The status of the answer is not looked at.
\<close>

datatype poll =
    BuildFailed
  | RequestFailed
  | Answer "string \<times> bool" string "nat \<Rightarrow> bool"

datatype pull_event = Tick poll | CtxDone

definition pull_error :: "bool \<Rightarrow> 'e srcst \<Rightarrow> 'e srcst" where
  "pull_error hasLog st = log_if hasLog ''HTTP'' ''error'' st"

definition pull_tick ::
  "weblib \<Rightarrow> parsedConfig \<Rightarrow> adapter \<Rightarrow> line_parser \<Rightarrow> bool \<Rightarrow> poll \<Rightarrow> payload Event srcst \<Rightarrow> payload Event srcst" where
  "pull_tick W cfg adapter par hasLog p st =
     (case p of
        BuildFailed \<Rightarrow> pull_error hasLog st
      | RequestFailed \<Rightarrow> pull_error hasLog st
      | Answer r encoding room \<Rightarrow>
          (case readLimited r (hc_maxBodyBytes cfg) of
             Inl _ \<Rightarrow> pull_error hasLog st
           | Inr body0 \<Rightarrow>
               (case maybeGunzip W body0 encoding (hc_maxBodyBytes cfg) of
                  Inl _ \<Rightarrow> pull_error hasLog st
                | Inr body \<Rightarrow>
                    (case adapter_Decode W adapter body of
                       Inl _ \<Rightarrow> pull_error hasLog st
                     | Inr records \<Rightarrow> fold (take_record par (\<lambda>_. ''http'')) (offered records room) st))))"

text \<open>The loop, with whether it has returned; \<^verbatim>\<open>None\<close> is the panic of \<^verbatim>\<open>time.NewTicker\<close>.\<close>

fun pull_loop ::
  "weblib \<Rightarrow> parsedConfig \<Rightarrow> adapter \<Rightarrow> line_parser \<Rightarrow> bool \<Rightarrow> pull_event list \<Rightarrow> payload Event srcst
    \<Rightarrow> payload Event srcst \<times> bool" where
  "pull_loop W cfg a par hasLog [] st = (st, False)"
| "pull_loop W cfg a par hasLog (CtxDone # es) st = (st, True)"
| "pull_loop W cfg a par hasLog (Tick p # es) st = pull_loop W cfg a par hasLog es (pull_tick W cfg a par hasLog p st)"

definition runPull ::
  "weblib \<Rightarrow> parsedConfig \<Rightarrow> adapter \<Rightarrow> line_parser \<Rightarrow> bool \<Rightarrow> pull_event list \<Rightarrow> payload Event srcst
    \<Rightarrow> (payload Event srcst \<times> bool) option" where
  "runPull W cfg a par hasLog es st =
     (if sint (hc_pullInterval cfg) \<le> 0 then None else Some (pull_loop W cfg a par hasLog es st))"

text \<open>The request of a poll: its address and its \<^verbatim>\<open>Authorization\<close> header.\<close>

definition pull_request :: "parsedConfig \<Rightarrow> string \<times> string" where
  "pull_request cfg = (endpointURL cfg, if hc_token cfg \<noteq> [] then ''Bearer '' @ hc_token cfg else [])"

section \<open>Run\<close>

datatype http_run = RunPull adapter | RunPush adapter

definition HTTPSource_Run :: "(adapter_factory, 'm) Registry \<Rightarrow> parsedConfig \<Rightarrow> build_failure + http_run" where
  "HTTPSource_Run r cfg =
     try_then (adapters_Build r (hc_proto cfg) \<lparr> ac_EnvelopeField = hc_envelopeField cfg \<rparr>) (\<lambda>a.
       Inr (if hc_mode cfg = ''pull'' then RunPull a else RunPush a))"

section \<open>Lemmas\<close>

subsection \<open>Bounded bodies\<close>

lemma sint_Suc:
  fixes m :: i64
  assumes "sint m < 9223372036854775807"
  shows "sint (m + 1) = sint m + 1"
proof -
  have "sint (m + 1) = sint (word_of_int (sint m + 1) :: i64)" by simp
  also have "\<dots> = signed_take_bit 63 (sint m + 1)" by (simp only: sint_sbintrunc') simp
  also have "\<dots> = sint m + 1"
    using assms sint_ge [of m] by (intro signed_take_bit_int_eq_self) simp_all
  finally show ?thesis .
qed

lemma sint_of_small_length:
  assumes "int n \<le> 9223372036854775807"
  shows "sint (word_of_nat n :: i64) = int n"
  using assms by (intro sint_of_small) simp

text \<open>What the limit lets through: a body that ends without an error within it, whole.\<close>

lemma read_all_limited_within:
  assumes "0 \<le> sint m" "sint m < 9223372036854775807"
  shows "(\<exists>d. read_all_limited r (m + 1) = Some d \<and> \<not> sint m < sint (word_of_nat (length d) :: i64) \<and> d = x) \<longleftrightarrow>
         snd r \<and> int (length (fst r)) \<le> sint m \<and> x = fst r"
proof (cases "int (length (fst r)) < sint (m + 1)")
  case True
  then have "int (length (fst r)) \<le> sint m" using sint_Suc [OF assms(2)] by simp
  moreover have "sint (word_of_nat (length (fst r)) :: i64) = int (length (fst r))"
    using calculation assms(2) by (intro sint_of_small_length) simp
  ultimately show ?thesis using True assms by (auto simp: read_all_limited_def sint_Suc)
next
  case False
  let ?d = "take (nat (sint (m + 1))) (fst r)"
  have "int (length ?d) = sint m + 1" using False assms by (simp add: sint_Suc)
  then have "sint m < sint (word_of_nat (length ?d) :: i64)" using assms(2) sint_of_small_length [of "length ?d"] by simp
  then show ?thesis using False assms by (auto simp: read_all_limited_def sint_Suc)
qed

lemma readLimited_within:
  assumes "0 \<le> sint m" "sint m < 9223372036854775807"
  shows "readLimited r m = Inr x \<longleftrightarrow> snd r \<and> int (length (fst r)) \<le> sint m \<and> x = fst r"
  unfolding read_all_limited_within [OF assms, of r x, symmetric]
  by (auto simp: readLimited_def fail_if_def split: option.splits)

lemma maybeGunzip_within:
  assumes "0 \<le> sint m" "sint m < 9223372036854775807" "enc = ''gzip'' \<or> enc = ''x-gzip''"
  shows "maybeGunzip W b enc m = Inr x \<longleftrightarrow>
         (\<exists>r. wl_gunzip W b = Some r \<and> snd r \<and> int (length (fst r)) \<le> sint m \<and> x = fst r)"
proof -
  have "maybeGunzip W b enc m = Inr x \<longleftrightarrow>
      (\<exists>r. wl_gunzip W b = Some r \<and> (\<exists>d. read_all_limited r (m + 1) = Some d \<and> \<not> sint m < sint (word_of_nat (length d) :: i64) \<and> d = x))"
    using assms(3) by (auto simp: maybeGunzip_def fail_if_def split: option.splits)
  then show ?thesis by (simp only: read_all_limited_within [OF assms(1,2)])
qed

text \<open>
  With the largest limit the sum wraps, the reader is given a negative limit, and every body reads as empty.
\<close>

lemma readLimited_largest: "readLimited r (word_of_int 9223372036854775807) = Inr []"
  by (simp add: readLimited_def read_all_limited_def)

subsection \<open>Configuration\<close>

text \<open>A poll asks for the same address whatever the query of the configured URL is.\<close>

lemma pull_drops_query:
  assumes "wl_url W (ic_URL c1) = Some u" "wl_url W (ic_URL c2) = Some (u\<lparr>u_RawQuery := q\<rparr>)" "ic_Mode c1 = ''pull''"
    "ic_Mode c2 = ''pull''" "parseHTTPConfig W r c1 = Inr p1" "parseHTTPConfig W r c2 = Inr p2"
  shows "fst (pull_request p1) = fst (pull_request p2)"
  using assms
  by (auto simp: parseHTTPConfig_def config_url_def default_to_def Let_def res_Inr pull_request_def endpointURL_def parseProtocol_def)

text \<open>A mode that is neither push nor pull is configured as pull, from the URL, and runs as push.\<close>

lemma unknown_mode_runs_push:
  assumes "ic_Mode cfg \<notin> {[], ''push'', ''pull''}" "parseHTTPConfig W r cfg = Inr p" "HTTPSource_Run r p = Inr k"
  shows "ic_URL cfg \<noteq> [] \<and> (\<exists>a. k = RunPush a)"
  using assms by (auto simp: parseHTTPConfig_def config_url_def default_to_def Let_def res_Inr HTTPSource_Run_def)

text \<open>A pull interval that is not positive is accepted and makes the loop panic.\<close>

lemma pull_interval_panics:
  assumes "parseHTTPConfig W r cfg = Inr p" "ic_PullInterval cfg \<noteq> []"
    "lib_parse_duration (tl_go (wl_text W)) (ic_PullInterval cfg) = Some d" "sint d \<le> 0"
  shows "runPull W p a par hasLog es st = None"
  using assms by (auto simp: parseHTTPConfig_def Let_def res_Inr runPull_def)

text \<open>The protocol that passed the configuration builds its adapter.\<close>

lemma configured_source_runs:
  assumes "register_adapters adapter_inits NewRegistry = Some r" "parseHTTPConfig W r cfg = Inr p"
  shows "\<exists>k. HTTPSource_Run r p = Inr k"
proof -
  have "factories r = adapter_inits" using assms(1) adapters_registered by (metis option.inject)
  moreover have "adapters_Has r (hc_proto p)"
    using assms(2) by (auto simp: parseHTTPConfig_def parseProtocol_def Let_def res_Inr)
  ultimately show ?thesis
    by (auto simp: HTTPSource_Run_def adapters_Build_def adapters_Has_def reg_Get_def adapter_inits_def split: if_splits)
qed

subsection \<open>The helpers that nothing calls\<close>

lemma envelope_normalizeTimestamp_same:
  "envelope_normalizeTimestamp L val kind = Inr n \<longleftrightarrow> normalizeTimestamp L val kind = Inr n"
  by (auto simp: envelope_normalizeTimestamp_def normalizeTimestamp_def split: option.splits)

lemma decodePlain_lines: "decodePlain body = body_lines body"
proof -
  have "concat (map (\<lambda>l. let t = f l in if t \<noteq> [] then [t] else []) ls) = filter (\<lambda>t. t \<noteq> []) (map f ls)" for f :: "string \<Rightarrow> string" and ls
    by (induction ls) (simp_all add: Let_def)
  then show ?thesis by (simp add: decodePlain_def body_lines_def)
qed

text \<open>
  \<^verbatim>\<open>decodeNDJSON\<close> and the adapter agree on what the former accepts when a field is configured; the adapter also accepts lines
  without the field, which it keeps whole.
\<close>

lemma ndjson_loop_adapter:
  assumes "ndjson_loop T field i ls = Inr rs" "field \<noteq> []"
  shows "decode_each (ndjson_line T field) (filter (\<lambda>l. l \<noteq> []) (map (\<lambda>l. TrimRight l [CHR 0x0D]) ls)) = Inr (map raw_record rs)"
  using assms
proof (induction ls arbitrary: i rs)
  case (Cons l ls)
  show ?case
  proof (cases "TrimRight l [CHR 0x0D] = []")
    case True
    then show ?thesis using Cons by simp
  next
    case False
    then obtain raw val rs1 where "unmarshal_raw_map T (TrimRight l [CHR 0x0D]) = Some raw" "map_get raw field = Some val"
      "ndjson_loop T field (i + 1) ls = Inr rs1" "rs = (case unmarshal_string T val of None \<Rightarrow> val | Some s \<Rightarrow> s) # rs1"
      using Cons.prems by (auto simp: Let_def res_Inr split: option.splits if_splits)
    then show ?thesis using False Cons.IH Cons.prems(2) by (simp add: ndjson_line_def split: option.split)
  qed
qed simp

lemma ndjson_agree:
  "decodeNDJSON T body field = Inr rs \<Longrightarrow> field \<noteq> [] \<Longrightarrow> Generic_Decode T field True body = Inr (map raw_record rs)"
  using ndjson_loop_adapter [of T field 0 "split_on (CHR 0x0A) body" rs]
  by (simp add: decodeNDJSON_def Generic_Decode_def body_lines_def)

subsection \<open>Records\<close>

text \<open>
  Here \<^verbatim>\<open>linesRead\<close> counts the delivered events only, so it is the sum of the three counters that counts the records.
\<close>

interpretation web: line_source "take_record parse origin" "\<lambda>s. linesRead s + parseErrors s + dropped s" parseErrors dropped out
    "\<lambda>i. http_event parse origin (fst i)" snd for parse origin
  by unfold_locales (auto simp: take_record_def split: option.split)

definition delivered_events ::
  "line_parser \<Rightarrow> (LogEntry \<Rightarrow> string) \<Rightarrow> EnvelopeRecord list \<Rightarrow> (nat \<Rightarrow> bool) \<Rightarrow> payload Event list" where
  "delivered_events parse origin records room =
     concat (map (\<lambda>i. case http_event parse origin (er_RawLine (records ! i)) of Some e \<Rightarrow> if room i then [e] else [] | None \<Rightarrow> [])
       [0..<length records])"

lemma delivered_offered: "web.delivered parse origin (offered records room) = delivered_events parse origin records room"
proof -
  have "offered records room = map (\<lambda>i. (er_RawLine (records ! i), room i)) [0..<length records]"
    by (rule nth_equalityI) (simp_all add: offered_def)
  then show ?thesis by (simp add: web.delivered_def delivered_events_def comp_def cong: option.case_cong)
qed

lemma offered_length [simp]: "length (offered records room) = length records"
  by (simp add: offered_def)

definition accounted :: "nat \<Rightarrow> 'e list \<Rightarrow> 'e srcst \<Rightarrow> 'e srcst \<Rightarrow> bool" where
  "accounted n evs s s1 =
     (out s1 = out s @ evs \<and> linesRead s1 = linesRead s + word_of_nat (length evs) \<and>
      linesRead s1 + parseErrors s1 + dropped s1 = linesRead s + parseErrors s + dropped s + word_of_nat n)"

lemma records_accounted:
  "accounted (length records) (delivered_events parse origin records room) s (fold (take_record parse origin) (offered records room) s)"
proof -
  let ?s1 = "fold (take_record parse origin) (offered records room) s"
  have o: "out ?s1 = out s @ delivered_events parse origin records room"
    using web.run_sent [of parse origin "offered records room" s] by (simp add: delivered_offered)
  have "linesRead ?s1 - word_of_nat (length (out ?s1)) = linesRead s - word_of_nat (length (out s))"
    using web.run_balance [of parse origin "offered records room" s] by simp
  then have "linesRead ?s1 = linesRead s + word_of_nat (length (delivered_events parse origin records room))"
    by (simp add: o diff_eq_eq)
  then show ?thesis using o web.run_lines [of parse origin "offered records room" s] by (simp add: accounted_def)
qed

subsection \<open>The chain of gates\<close>

definition authorized :: "weblib \<Rightarrow> parsedConfig \<Rightarrow> web_env \<Rightarrow> request \<Rightarrow> jwksCache option \<Rightarrow> bool" where
  "authorized W cfg env rq store =
     ((hc_token cfg = [] \<or> rq_Header rq ''Authorization'' = ''Bearer '' @ hc_token cfg) \<and>
      (hc_proto cfg = ''pubsub'' \<longrightarrow>
        (\<exists>token keys. rq_Header rq ''Authorization'' = ''Bearer '' @ token \<and> fst (getJWKS (wl_text W) env store) = Some keys \<and>
           jwt_ok W (we_now_exp env) (endpointURL cfg) keys token)))"

definition challenged :: "request \<Rightarrow> bool" where
  "challenged rq = (rq_Method rq = ''GET'' \<and> query_Get (rq_Query rq) ''validate'' = ''true'' \<and> rq_Header rq ''Ownership-Challenge'' \<noteq> [])"

definition after_jwt :: "weblib \<Rightarrow> parsedConfig \<Rightarrow> web_env \<Rightarrow> webst \<Rightarrow> webst" where
  "after_jwt W cfg env st =
     (if hc_proto cfg = ''pubsub'' then st\<lparr>ws_jwks := snd (getJWKS (wl_text W) env (ws_jwks st))\<rparr> else st)"

lemma gate_cases:
  "CloudflareChallengeMiddleware (bearerAuth tok h) env rq st =
     (if challenged rq then
        (st, if isValidChallenge (rq_Header rq ''Ownership-Challenge'')
             then \<lparr> rs_Code = 200, rs_Type = ''text/plain'', rs_Body = TextBody (rq_Header rq ''Ownership-Challenge'') \<rparr>
             else nethttp_Error ''invalid challenge format'' 400)
      else if tok = [] \<or> rq_Header rq ''Authorization'' = ''Bearer '' @ tok then h env rq st
      else (st, writeJSON 401 Unauthorized))"
  by (auto simp: CloudflareChallengeMiddleware_def bearerAuth_def challenged_def Let_def)

text \<open>A request that is no challenge reaches the handler exactly when it is authorized; any other leaves the source alone.\<close>

lemma jwt_gate:
  "PubSubJWTMiddleware W aud tok h env rq st =
     (if \<exists>token keys. rq_Header rq ''Authorization'' = ''Bearer '' @ token \<and> (tok = [] \<or> token = tok) \<and>
           fst (getJWKS (wl_text W) env (ws_jwks st)) = Some keys \<and> jwt_ok W (we_now_exp env) aud keys token
      then h env rq (st\<lparr>ws_jwks := snd (getJWKS (wl_text W) env (ws_jwks st))\<rparr>)
      else (if jwt_parse (wl_text W) (we_now_exp env) aud tok (rq_Header rq ''Authorization'') = None then st
            else st\<lparr>ws_jwks := snd (getJWKS (wl_text W) env (ws_jwks st))\<rparr>, httpError 401))"
proof -
  obtain keys store where g: "getJWKS (wl_text W) env (ws_jwks st) = (keys, store)" by (cases "getJWKS (wl_text W) env (ws_jwks st)")
  show ?thesis
  proof (cases keys)
    case None
    then show ?thesis by (simp add: PubSubJWTMiddleware_def g Let_def split: option.split)
  next
    case (Some ks)
    have "(\<exists>token keys. rq_Header rq ''Authorization'' = ''Bearer '' @ token \<and> (tok = [] \<or> token = tok) \<and>
        fst (getJWKS (wl_text W) env (ws_jwks st)) = Some keys \<and> jwt_ok W (we_now_exp env) aud keys token) \<longleftrightarrow>
      (\<exists>kis. jwt_parse (wl_text W) (we_now_exp env) aud tok (rq_Header rq ''Authorization'') = Some kis \<and> jwt_verify W ks kis)"
      unfolding jwt_pass g Some by auto
    then show ?thesis by (simp add: PubSubJWTMiddleware_def g Some Let_def split: option.split)
  qed
qed

lemma chain_authorized:
  assumes "\<not> challenged rq" "authorized W cfg env rq (ws_jwks st)"
  shows "buildPushHandler W cfg a par m env rq st = push_handler W cfg a par m env rq (after_jwt W cfg env st)"
  using assms
  by (auto simp: buildPushHandler_def Let_def jwt_gate gate_cases authorized_def after_jwt_def)

lemma chain_refused:
  assumes "\<not> authorized W cfg env rq (ws_jwks st) \<or> challenged rq" "buildPushHandler W cfg a par m env rq st = (st1, rs)"
  shows "ws_src st1 = ws_src st \<and> (\<not> challenged rq \<longrightarrow> rs_Code rs = 401)"
  using assms
  by (auto simp: buildPushHandler_def Let_def jwt_gate gate_cases authorized_def httpError_def nethttp_Error_def writeJSON_def
      split: if_splits)

subsection \<open>Requests\<close>

lemma ack_code: "rs_Code (adapter_WriteAck a now meta) \<in> {200, 204}"
  by (cases a) (simp_all add: header_only_def json_text_reply_def)

lemma maybeGunzip_bounded:
  assumes "0 \<le> sint m" "sint m < 9223372036854775807" "int (length b) \<le> sint m" "maybeGunzip W b enc m = Inr x"
  shows "int (length x) \<le> sint m"
proof (cases "enc = ''gzip'' \<or> enc = ''x-gzip''")
  case True
  then show ?thesis using maybeGunzip_within [OF assms(1,2) True] assms(4) by auto
next
  case False
  then show ?thesis using assms(3,4) by (auto simp: maybeGunzip_def split: if_splits)
qed

lemma push_handler_cases:
  assumes "push_handler W cfg a par m env rq st = (st1, rs)" "0 \<le> sint m" "sint m < 9223372036854775807"
  shows "rs_Code rs \<in> {400, 413, 415} \<and> st1 = st \<or>
    rs_Code rs \<in> {200, 204} \<and> ws_jwks st1 = ws_jwks st \<and>
    (\<exists>body recs. int (length body) \<le> sint m \<and> adapter_Decode W a body = Inr recs \<and>
       accounted (length recs) (delivered_events par le_RemoteAddr recs (we_room env)) (ws_src st) (ws_src st1))"
proof (cases "rs_Code rs \<in> {400, 413, 415} \<and> st1 = st")
  case False
  then obtain body0 body recs where b: "readLimited (rq_Body rq) m = Inr body0"
    "maybeGunzip W body0 (rq_Header rq ''Content-Encoding'') m = Inr body" "adapter_Decode W a body = Inr recs"
    "st1 = st\<lparr>ws_src := fold (take_record par le_RemoteAddr) (offered recs (we_room env)) (ws_src st)\<rparr>"
    "rs = adapter_WriteAck a (we_now_ack env) (push_meta rq)"
    using assms(1) by (auto simp: push_handler_def nethttp_Error_def writeJSON_def split: sum.splits if_splits)
  have "int (length body) \<le> sint m"
    using maybeGunzip_bounded [OF assms(2,3) _ b(2)] readLimited_within [OF assms(2,3)] b(1) by auto
  then show ?thesis using b ack_code records_accounted by auto
qed simp


text \<open>
  C21: the gates. A request that is no challenge is refused with 401 exactly when it lacks what is configured: the bearer token, and
  for Pub/Sub a token of three parts, signed with RS256 under a key of the key server, unexpired, for this endpoint and
  a verified email. A challenge never reaches the source and gets back nothing but the characters a challenge may have.
\<close>

theorem push_needs_credentials:
  assumes "buildPushHandler W cfg a par m env rq st = (st1, rs)"
  shows "if challenged rq
    then ws_src st1 = ws_src st \<and> (rs_Code rs = 200 \<longrightarrow> (\<exists>s. rs_Body rs = TextBody s \<and> list_all challenge_byte s))
    else rs_Code rs = 401 \<longleftrightarrow> \<not> authorized W cfg env rq (ws_jwks st)"
proof (cases "challenged rq")
  case True
  then show ?thesis using chain_refused [OF _ assms] assms
    by (auto simp: buildPushHandler_def Let_def jwt_gate gate_cases isValidChallenge_def nethttp_Error_def httpError_def split: if_splits)
next
  case False
  have "rs_Code rs \<noteq> 401" if "push_handler W cfg a par m env rq st0 = (st1, rs)" for st0
  proof -
    have c: "rs_Code (adapter_WriteAck a now meta) \<noteq> 401" for now meta using ack_code [of a now meta] by auto
    show ?thesis using that
      by (auto simp: push_handler_def nethttp_Error_def writeJSON_def c split: sum.splits if_splits)
  qed
  then show ?thesis
    using False chain_refused [OF _ assms] assms chain_authorized [OF False, of W cfg env st a par m]
    by (cases "authorized W cfg env rq (ws_jwks st)") auto
qed

text \<open>
  C31: the limit on bodies. With a limit that can be exceeded at all, a body is read exactly when it ends without an error within the
  limit, and a compressed one is decompressed exactly when what it decompresses to does, however much smaller it was.
\<close>

theorem bodies_bounded:
  assumes "0 \<le> sint m" "sint m < 9223372036854775807"
  shows "(readLimited r m = Inr x \<longleftrightarrow> snd r \<and> int (length (fst r)) \<le> sint m \<and> x = fst r) \<and>
    (maybeGunzip W b ''gzip'' m = Inr y \<longleftrightarrow>
       (\<exists>z. wl_gunzip W b = Some (z, True) \<and> int (length z) \<le> sint m \<and> y = z))"
  using readLimited_within [OF assms, of r x] maybeGunzip_within [OF assms, of "''gzip''" W b y] by auto

definition push_run :: "weblib \<Rightarrow> parsedConfig \<Rightarrow> adapter \<Rightarrow> line_parser \<Rightarrow> i64 \<Rightarrow> (web_env \<times> request) list \<Rightarrow> webst \<Rightarrow> webst" where
  "push_run W cfg a par m reqs st = fold (\<lambda>er st. fst (buildPushHandler W cfg a par m (fst er) (snd er) st)) reqs st"

text \<open>
  The source in push mode ends without an error exactly when it was shut down with its certificate loaded, and has then
  taken every request through the chain; without the certificate it takes none.
\<close>

lemma runPush_outcome:
  "runPush certErr cfg (buildPushHandler W cfg a par m) reqs ended st =
     (if hc_scheme cfg = ''https'' \<and> certErr \<noteq> None then (Inl (LoadCert (the certErr)), st)
      else (case ended of ErrServerClosed \<Rightarrow> Inr () | ServeFailed e \<Rightarrow> Inl (ServeError e), push_run W cfg a par m reqs st))"
  by (auto simp: runPush_def push_run_def serve_requests_def)

lemma handler_keeps_cache: "ws_jwks (fst (push_handler W cfg a par m env rq st)) = ws_jwks st"
  by (auto simp: push_handler_def split: sum.split)

lemma chain_cache:
  "ws_jwks (fst (buildPushHandler W cfg a par m env rq st)) \<in> {ws_jwks st, snd (getJWKS (wl_text W) env (ws_jwks st))}"
  by (auto simp: buildPushHandler_def Let_def jwt_gate gate_cases handler_keeps_cache)

lemma cache_from_mono: "cache_from T envs store \<Longrightarrow> set envs \<subseteq> set envs1 \<Longrightarrow> cache_from T envs1 store"
  unfolding cache_from_def by blast

lemma push_run_cache:
  assumes "ws_jwks st = None"
  shows "cache_from (wl_text W) (map fst reqs) (ws_jwks (push_run W cfg a par m reqs st))"
proof (induction reqs rule: rev_induct)
  case Nil
  then show ?case using assms by (simp add: push_run_def cache_from_def)
next
  case (snoc er reqs)
  let ?st = "push_run W cfg a par m reqs st"
  have "cache_from (wl_text W) (map fst reqs @ [fst er]) (ws_jwks ?st)" using snoc by (rule cache_from_mono) auto
  moreover have "cache_from (wl_text W) (map fst reqs @ [fst er]) (snd (getJWKS (wl_text W) (fst er) (ws_jwks ?st)))"
    using snoc by (rule cache_from_getJWKS)
  moreover have "push_run W cfg a par m (reqs @ [er]) st = fst (buildPushHandler W cfg a par m (fst er) (snd er) ?st)"
    by (simp add: push_run_def)
  ultimately show ?case using chain_cache [of W cfg a par m "fst er" "snd er" ?st] by auto
qed

lemma keys_age:
  assumes "cache_from T envs store" "fst (getJWKS T env store) = Some keys"
  shows "fetched T env keys \<or>
    (\<exists>e\<in>set envs. fetched T e keys \<and> t_ns (we_now_load env) < t_ns (we_now_store e) + 3600000000000)"
proof -
  obtain store1 where "getJWKS T env store = (Some keys, store1)" using assms(2) by (metis prod.collapse)
  from getJWKS_cases [OF this] show ?thesis using assms(1)
    by (auto simp: cache_from_def time_Before_def time_Add_def)
qed

text \<open>
  C22: over any sequence of requests from the start, a Pub/Sub push is acknowledged only with a token that is valid under a set of keys
  the key server published, to this request or to an earlier one at most an hour before.
\<close>

theorem pubsub_push_is_signed:
  assumes "ws_jwks st = None" "hc_proto cfg = ''pubsub''"
    and "buildPushHandler W cfg a par m env rq (push_run W cfg a par m reqs st) = (st1, rs)"
    and "\<not> challenged rq" "rs_Code rs \<noteq> 401"
  shows "\<exists>token keys. rq_Header rq ''Authorization'' = ''Bearer '' @ token \<and>
    jwt_ok W (we_now_exp env) (endpointURL cfg) keys token \<and>
    (fetched (wl_text W) env keys \<or>
     (\<exists>e\<in>set (map fst reqs). fetched (wl_text W) e keys \<and> t_ns (we_now_load env) < t_ns (we_now_store e) + 3600000000000))"
proof -
  let ?st = "push_run W cfg a par m reqs st"
  have "authorized W cfg env rq (ws_jwks ?st)" using chain_refused [OF _ assms(3)] assms(4,5) by auto
  then obtain token keys where "rq_Header rq ''Authorization'' = ''Bearer '' @ token"
    "fst (getJWKS (wl_text W) env (ws_jwks ?st)) = Some keys" "jwt_ok W (we_now_exp env) (endpointURL cfg) keys token"
    using assms(2) by (auto simp: authorized_def)
  then show ?thesis using keys_age [OF push_run_cache [OF assms(1)]] by blast
qed

text \<open>
  With a token configured as well, the two gates compare with the same token: a Pub/Sub request passes only with the configured
  token as its JWT, and none passes when that token has not the three parts of one.
\<close>

lemma pubsub_token_excludes_jwt:
  assumes "hc_proto cfg = ''pubsub''" "hc_token cfg \<noteq> []" "length (split_on (CHR ''.'') (hc_token cfg)) \<noteq> 3"
  shows "\<not> authorized W cfg env rq store"
  using assms by (auto simp: authorized_def jwt_ok_def jwt_parts_def)

subsection \<open>Polls\<close>

definition poll_batch :: "weblib \<Rightarrow> parsedConfig \<Rightarrow> adapter \<Rightarrow> poll \<Rightarrow> EnvelopeRecord list \<times> (nat \<Rightarrow> bool)" where
  "poll_batch W cfg a p =
     (case p of
        Answer r encoding room \<Rightarrow>
          (case try_then (map_sum (\<lambda>_. ()) id (readLimited r (hc_maxBodyBytes cfg))) (\<lambda>b.
                  try_then (map_sum (\<lambda>_. ()) id (maybeGunzip W b encoding (hc_maxBodyBytes cfg))) (\<lambda>b1.
                    map_sum (\<lambda>_. ()) id (adapter_Decode W a b1))) of
             Inl _ \<Rightarrow> ([], room)
           | Inr records \<Rightarrow> (records, room))
      | _ \<Rightarrow> ([], \<lambda>_. False))"

lemma accounted_log [simp]: "accounted n evs s (log_if b t l s) = accounted n evs s s"
  by (simp add: accounted_def)

lemma accounted_none [simp]: "accounted 0 [] s s"
  by (simp add: accounted_def)

lemma accounted_trans: "accounted n xs s s1 \<Longrightarrow> accounted k ys s1 s2 \<Longrightarrow> accounted (n + k) (xs @ ys) s s2"
proof -
  assume a: "accounted n xs s s1" and b: "accounted k ys s1 s2"
  have e: "linesRead s1 + parseErrors s1 + dropped s1 = linesRead s + parseErrors s + dropped s + word_of_nat n"
    using a unfolding accounted_def by blast
  have "linesRead s2 + parseErrors s2 + dropped s2 = linesRead s + parseErrors s + dropped s + word_of_nat n + word_of_nat k"
    using b unfolding accounted_def e by blast
  moreover have "out s2 = out s @ xs @ ys" "linesRead s2 = linesRead s + word_of_nat (length xs) + word_of_nat (length ys)"
    using a b unfolding accounted_def by simp_all
  ultimately show ?thesis unfolding accounted_def by (simp only: length_append of_nat_add append.assoc add.assoc simp_thms)
qed

lemma pull_tick_accounted:
  "accounted (length (fst (poll_batch W cfg a p)))
     (delivered_events par (\<lambda>_. ''http'') (fst (poll_batch W cfg a p)) (snd (poll_batch W cfg a p))) st
     (pull_tick W cfg a par hasLog p st)"
proof -
  have d: "delivered_events par (\<lambda>_. ''http'') [] room = []" for room by (simp add: delivered_events_def)
  show ?thesis
    by (auto simp: pull_tick_def poll_batch_def pull_error_def d records_accounted split: poll.split sum.split)
qed

fun polls :: "pull_event list \<Rightarrow> poll list" where
  "polls [] = []"
| "polls (CtxDone # es) = []"
| "polls (Tick p # es) = p # polls es"

text \<open>
  A failed poll is logged and passed over: the loop returns only when it is cancelled, and every record of every poll that
  succeeds is accounted for.
\<close>

lemma pull_accounts:
  "accounted (sum_list (map (\<lambda>p. length (fst (poll_batch W cfg a p))) (polls es)))
     (concat (map (\<lambda>p. delivered_events par (\<lambda>_. ''http'') (fst (poll_batch W cfg a p)) (snd (poll_batch W cfg a p))) (polls es)))
     st (fst (pull_loop W cfg a par hasLog es st))"
proof (induction es arbitrary: st)
  case (Cons e es)
  then show ?case using accounted_trans [OF pull_tick_accounted Cons.IH] by (cases e) simp_all
qed simp

lemma pull_returns: "snd (pull_loop W cfg a par hasLog es st) \<longleftrightarrow> CtxDone \<in> set es"
  by (induction W cfg a par hasLog es st rule: pull_loop.induct) simp_all

subsection \<open>Examples\<close>

definition ex_config :: parsedConfig where
  "ex_config = \<lparr> hc_mode = ''push'', hc_scheme = ''http'', hc_host = ''h'', hc_port = ''80'', hc_path = ''/'', hc_proto = ''plain'',
     hc_token = ''t'', hc_envelopeField = [], hc_tlsCert = [], hc_tlsKey = [], hc_pullInterval = 1, hc_maxBodyBytes = 64 \<rparr>"

definition ex_env :: web_env where
  "ex_env = \<lparr> we_now_exp = \<lparr>t_ns = 0, t_off = 0\<rparr>, we_now_load = \<lparr>t_ns = 0, t_off = 0\<rparr>, we_now_store = \<lparr>t_ns = 0, t_off = 0\<rparr>,
     we_now_ack = \<lparr>t_ns = 0, t_off = 0\<rparr>, we_jwks = Some (''K'', True), we_room = (\<lambda>i. i = 0) \<rparr>"

definition ex_request :: "string \<Rightarrow> string \<Rightarrow> request" where
  "ex_request auth body = \<lparr> rq_Method = ''POST'', rq_Path = ''/'', rq_Query = [],
     rq_Header = (\<lambda>h. if h = ''Authorization'' then auth else []), rq_Body = (body, True) \<rparr>"

definition ex_state :: webst where
  "ex_state = \<lparr> ws_src = srcst0, ws_jwks = None \<rparr>"

definition ex_lines :: string where
  "ex_lines = ''a'' @ [CHR 0x0A] @ ''b'' @ [CHR 0x0A]"

definition ex_parse :: line_parser where
  "ex_parse line = Some entry0"


theorem push_needs_credentials_witness:
  "\<exists>st1 rs. buildPushHandler weblib0 ex_config (GenericAdapter [] False) ex_parse 64 ex_env (ex_request ''Bearer u'' ex_lines) ex_state = (st1, rs) \<and>
     rs_Code rs = 401 \<and> \<not> authorized weblib0 ex_config ex_env (ex_request ''Bearer u'' ex_lines) None"
proof -
  let ?r = "buildPushHandler weblib0 ex_config (GenericAdapter [] False) ex_parse 64 ex_env (ex_request ''Bearer u'' ex_lines) ex_state"
  have c: "rs_Code (snd ?r) = 401" by code_simp
  have "\<not> challenged (ex_request ''Bearer u'' ex_lines)" by (simp add: challenged_def ex_request_def)
  then have "\<not> authorized weblib0 ex_config ex_env (ex_request ''Bearer u'' ex_lines) (ws_jwks ex_state)"
    using push_needs_credentials [OF surjective_pairing [of ?r]] c by simp
  then show ?thesis using c by (intro exI [of _ "fst ?r"] exI [of _ "snd ?r"]) (simp add: ex_state_def)
qed

theorem bodies_bounded_witness:
  "readLimited (''abcd'', True) 4 = Inr ''abcd'' \<and> maybeGunzip (weblib0\<lparr>wl_gunzip := (\<lambda>s. Some (''abcde'', True))\<rparr>) [] ''gzip'' 4 \<noteq> Inr ''abcde''"
  using bodies_bounded [of 4 "(''abcd'', True)" "''abcd''" "weblib0\<lparr>wl_gunzip := (\<lambda>s. Some (''abcde'', True))\<rparr>" "[]" "''abcde''"]
  by simp

text \<open>A library that reads one token and one set of keys, and takes every signature.\<close>

definition ex_json :: "string \<Rightarrow> json option" where
  "ex_json s =
     (if s = ''H'' then Some (JObj [(''kid'', JStr ''k''), (''alg'', JStr ''RS256'')])
      else if s = ''P'' then Some (JObj [(''aud'', JStr ''http://h:80/''), (''exp'', JNum ''9''), (''email'', JStr ''e''),
        (''email_verified'', JBool True)])
      else if s = ''K'' then Some (JObj [(''keys'', JArr [JObj [(''kid'', JStr ''k''), (''n'', JStr ''AQ''), (''e'', JStr ''AQ'')]])])
      else None)"

definition ex_weblib :: weblib where
  "ex_weblib = weblib0\<lparr>wl_text := textlib0\<lparr>tl_json := ex_json\<rparr>, wl_verify := (\<lambda>n e t s. True)\<rparr>"

theorem pubsub_push_is_signed_witness:
  "\<exists>token keys. ''Bearer SA.UA.AQ'' = ''Bearer '' @ token \<and> jwt_ok ex_weblib (we_now_exp ex_env) ''http://h:80/'' keys token \<and>
     fetched (wl_text ex_weblib) ex_env keys"
proof -
  let ?cfg = "ex_config\<lparr>hc_proto := ''pubsub'', hc_token := []\<rparr>"
  let ?rq = "ex_request ''Bearer SA.UA.AQ'' []"
  let ?st = "push_run ex_weblib ?cfg PubSubAdapter ex_parse 64 [] ex_state"
  have c: "rs_Code (snd (buildPushHandler ex_weblib ?cfg PubSubAdapter ex_parse 64 ex_env ?rq ?st)) = 400" by code_simp
  have n: "\<not> challenged ?rq" by (simp add: challenged_def ex_request_def)
  have e: "endpointURL ?cfg = ''http://h:80/''" by (simp add: endpointURL_def ex_config_def)
  from pubsub_push_is_signed [of ex_state ?cfg ex_weblib PubSubAdapter ex_parse 64 ex_env ?rq "[]", OF _ _ surjective_pairing n] c
  show ?thesis by (simp add: ex_state_def e ex_request_def)
qed

end
