(* ===== verification/Log_Aggregator.thy ===== *)
theory Log_Aggregator
  imports Event_Sinks Runtime_Engine
begin

text \<open>
  The product of \<^verbatim>\<open>examples/logaggregator\<close>: a syslog source, a filter on severity and substring, a JSON formatter and a
  file sink, put together on the engine. Its processor, factory and sink are arguments of the engine's model, so the
  theorem at the end composes four components: datagrams in, lines of a file out.

  A payload is what the source emits or the product's own record. The flags and the signals of \<^verbatim>\<open>main\<close> are left out; the
  wiring it does is the pipeline \<open>agg_pipe\<close> of the stream \<open>agg_stream\<close>.
\<close>

section \<open>Records and the filter\<close>

record LogRecord =
  rc_Time :: gotime
  rc_Host :: string
  rc_Severity :: string
  rc_Message :: string
  rc_RemoteAddr :: string
  rc_Status :: i64
  rc_Path :: string

datatype agg_payload = Emitted payload | Rec LogRecord

record FilterProcessor =
  fp_minSeverity :: string
  fp_substring :: string

definition severityRank :: "string \<rightharpoonup> nat" where
  "severityRank = map_of [(''DEBUG'', 0), (''INFO'', 1), (''WARN'', 2), (''ERROR'', 3)]"

definition severityFromStatus :: "i64 \<Rightarrow> string" where
  "severityFromStatus status =
     (if 500 \<le> sint status then ''ERROR'' else if 400 \<le> sint status then ''WARN'' else ''INFO'')"

definition buildRecord :: "LogEntry \<Rightarrow> LogRecord" where
  "buildRecord le =
     \<lparr> rc_Time = le_Time le,
       rc_Host = (if le_RealIP le = [] then le_RemoteAddr le else le_RealIP le),
       rc_Severity = severityFromStatus (le_Status le),
       rc_Message = le_Method le @ '' '' @ le_Path le @ '' '' @ FormatInt (sint (le_Status le)),
       rc_RemoteAddr = le_RemoteAddr le, rc_Status = le_Status le, rc_Path = le_Path le \<rparr>"

definition skip_action :: "agg_payload Action" where
  "skip_action = \<lparr> act_Skip = True, act_Payload = None \<rparr>"

definition below_floor :: "FilterProcessor \<Rightarrow> LogRecord \<Rightarrow> bool" where
  "below_floor f record =
     (fp_minSeverity f \<noteq> [] \<and>
      (case (severityRank (fp_minSeverity f), severityRank (rc_Severity record)) of
         (Some lo, Some got) \<Rightarrow> got < lo
       | _ \<Rightarrow> False))"

text \<open>\<^verbatim>\<open>None\<close> is a panic: an entry that is a nil pointer passes the type assertion and is dereferenced.\<close>

definition Filter_Process :: "FilterProcessor \<Rightarrow> agg_payload Event option \<Rightarrow> EventContext \<Rightarrow> agg_payload Action option" where
  "Filter_Process f entry evctx =
     (case entry of
        None \<Rightarrow> Some skip_action
      | Some e \<Rightarrow>
          (case Payload e of
             Emitted (PLogEntry None) \<Rightarrow> None
           | Emitted (PLogEntry (Some le)) \<Rightarrow>
               (let record = buildRecord le
                in if below_floor f record then Some skip_action
                   else if fp_substring f \<noteq> [] \<and> \<not> str_contains (rc_Message record) (fp_substring f) then Some skip_action
                   else Some \<lparr> act_Skip = False,
                          act_Payload = Some \<lparr> Timestamp = Timestamp e, Stream = ev_StreamName evctx, Source = Source e,
                            SourceType = SourceType e, Level = rc_Severity record, Payload = Rec record \<rparr> \<rparr>)
           | _ \<Rightarrow> Some skip_action))"

definition Filter_Build :: "string \<Rightarrow> string \<Rightarrow> int \<Rightarrow> string + unit" where
  "Filter_Build streamName pipeName pipeIdx = Inr ()"

definition Filter_Reload :: "unit \<Rightarrow> string + unit" where
  "Filter_Reload old = Inr old"

section \<open>The formatter\<close>

definition agg_time_layout :: string where "agg_time_layout = ''2006-01-02T15:04:05.000Z07:00''"

definition time_UTC :: "gotime \<Rightarrow> gotime" where
  "time_UTC t = t\<lparr>t_off := 0\<rparr>"

text \<open>The members of \<^verbatim>\<open>outJSON\<close> in the order of the struct.\<close>

definition outJSON :: "textlib \<Rightarrow> LogRecord \<Rightarrow> Envelope \<Rightarrow> json" where
  "outJSON T rc env =
     JObj [(''time'', JStr (tl_utf8 T (lib_format_time (tl_go T) agg_time_layout (time_UTC (rc_Time rc))))),
           (''host'', JStr (tl_utf8 T (rc_Host rc))), (''severity'', JStr (tl_utf8 T (rc_Severity rc))),
           (''message'', JStr (tl_utf8 T (rc_Message rc))), (''remote_addr'', JStr (tl_utf8 T (rc_RemoteAddr rc))),
           (''status'', JNum (FormatInt (sint (rc_Status rc)))), (''path'', JStr (tl_utf8 T (rc_Path rc))),
           (''stream'', JStr (tl_utf8 T (Stream env))), (''source'', JStr (tl_utf8 T (Source env))),
           (''source_type'', JStr (tl_utf8 T (SourceType env))), (''level'', JStr (tl_utf8 T (Level env)))]"

definition envelope_of :: "'p Event \<Rightarrow> Envelope" where
  "envelope_of e =
     \<lparr> Timestamp = Timestamp e, Stream = Stream e, Source = Source e, SourceType = SourceType e, Level = Level e \<rparr>"

text \<open>The verb \<^verbatim>\<open>%T\<close> on a payload; an absent payload prints as \<^verbatim>\<open><nil>\<close>.\<close>

definition payload_type_name :: "agg_payload \<Rightarrow> string" where
  "payload_type_name p =
     (case p of Rec _ \<Rightarrow> ''*main.LogRecord'' | Emitted PNil \<Rightarrow> ''<nil>'' | Emitted (PLogEntry _) \<Rightarrow> ''*parser.LogEntry''
      | Emitted (POther t) \<Rightarrow> t)"

definition JSON_Format :: "textlib \<Rightarrow> agg_payload Event option \<Rightarrow> string + string" where
  "JSON_Format T event =
     (case event of
        None \<Rightarrow> Inl ''json formatter: nil event''
      | Some e \<Rightarrow>
          (case Payload e of
             Rec rc \<Rightarrow> Inr (tl_print T (outJSON T rc (envelope_of e)))
           | _ \<Rightarrow> Inl (''json formatter: payload is '' @ payload_type_name (Payload e) @ '', expected *LogRecord'')))"

section \<open>The wiring\<close>

type_synonym agg_world = "FileSink \<times> fsys"

definition sink_error_text :: "sink_error \<Rightarrow> string" where
  "sink_error_text e =
     (case e of NilEvent \<Rightarrow> ''nil event'' | FormatError m \<Rightarrow> m | FileClosed \<Rightarrow> ''file closed'' | WriteError m \<Rightarrow> m)"

text \<open>The file sink on a system that takes every write; \<open>E\<close> answers the calls that open files.\<close>

definition agg_sink :: "textlib \<Rightarrow> osenv \<Rightarrow> string \<Rightarrow> (agg_payload, agg_world) RSink" where
  "agg_sink T E path =
     \<lparr> sk_Name = ''file:'' @ path,
       sk_Write = (\<lambda>live e w. case FileSink_Write (\<lambda>e. JSON_Format T (Some e)) (Some e, WriteOK) w of
                     (err, w1) \<Rightarrow> Some (map_option sink_error_text err, w1)),
       sk_Reload = Some (\<lambda>w. Some (FileSink_Reload E w)) \<rparr>"

definition agg_product :: "FilterProcessor \<Rightarrow> (agg_payload, unit, agg_world) Product" where
  "agg_product f =
     \<lparr> process = (\<lambda>live e st evctx w. map_option (\<lambda>a. (a, w)) (Filter_Process f (Some e) evctx)),
       Build = (\<lambda>s p i w. Some (Filter_Build s p i, w)),
       Reload = (\<lambda>st w. Some (Filter_Reload st, w)),
       is_LineProcessor = True \<rparr>"

definition agg_pipe :: "textlib \<Rightarrow> osenv \<Rightarrow> string \<Rightarrow> string \<Rightarrow> (agg_payload, agg_world) PipelineSpec" where
  "agg_pipe T E src path =
     \<lparr> pipe_Name = ''main'', pipe_Idx = 0, pipe_Sources = [src], pipe_Sinks = [agg_sink T E path] \<rparr>"

definition agg_stream :: "textlib \<Rightarrow> osenv \<Rightarrow> string \<Rightarrow> string \<Rightarrow> (agg_payload, agg_world) StreamSpec" where
  "agg_stream T E src path =
     \<lparr> stream_Name = ''logaggregator'', TrackerGroup = [], BufferSize = 1000, ShutdownTimeout = 0,
       StatsInterval = 30000000000, Pipelines = [agg_pipe T E src path] \<rparr>"

text \<open>An event of the source as it enters the pipeline.\<close>

definition entering :: "payload Event \<Rightarrow> agg_payload Event" where
  "entering e = \<lparr> Timestamp = Timestamp e, Stream = Stream e, Source = Source e, SourceType = SourceType e, Level = Level e,
     Payload = Emitted (Payload e) \<rparr>"

section \<open>Lemmas\<close>

subsection \<open>The filter\<close>

text \<open>
  What the flags promise: a floor of \<^verbatim>\<open>WARN\<close> keeps the classes 4xx and above, \<^verbatim>\<open>ERROR\<close> those from 5xx, any other floor everything;
  a substring is searched in the request with its status.
\<close>

definition request_summary :: "LogEntry \<Rightarrow> string" where
  "request_summary le = concat [le_Method le, '' '', le_Path le, '' '', FormatInt (sint (le_Status le))]"

definition passes :: "FilterProcessor \<Rightarrow> LogEntry \<Rightarrow> bool" where
  "passes f le =
     ((fp_minSeverity f = ''WARN'' \<longrightarrow> 4 \<le> sint (le_Status le) div 100) \<and>
      (fp_minSeverity f = ''ERROR'' \<longrightarrow> 5 \<le> sint (le_Status le) div 100) \<and>
      (fp_substring f = [] \<or> str_contains (request_summary le) (fp_substring f)))"

text \<open>The event a passing entry becomes.\<close>

definition agg_event :: "string \<Rightarrow> LogEntry \<Rightarrow> payload Event \<Rightarrow> agg_payload Event" where
  "agg_event stream le e =
     \<lparr> Timestamp = Timestamp e, Stream = stream, Source = Source e, SourceType = SourceType e,
       Level = severityFromStatus (le_Status le), Payload = Rec (buildRecord le) \<rparr>"

text \<open>
  The severities are ordered: an entry passes a floor that is one of the four tags exactly when its status is high enough. A
  floor that is no tag is ignored.
\<close>

lemma below_floor_status:
  "below_floor f (buildRecord le) \<longleftrightarrow>
     (fp_minSeverity f = ''WARN'' \<and> sint (le_Status le) < 400 \<or> fp_minSeverity f = ''ERROR'' \<and> sint (le_Status le) < 500)"
  by (auto simp: below_floor_def buildRecord_def severityFromStatus_def severityRank_def split: if_splits)

lemma request_summary_eq: "request_summary le = rc_Message (buildRecord le)"
  by (simp add: request_summary_def buildRecord_def)

lemma passes_iff:
  "passes f le \<longleftrightarrow> \<not> below_floor f (buildRecord le) \<and>
     (fp_substring f = [] \<or> str_contains (rc_Message (buildRecord le)) (fp_substring f))"
  by (auto simp: passes_def below_floor_status request_summary_eq [symmetric])

lemma Filter_Process_entry:
  assumes "Payload e = PLogEntry (Some le)"
  shows "\<exists>a. Filter_Process f (Some (entering e)) evctx = Some a \<and>
    published a = (if passes f le then [agg_event (ev_StreamName evctx) le e] else [])"
  using assms
  by (auto simp: Filter_Process_def entering_def passes_iff published_def skip_action_def agg_event_def buildRecord_def Let_def)

text \<open>A nil entry in the interface makes the processor panic, though it checks the type of what it gets.\<close>

lemma nil_entry_panics: "Filter_Process f (Some (entering (WrapLogEntry None env))) evctx = None"
  by (simp add: Filter_Process_def entering_def WrapLogEntry_def)

subsection \<open>The world behind the sink\<close>

definition agg_line :: "textlib \<Rightarrow> agg_payload Event \<Rightarrow> string" where
  "agg_line T e = (case JSON_Format T (Some e) of Inr l \<Rightarrow> l @ [CHR 0x0A] | Inl _ \<Rightarrow> [])"

text \<open>The sink has the file of its path open, to which the lines of these events have been appended.\<close>

definition world_ok :: "textlib \<Rightarrow> string \<Rightarrow> nat \<Rightarrow> string \<Rightarrow> agg_payload Event list \<Rightarrow> agg_world \<Rightarrow> bool" where
  "world_ok T path i old evs w =
     (fk_path (fst w) = path \<and> fk_f (fst w) = Some i \<and> names (snd w) path = Some i \<and> i < length (inodes (snd w)) \<and>
      inodes (snd w) ! i = old @ concat (map (agg_line T) evs) \<and>
      FileSink_Stats (fst w) = \<lparr> EventsWritten = word_of_nat (length evs), sk_Dropped = 0, sk_Errors = 0 \<rparr>)"

lemma world_ok_write:
  assumes "world_ok T path i old evs w" "Payload e = Rec rc"
  shows "\<exists>w1. sk_Write (agg_sink T E path) live e w = Some (None, w1) \<and> world_ok T path i old (evs @ [e]) w1"
  using assms
  by (auto simp: world_ok_def agg_sink_def FileSink_Write_def JSON_Format_def agg_line_def FileSink_Stats_def Let_def
      split: prod.split)

lemma world_ok_reload:
  assumes "world_ok T path i old evs w"
  shows "\<exists>err w1. FileSink_Reload E w = (err, w1) \<and> world_ok T path i old evs w1"
  using assms
  by (cases w) (auto simp: FileSink_Reload_def openSinkFile_def open_append_def world_ok_def FileSink_Stats_def split: option.split)

lemma world_ok_New:
  assumes "NewFileSink E path True fs = Inr (sk, fs1)" "case names fs path of Some i \<Rightarrow> i < length (inodes fs) | None \<Rightarrow> True"
  shows "\<exists>i. world_ok T path i (case names fs path of Some i \<Rightarrow> inodes fs ! i | None \<Rightarrow> []) [] (sk, fs1)"
  using assms
  by (auto simp: NewFileSink_def res_Inr openSinkFile_def open_append_def world_ok_def FileSink_Stats_def split: option.splits sum.splits)

text \<open>One entry, and any schedule of entries and reloads.\<close>

definition kept :: "FilterProcessor \<Rightarrow> string \<Rightarrow> (LogEntry \<times> payload Event) list \<Rightarrow> agg_payload Event list" where
  "kept f stream les = map (\<lambda>(le, e). agg_event stream le e) (filter (\<lambda>(le, e). passes f le) les)"

lemma kept_append [simp]: "kept f stream (xs @ ys) = kept f stream xs @ kept f stream ys"
  by (simp add: kept_def)

lemma agg_dispatch:
  assumes "world_ok T path i old evs (rt_world s)" "Payload e = PLogEntry (Some le)"
  shows "\<exists>s1. dispatchEntry (agg_product f) cb [agg_sink T E path] evctx ps live (entering e) s = (False, s1) \<and>
    world_ok T path i old (evs @ kept f (ev_StreamName evctx) [(le, e)]) (rt_world s1)"
proof -
  obtain a where a: "Filter_Process f (Some (entering e)) evctx = Some a"
    "published a = (if passes f le then [agg_event (ev_StreamName evctx) le e] else [])"
    using Filter_Process_entry [OF assms(2)] by blast
  have w: "rt_world (emit_if b x s0) = rt_world s0" for b x and s0 :: "(agg_payload, agg_world) rt" by (simp add: emit_if_def)
  show ?thesis
  proof (cases "passes f le")
    case False
    then have "act_Skip a \<or> act_Payload a = None" using a(2) by (auto simp: published_def split: if_splits option.splits)
    then show ?thesis using a(1) False assms(1)
      by (auto simp: dispatchEntry_def agg_product_def Let_def kept_def w)
  next
    case True
    then have p: "\<not> act_Skip a" "act_Payload a = Some (agg_event (ev_StreamName evctx) le e)"
      using a(2) by (auto simp: published_def split: if_splits option.splits)
    obtain w1 where w1: "sk_Write (agg_sink T E path) live (agg_event (ev_StreamName evctx) le e) (rt_world s) = Some (None, w1)"
      "world_ok T path i old (evs @ [agg_event (ev_StreamName evctx) le e]) w1"
      using world_ok_write [OF assms(1), of "agg_event (ev_StreamName evctx) le e" "buildRecord le" E live]
      by (auto simp: agg_event_def)
    then show ?thesis using a(1) p True
      by (auto simp: dispatchEntry_def agg_product_def Let_def kept_def w)
  qed
qed

lemma agg_drain:
  assumes "world_ok T path i old evs (rt_world s)" "\<forall>(le, e)\<in>set les. Payload e = PLogEntry (Some le)"
  shows "\<exists>s1. drain (agg_product f) cb [agg_sink T E path] evctx ps (map (entering \<circ> snd) les) s = (False, s1) \<and>
    world_ok T path i old (evs @ kept f (ev_StreamName evctx) les) (rt_world s1)"
  using assms
proof (induction les arbitrary: s evs)
  case Nil
  then show ?case by (simp add: kept_def)
next
  case (Cons x les)
  obtain le e where x: "x = (le, e)" by (cases x)
  obtain s1 where s1: "dispatchEntry (agg_product f) cb [agg_sink T E path] evctx ps False (entering e) s = (False, s1)"
    "world_ok T path i old (evs @ kept f (ev_StreamName evctx) [(le, e)]) (rt_world s1)"
    using agg_dispatch [OF Cons.prems(1), of e le] Cons.prems(2) x by force
  from Cons.IH [OF s1(2)] Cons.prems(2) show ?case
    using s1(1) x kept_append [of f "ev_StreamName evctx" "[(le, e)]" les] by (auto simp: simp del: kept_append)
qed

lemma agg_select:
  assumes "world_ok T path i old evs (rt_world s)" "received sels = map (entering \<circ> snd) les"
    "\<forall>(le, e)\<in>set les. Payload e = PLogEntry (Some le)"
  shows "\<exists>s1. select_loop (agg_product f) cb [agg_sink T E path] t evctx ps sels s = (if ends sels then Returned else Waiting, s1) \<and>
    world_ok T path i old (evs @ kept f (ev_StreamName evctx) les) (rt_world s1)"
  using assms
proof (induction sels arbitrary: s evs les ps)
  case Nil
  then show ?case by (simp add: kept_def)
next
  case (Cons x sels)
  show ?case
  proof (cases x)
    case (SelDone xs)
    with Cons.prems(2) have xs: "xs = map (entering \<circ> snd) les" by simp
    have "world_ok T path i old evs (rt_world (emit (Logged (Draining t)) s))" using Cons.prems(1) by simp
    from agg_drain [OF this Cons.prems(3), of f cb E evctx ps] show ?thesis using SelDone xs by auto
  next
    case SelReload
    obtain err w1 where r: "FileSink_Reload E (rt_world s) = (err, w1)" "world_ok T path i old evs w1"
      using world_ok_reload [OF Cons.prems(1)] by blast
    define s1 where "s1 = emit (Logged (Reloaded t)) (case err of
        None \<Rightarrow> emit (SinkReloaded (''file:'' @ path)) (s\<lparr>rt_world := w1\<rparr>)
      | Some e \<Rightarrow> emit (Logged (SinkReloadError t (''file:'' @ path) e)) (emit (SinkReloaded (''file:'' @ path)) (s\<lparr>rt_world := w1\<rparr>)))"
    have "world_ok T path i old evs (rt_world s1)" using r(2) by (simp add: s1_def split: option.split)
    moreover have "select_loop (agg_product f) cb [agg_sink T E path] t evctx ps (x # sels) s =
        select_loop (agg_product f) cb [agg_sink T E path] t evctx () sels s1"
      using SelReload r(1) by (cases err) (simp_all add: agg_product_def Filter_Reload_def agg_sink_def s1_def Let_def)
    ultimately show ?thesis using Cons.IH [of evs s1 les "()"] Cons.prems(2,3) SelReload by simp
  next
    case (SelEntry y)
    with Cons.prems(2) obtain le e les1 where les: "les = (le, e) # les1" "y = entering e" "received sels = map (entering \<circ> snd) les1"
      by (cases les) auto
    obtain s1 where s1: "dispatchEntry (agg_product f) cb [agg_sink T E path] evctx ps True (entering e) s = (False, s1)"
      "world_ok T path i old (evs @ kept f (ev_StreamName evctx) [(le, e)]) (rt_world s1)"
      using agg_dispatch [OF Cons.prems(1), of e le] Cons.prems(3) les(1) by force
    from Cons.IH [OF s1(2) les(3), of ps] Cons.prems(3) s1(1) SelEntry les(1,2) show ?thesis
      using kept_append [of f "ev_StreamName evctx" "[(le, e)]" les1] by (auto simp del: kept_append)
  next
    case SelClosed
    then show ?thesis using Cons.prems by (auto simp: kept_def)
  qed
qed

subsection \<open>From datagrams to the file\<close>

text \<open>The entries of the datagrams that carry one and found room.\<close>

definition agg_accepted :: "line_parser \<Rightarrow> (string \<times> bool) list \<Rightarrow> LogEntry list" where
  "agg_accepted parse drs =
     concat (map (\<lambda>(d, room). case parseMessage d of
        Inr line \<Rightarrow> (case parse line of Some e \<Rightarrow> if room then [e] else [] | None \<Rightarrow> [])
      | Inl _ \<Rightarrow> []) drs)"

lemma syslog_delivers: "out (fst (runPacket parse s ps srcst0)) = map (log_envelope (sy_name s) ''syslog'') (agg_accepted parse (datagrams ps))"
proof -
  have "pkt.delivered parse s drs = map (log_envelope (sy_name s) ''syslog'') (agg_accepted parse drs)" for drs
    unfolding pkt.delivered_def
    by (induction drs) (auto simp: agg_accepted_def syslog_event_def split: sum.split option.split)
  then show ?thesis by (simp add: runPacket_fold pkt.run_sent)
qed

text \<open>The line of an entry, member by member.\<close>

definition status_class :: "i64 \<Rightarrow> string" where
  "status_class n = (if 5 \<le> sint n div 100 then ''ERROR'' else if sint n div 100 = 4 then ''WARN'' else ''INFO'')"

definition agg_record_line :: "textlib \<Rightarrow> string \<Rightarrow> LogEntry \<Rightarrow> string" where
  "agg_record_line T src le =
     (let txt = (\<lambda>k v. (k, JStr (tl_utf8 T v)))
      in tl_print T (JObj
           [txt ''time'' (lib_format_time (tl_go T) ''2006-01-02T15:04:05.000Z07:00'' \<lparr>t_ns = t_ns (le_Time le), t_off = 0\<rparr>),
            txt ''host'' (if le_RealIP le = [] then le_RemoteAddr le else le_RealIP le),
            txt ''severity'' (status_class (le_Status le)), txt ''message'' (request_summary le),
            txt ''remote_addr'' (le_RemoteAddr le), (''status'', JNum (FormatInt (sint (le_Status le)))), txt ''path'' (le_Path le),
            txt ''stream'' ''logaggregator'', txt ''source'' src, txt ''source_type'' ''syslog'',
            txt ''level'' (status_class (le_Status le))])) @ [CHR 0x0A]"

lemma status_class_eq: "severityFromStatus n = status_class n"
  by (auto simp: severityFromStatus_def status_class_def)

lemma agg_record_line_eq:
  "agg_record_line T src le =
     tl_print T (outJSON T (buildRecord le)
       \<lparr> Timestamp = le_Time le, Stream = ''logaggregator'', Source = src, SourceType = ''syslog'',
         Level = severityFromStatus (le_Status le) \<rparr>) @ [CHR 0x0A]"
  by (cases "le_Time le")
    (simp add: agg_record_line_def outJSON_def buildRecord_def status_class_eq request_summary_def agg_time_layout_def time_UTC_def
      Let_def)

lemma agg_line_kept:
  "map (agg_line T) (kept f ''logaggregator'' (map (\<lambda>le. (le, log_envelope src ''syslog'' le)) les)) =
   map (agg_record_line T src) (filter (passes f) les)"
  by (induction les)
    (auto simp: kept_def agg_line_def JSON_Format_def agg_event_def envelope_of_def log_envelope_def WrapLogEntry_def agg_record_line_eq)



end
