(* ===== verification/Rule_Ast_String.thy ===== *)
theory Rule_Ast_String
  imports Rule_Parser
begin

text \<open>
  The debug printing of the syntax tree, the \<^verbatim>\<open>String\<close> methods of \<^verbatim>\<open>pkg/rule/parser/ast.go\<close>. \<open>quote\<close> is the verb
  \<^verbatim>\<open>%q\<close> on a string. The lemmas show that the text depends on the tree without its positions, so that it can be compared
  across layouts of one expression, and that the printing of bytes is read back by the lexer's decoder.
\<close>

section \<open>Printing\<close>

text \<open>The loop of \<^verbatim>\<open>hex_EncodeToString_ForAST\<close>, on the digits of a table.\<close>

definition hexChars :: string where "hexChars = ''0123456789abcdef''"

definition hex_EncodeToString_ForAST :: "bytes \<Rightarrow> string" where
  "hex_EncodeToString_ForAST b =
     (if b = [] then [] else concat (map (\<lambda>c. [hexChars ! unat (drop_bit 4 c), hexChars ! unat (c AND 0x0F)]) b))"

definition time_RFC3339_FOR_AST :: string where
  "time_RFC3339_FOR_AST = ''2006-01-02T15:04:05Z07:00''"

definition literal_String :: "golib \<Rightarrow> (string \<Rightarrow> string) \<Rightarrow> Node \<Rightarrow> string" where
  "literal_String L quote n =
     (case n of
        LitString _ _ v \<Rightarrow> ''LitString('' @ quote (fst (AsString v)) @ '')''
      | LitInt _ _ v \<Rightarrow> ''LitInt('' @ FormatInt (sint (fst (AsInt v))) @ '')''
      | LitFloat _ _ v \<Rightarrow> ''LitFloat('' @ lib_format_float L (fst (AsFloat v)) @ '')''
      | LitBool _ _ v \<Rightarrow> ''LitBool('' @ (if fst (AsBool v) then ''true'' else ''false'') @ '')''
      | LitDuration _ _ v \<Rightarrow> ''LitDuration('' @ lib_format_duration L (fst (AsDuration v)) @ '')''
      | LitTimestamp _ _ v \<Rightarrow> ''LitTimestamp('' @ lib_format_time L time_RFC3339_FOR_AST (fst (AsTimestamp v)) @ '')''
      | LitIP _ _ raw isCIDR v \<Rightarrow> (if isCIDR then ''LitIP(CIDR='' @ raw @ '')'' else ''LitIP('' @ raw @ '')'')
      | LitBytes _ _ v \<Rightarrow> ''LitBytes(0x'' @ hex_EncodeToString_ForAST (fst (AsBytes v)) @ '')''
      | _ \<Rightarrow> [])"

text \<open>The two operands of an operator.\<close>

definition binary_String :: "string \<Rightarrow> string \<Rightarrow> string \<Rightarrow> string" where
  "binary_String name l r = name @ ''('' @ l @ '', '' @ r @ '')''"

fun Node_String :: "golib \<Rightarrow> (string \<Rightarrow> string) \<Rightarrow> Node \<Rightarrow> string" where
  "Node_String L q (LitArray l c es) = ''LitArray['' @ join '', '' (map (Node_String L q) es) @ '']''"
| "Node_String L q (FieldRef l c name) = ''FieldRef('' @ name @ '')''"
| "Node_String L q (BracketAccess l c obj key) =
     ''BracketAccess('' @ Node_String L q obj @ ''['' @ Node_String L q key @ ''])''"
| "Node_String L q (FuncCall l c name args) =
     ''FuncCall('' @ name @ ''('' @ join '', '' (map (Node_String L q) args) @ ''))''"
| "Node_String L q (And l c a b) = binary_String ''And'' (Node_String L q a) (Node_String L q b)"
| "Node_String L q (Or l c a b) = binary_String ''Or'' (Node_String L q a) (Node_String L q b)"
| "Node_String L q (Not l c a) = ''Not('' @ Node_String L q a @ '')''"
| "Node_String L q (Cmp l c opr a b) =
     ''Cmp('' @ CmpOp_String opr @ '', '' @ Node_String L q a @ '', '' @ Node_String L q b @ '')''"
| "Node_String L q (Contains l c a b) = binary_String ''Contains'' (Node_String L q a) (Node_String L q b)"
| "Node_String L q (StartsWith l c a b) = binary_String ''StartsWith'' (Node_String L q a) (Node_String L q b)"
| "Node_String L q (EndsWith l c a b) = binary_String ''EndsWith'' (Node_String L q a) (Node_String L q b)"
| "Node_String L q (Matches l c a b) = binary_String ''Matches'' (Node_String L q a) (Node_String L q b)"
| "Node_String L q (Wildcard l c a b) = binary_String ''Wildcard'' (Node_String L q a) (Node_String L q b)"
| "Node_String L q (BitAnd l c a b) = binary_String ''BitAnd'' (Node_String L q a) (Node_String L q b)"
| "Node_String L q (In l c a b) = binary_String ''In'' (Node_String L q a) (Node_String L q b)"
| "Node_String L q (Strict l c a) = ''Strict('' @ Node_String L q a @ '')''"
| "Node_String L q n = literal_String L q n"

section \<open>Lemmas\<close>

text \<open>A tree without its positions.\<close>

fun unplaced :: "Node \<Rightarrow> Node" where
  "unplaced (LitString l c v) = LitString 0 0 v"
| "unplaced (LitInt l c v) = LitInt 0 0 v"
| "unplaced (LitFloat l c v) = LitFloat 0 0 v"
| "unplaced (LitBool l c v) = LitBool 0 0 v"
| "unplaced (LitDuration l c v) = LitDuration 0 0 v"
| "unplaced (LitTimestamp l c v) = LitTimestamp 0 0 v"
| "unplaced (LitIP l c raw b v) = LitIP 0 0 raw b v"
| "unplaced (LitBytes l c v) = LitBytes 0 0 v"
| "unplaced (LitArray l c es) = LitArray 0 0 (map unplaced es)"
| "unplaced (FieldRef l c name) = FieldRef 0 0 name"
| "unplaced (BracketAccess l c a b) = BracketAccess 0 0 (unplaced a) (unplaced b)"
| "unplaced (FuncCall l c name args) = FuncCall 0 0 name (map unplaced args)"
| "unplaced (And l c a b) = And 0 0 (unplaced a) (unplaced b)"
| "unplaced (Or l c a b) = Or 0 0 (unplaced a) (unplaced b)"
| "unplaced (Not l c a) = Not 0 0 (unplaced a)"
| "unplaced (Cmp l c opr a b) = Cmp 0 0 opr (unplaced a) (unplaced b)"
| "unplaced (Contains l c a b) = Contains 0 0 (unplaced a) (unplaced b)"
| "unplaced (StartsWith l c a b) = StartsWith 0 0 (unplaced a) (unplaced b)"
| "unplaced (EndsWith l c a b) = EndsWith 0 0 (unplaced a) (unplaced b)"
| "unplaced (Matches l c a b) = Matches 0 0 (unplaced a) (unplaced b)"
| "unplaced (Wildcard l c a b) = Wildcard 0 0 (unplaced a) (unplaced b)"
| "unplaced (BitAnd l c a b) = BitAnd 0 0 (unplaced a) (unplaced b)"
| "unplaced (In l c a b) = In 0 0 (unplaced a) (unplaced b)"
| "unplaced (Strict l c a) = Strict 0 0 (unplaced a)"

lemma map_unplaced:
  "(\<And>x. x \<in> set xs \<Longrightarrow> f (unplaced x) = f x) \<Longrightarrow> map (f \<circ> unplaced) xs = map f xs"
  by simp

lemma String_ignores_positions: "Node_String L q (unplaced n) = Node_String L q n"
  by (induction n rule: unplaced.induct) (simp_all add: map_unplaced literal_String_def cong: map_cong)

lemma hexChars_digit: "d < 16 \<Longrightarrow> hexChars ! d = hex_digit d"
proof -
  assume "d < 16"
  then have "d \<in> set [0..<16]" by simp
  moreover have "list_all (\<lambda>d. hexChars ! d = hex_digit d) [0..<16]" by code_simp
  ultimately show ?thesis by (simp only: list_all_iff)
qed

lemma nibbles:
  fixes w :: "8 word"
  shows "unat (drop_bit 4 w) = unat w div 16" "unat (w AND 15) = unat w mod 16" "unat w < 256"
proof -
  have "unat (drop_bit 4 w) = drop_bit 4 (unat w)" by (rule unat_drop_bit_eq)
  then show "unat (drop_bit 4 w) = unat w div 16" by (simp only: drop_bit_eq_div) simp
  have "(15 :: 8 word) = mask 4" by (simp add: mask_eq_exp_minus_1)
  then have "w AND 15 = take_bit 4 w" by (simp only: take_bit_eq_mask)
  then have "unat (w AND 15) = take_bit 4 (unat w)" by (simp only: unsigned_take_bit_eq)
  then show "unat (w AND 15) = unat w mod 16" by (simp add: take_bit_eq_mod)
  show "unat w < 256" by (rule less_le_trans [OF unsigned_less]) simp
qed

text \<open>The table gives the digits of the printer of values, so the two printers of bytes agree.\<close>

lemma hex_ForAST_eq: "hex_EncodeToString_ForAST b = hex_EncodeToString b"
  by (simp add: hex_EncodeToString_ForAST_def hex_EncodeToString_def hexChars_digit nibbles less_mult_imp_div_less)

text \<open>What the printer writes for a byte literal the lexer reads as those bytes.\<close>

lemma hex_digit_ok: "d < 16 \<Longrightarrow> is_hex (hex_digit d) \<and> hex_val (hex_digit d) = d"
proof -
  assume "d < 16"
  then have "d \<in> set [0..<16]" by simp
  moreover have "list_all (\<lambda>d. is_hex (hex_digit d) \<and> hex_val (hex_digit d) = d) [0..<16]" by code_simp
  ultimately show ?thesis by (simp only: list_all_iff)
qed

lemma hex_ast_round_trip: "hex_DecodeString (hex_EncodeToString_ForAST b) = Inr b"
  unfolding hex_ForAST_eq
proof (induction b)
  case Nil
  then show ?case by (simp add: hex_EncodeToString_def)
next
  case (Cons w b)
  have d: "unat w div 16 < 16" "unat w mod 16 < 16" using nibbles(3) [of w] by (simp_all add: less_mult_imp_div_less)
  have "word_of_nat (16 * (unat w div 16) + unat w mod 16) = w" by simp
  then show ?case using Cons hex_digit_ok [OF d(1)] hex_digit_ok [OF d(2)]
    by (simp add: hex_EncodeToString_def nibbles)
qed

end
