(* ===== verification/Spec2Isabelle.thy ===== *)
theory Spec2Isabelle
  imports Rule_Builder Dedup_Window Channel_Switch Plugin_Registry Pipeline_Validator Runtime_Engine
    Stdin_Source Sentinel_Bridge Input_Path Detector_Params Exec_Source Http_Source
    Log_Aggregator Rule_Ast_String
begin

text \<open>
  A verification library for arx-core, a Go library for building log-processing pipelines: sources
  read events, a product-specific processor handles each event, sinks write what it publishes, named
  queues carry events to executors, and a rule engine decides whether an event matches.

  \<^bold>\<open>The rule engine\<close> (\<^verbatim>\<open>src/pkg/rule\<close>). An expression such as \<^verbatim>\<open>core.level eq "error"\<close> is lexed, parsed into a
  syntax tree, compiled against a scheme of typed fields into a plan, and the plan is evaluated on an
  event by a resolver of fields. A rule set holds named plans in order; \<^verbatim>\<open>Match\<close> returns the first that
  holds and counts it.
    \<^item> \<open>Rule_Types\<close>: \<^verbatim>\<open>types.go\<close>, \<^verbatim>\<open>resolver.go\<close> and the events of \<^verbatim>\<open>pkg/plugin\<close>. \<open>Value\<close> is a datatype with one
      constructor per kind. Equality is symmetric, transitive, and reflexive exactly without NaN.
    \<^item> \<open>Rule_Scheme\<close>: \<^verbatim>\<open>scheme.go\<close>. \<open>Catalog\<close> is a record; \<open>Register\<close> and \<open>Project\<close> with every error. The
      invariant of catalogs, and that a projection is a sorted selection.
    \<^item> \<open>Rule_Lexer\<close>, \<open>Rule_Parser\<close>: \<^verbatim>\<open>lexer.go\<close>, \<^verbatim>\<open>token.go\<close>, \<^verbatim>\<open>parser.go\<close>, \<^verbatim>\<open>ast.go\<close>. An index out of range would be a
      panic. The parser has fuel, one unit more than there are tokens, and it is shown that this is
      always enough (every recursive call consumes a token; locales \<open>recursive_parser\<close>, \<open>node_parser\<close>).
      \<open>Rule_Ast_String\<close>: the printing of trees, which depends on the tree without its positions.
    \<^item> \<open>Rule_Functions\<close>: \<^verbatim>\<open>functions.go\<close>, \<^verbatim>\<open>coerce.go\<close>, \<^verbatim>\<open>strings.go\<close>, \<^verbatim>\<open>strings_alloc.go\<close>, \<^verbatim>\<open>strings_regex.go\<close>, \<^verbatim>\<open>ip.go\<close>,
      \<^verbatim>\<open>time.go\<close>: the registry of built-in functions and each function. They are total on the argument
      counts the compiler lets through and return their declared kind; round trips and bounds.
    \<^item> \<open>Rule_Compiler\<close>, \<open>Rule_Eval\<close>: \<^verbatim>\<open>compiler.go\<close>, \<^verbatim>\<open>eval.go\<close>. The invariant \<open>op_ok\<close> of compiled plans, that
      evaluation of such a plan never panics, reads only fields of the scheme and gives values of the
      kinds the compiler computed, and the meaning of the operators.
    \<^item> \<open>Rule_Set\<close>, \<open>Rule_Builder\<close>: \<^verbatim>\<open>ruleset.go\<close>, \<^verbatim>\<open>builder.go\<close>. Each method is one step under its lock;
      \<open>rs_reachable\<close> is every state, \<open>spec_match\<close> the abstract specification that \<open>Match\<close> refines; the
      locale \<open>rule_table\<close> is what the builder needs of the set.

  \<^bold>\<open>Queues and the channel switch\<close> (\<^verbatim>\<open>src/pkg/executor/queue\<close>, \<^verbatim>\<open>src/pkg/ncs\<close>). Sinks push payloads into named
  queues, executors pop them.
    \<^item> \<open>Queue_Spec\<close>: the interface \<^verbatim>\<open>Queue\<close> as the locale \<open>fifo_queue\<close>, with the theorem that a history is
      first in, first out; Go's \<^verbatim>\<open>select\<close> as the list of its possible outcomes.
    \<^item> \<open>Queue_Memory\<close> (interpreted), \<open>Queue_Redis\<close> (a fifo queue under the laws of the Redis list),
      \<open>Queue_Bbolt\<close>: the transactions on the database with their counters at 64 bits, a refinement of a
      list of payloads; then every interleaving of clients, writer goroutine and \<^verbatim>\<open>Close\<close> as the step
      relation \<open>bb_step\<close>. The model leaves out histories with \<open>2 ^ 64 - 1\<close> pending payloads.
    \<^item> \<open>Channel_Switch\<close>: the maps of \<^verbatim>\<open>channelswitch.go\<close> with a store of shared queues; the invariant
      \<open>ncs_ok\<close> ties the counters to the history of attached writers.

  \<^bold>\<open>Pipelines\<close>.
    \<^item> \<open>Plugin_Registry\<close>: \<^verbatim>\<open>pkg/pluginregistry\<close> and the five wrappers that build plugins; locale \<open>name_store\<close>.
    \<^item> \<open>Pipeline_Validator\<close>: \<^verbatim>\<open>pkg/pipeline/validator.go\<close>; no error exactly when the contract holds.
    \<^item> \<open>Runtime_Engine\<close>: \<^verbatim>\<open>pkg/runtime/engine.go\<close> and \<^verbatim>\<open>pkg/input/merge.go\<close>. The select loop is given the
      sequence of cases it selects; effects on the outside are a trace. Every entry is processed once
      and in order, every published event reaches every sink once; the fan-in keeps each source's order.
    \<^item> \<open>Dedup_Window\<close>: \<^verbatim>\<open>pkg/dedup/window.go\<close>; the window refines the specification \<open>marked\<close>.
    \<^item> \<open>Log_Aggregator\<close>: \<^verbatim>\<open>examples/logaggregator\<close>, a whole product on the engine: datagrams of the syslog source go
      through the engine and the product's filter and formatter into the file sink, and the file grows by
      exactly the promised lines.

  \<^bold>\<open>Sources and sinks\<close> (\<^verbatim>\<open>pkg/source\<close>, \<^verbatim>\<open>pkg/sink\<close>, \<^verbatim>\<open>pkg/parser\<close>, \<^verbatim>\<open>pkg/tail\<close>, \<^verbatim>\<open>pkg/execplugin\<close>).
    \<^item> \<open>Go_Text\<close>: the string functions of Go the parsers use, JSON trees and the struct decoder of
      \<^verbatim>\<open>encoding/json\<close>; \<open>Go_Base64\<close>: \<^verbatim>\<open>encoding/base64\<close> with its round trip; \<open>Json_Scan\<close>: the scanner of
      \<^verbatim>\<open>encoding/json\<close> as a machine on characters, raw values and the stream of a \<^verbatim>\<open>Decoder\<close>.
    \<^item> \<open>Log_Parser\<close>: \<^verbatim>\<open>pkg/parser\<close>, the combined, JSON and regular-expression parsers with their profiles. The three
      fixed expressions are scanners; what nginx or Apache writes is read back field by field.
    \<^item> \<open>Syslog_Message\<close>: \<^verbatim>\<open>pkg/source/syslog/parser.go\<close>, both message formats.
    \<^item> \<open>Line_Source\<close>: the loops of the syslog source and what the sources share, the counters, the offer to the channel
      and the locale \<open>line_source\<close> (a line is counted as an error, or dropped, or delivered in order), interpreted on the
      syslog, file, stdin, sentinel and HTTP sources as \<open>msg\<close>, \<open>pkt\<close>, \<open>fsrc\<close>, \<open>sin\<close>, \<open>sent\<close> and \<open>web\<close>.
    \<^item> \<open>Stdin_Source\<close>: \<^verbatim>\<open>pkg/source/stdin\<close>, the two goroutines as a step relation.
    \<^item> \<open>File_System\<close>, \<open>Tail_Reader\<close>, \<open>Input_Path\<close>: files as inodes with names, \<^verbatim>\<open>pkg/tail/tail.go\<close> with its notifications,
      truncations and rotations, and \<^verbatim>\<open>pkg/source/file\<close>: from the lines a web server writes to events.
    \<^item> \<open>Event_Sinks\<close>: \<^verbatim>\<open>pkg/sink/file\<close> and \<^verbatim>\<open>pkg/sink/stdout\<close>; locale \<open>event_sink\<close>, also interpreted on the sink of
      external plugins.
    \<^item> \<open>Sentinel_Bridge\<close>: \<^verbatim>\<open>pkg/sink/sentinel\<close> and \<^verbatim>\<open>pkg/source/sentinel\<close> with a queue between them; locale \<open>byte_queue\<close>
      is what they need of it.
    \<^item> \<open>Detector_Params\<close>: \<^verbatim>\<open>pkg/detector/params.go\<close>. \<open>Exec_Plugin\<close>, \<open>Exec_Source\<close>: \<^verbatim>\<open>pkg/execplugin\<close>, the messages and their JSON,
      the process as the lines it takes and gives, detector, sink, executor and source.
    \<^item> \<open>Http_Adapters\<close>, \<open>Http_Middleware\<close>, \<open>Http_Source\<close>: \<^verbatim>\<open>pkg/source/http\<close>, every adapter with decoding and acknowledgement, the
      gates in front of a pushed request (bearer token, challenge, signed token with the cache of keys), the limits on
      bodies, the push handler with the server loop, and the poll loop. A request passes only with its credentials, and is refused without
      effect or taken whole.

  \<open>Go_Prelude\<close> and \<open>Go_Net\<close> hold the parts of Go and its library the source uses. User-supplied regular expressions, HTML
  entities, layouts of time and the printing of floating-point numbers are fields of the record \<open>golib\<close>; the JSON
  printer and the grammar of JSON texts of \<open>textlib\<close>; decompression, the verification of signatures and URL parsing of \<open>weblib\<close>. These
  records are arguments of the definitions that reach them; what a theorem needs of a field is a premise of it. The
  bbolt database, the Redis client and the product's processor and sinks are arguments too, with
  their documented behaviour as the named predicates \<open>bbolt_laws\<close>, \<open>redis_laws\<close>, \<open>product_total\<close>.

  \<^bold>\<open>Fuel and bounds\<close>. The parser of expressions has one unit of fuel more than tokens; loops on input recurse on the
  list of reads, requests, ticks or notifications they are given. Counters have their 64 bits.

  This theory has the example data of the witnesses, the properties of the rule engine, the property
  that joins the validator and the switch, and expressions on which code and documentation differ;
  the properties of the other components stand in their theories.

  \<^bold>\<open>Not modelled\<close>: connections and TLS, which belong to \<^verbatim>\<open>net/http\<close>; the logger, an
  interface and a logger that does nothing; the flags and signals of the example's \<^verbatim>\<open>main\<close>; the time limit the tail puts
  around a read, which is for pipes and network mounts; signals and the exit of plugin processes, which are
  inputs of the model; the text of most log lines of sources. Locks are not modelled as such: a method that holds its lock
  throughout is one step. Garbage collection, memory limits and the timing of tickers are left out.
\<close>

section \<open>Example data for the witnesses\<close>

definition demo_scheme :: Scheme where
  "demo_scheme = Project core_catalog [''http'', ''core'']"

definition demo_compiler :: Compiler where
  "demo_compiler = \<lparr>c_scheme = demo_scheme, c_fieldIdx = index_fields (sch_fields demo_scheme)\<rparr>"

definition demo_expr :: string where
  "demo_expr = ''core.level eq \"error\"''"

definition demo_root :: op where
  "demo_root = opCmp (1, 12) opCmpEq
     (opField \<lparr>f_pos = (1, 1), f_id = 0, f_name = ''core.level'', f_type = TypeString\<rparr>)
     (opLitString (1, 15) (VString ''error''))"

definition demo_plan :: Plan where
  "demo_plan = \<lparr>plan_root = Some demo_root, plan_Rev = 5\<rparr>"

definition demo_event :: "unit Event" where
  "demo_event = \<lparr>Timestamp = \<lparr>t_ns = 0, t_off = 0\<rparr>, Stream = ''s'', Source = ''src'',
     SourceType = ''file'', Level = ''error'', Payload = ()\<rparr>"

definition demo_set :: RuleSet where
  "demo_set = \<lparr>rs_scheme = demo_scheme, rs_compiler = demo_compiler, rs_profile = ''http'',
     rs_rules = [\<lparr>cr_name = ''r1'', cr_source = demo_expr, cr_plan = demo_plan, cr_matches = 0\<rparr>]\<rparr>"

lemma demo_NewCompiler: "NewCompiler (Some demo_scheme) = Inr demo_compiler"
  by (simp add: NewCompiler_def demo_compiler_def)

lemma demo_parse: "Parse golib0 demo_expr =
    Some (Inr (Cmp 1 12 CmpEq (FieldRef 1 1 ''core.level'') (LitString 1 15 (VString ''error''))))"
  by code_simp

lemma demo_index: "c_fieldIdx demo_compiler ''core.level'' = Some 0"
  by code_simp

lemma demo_field: "Type (sch_fields demo_scheme ! 0) = TypeString" "sch_rev demo_scheme = 5"
  "length (sch_fields demo_scheme) = 5" "FullName (sch_fields demo_scheme ! 0) = ''core.level''"
  by code_simp+

lemma demo_compile: "compileNode golib0 demo_compiler
    (Cmp 1 12 CmpEq (FieldRef 1 1 ''core.level'') (LitString 1 15 (VString ''error''))) = Inr demo_root"
  using demo_field demo_index
  by (simp add: compileCmp_def compileFieldRef_def checkCmpOperands_def operand_kind_def unwrap_def
      strict_inner_def isBracketOp_def rewrap_def demo_root_def demo_compiler_def kindFromFieldType_def Let_def)

lemma demo_compileExpr: "compileExpr golib0 demo_compiler demo_expr = Inr demo_plan"
  using demo_field
  by (simp add: compileExpr_def demo_parse Compiler_Compile_def demo_compile demo_plan_def
      del: compileNode.simps One_nat_def)
     (simp add: demo_compiler_def)

lemma demo_ok: "rs_ok golib0 demo_set"
  using demo_compileExpr NewCompiler_ok [OF demo_NewCompiler]
  by (simp add: rs_ok_def demo_set_def demo_compiler_def)

lemma demo_reachable: "rs_reachable golib0 demo_set"
proof (rule rs_reachable.step)
  show "rs_reachable golib0 (demo_set\<lparr>rs_rules := []\<rparr>)"
    by (rule rs_reachable.new [of "Some core_catalog" "''http''"])
       (simp add: New_def demo_scheme_def [symmetric] demo_NewCompiler demo_set_def)
  show "rs_step golib0 (demo_set\<lparr>rs_rules := []\<rparr>) demo_set"
    by (rule rs_step.add [of _ _ "''r1''" demo_expr]) (simp add: Add_Inr demo_set_def demo_compileExpr)
qed

lemma demo_ruleset: "Ruleset (NewBuilder ''http'') = (Inr (demo_set\<lparr>rs_rules := []\<rparr>), NewBuilder ''http'')"
  using demo_NewCompiler
  by (simp add: Ruleset_def NewBuilder_def register_profiles_def NewWithCompiler_def Let_def demo_set_def
      demo_scheme_def [symmetric])

lemma demo_op_ok: "op_ok golib0 demo_scheme demo_root"
  by (simp add: demo_root_def field_ok_def demo_field cmp_kinds_def operand_kind_def unwrap_def
      strict_inner_def isBracketOp_def kindFromFieldType_def)

section \<open>Properties\<close>

text \<open>
  C1: an expression that compiles never panics when it is evaluated: for every resolver (nil
  included) and every event (nil included) the plan returns a verdict.
\<close>

theorem compiled_plan_never_panics:
  assumes "NewCompiler sch = Inr C" "compileExpr L C e = Inr plan"
  shows "\<exists>b. Plan_Eval L (Some plan) res ev = Some b"
  using NewCompiler_ok [OF assms(1)] assms(2) compileExpr_eval_total by blast

theorem compiled_plan_never_panics_witness:
  "\<exists>b. Plan_Eval golib0 (Some demo_plan) (Some EnvelopeResolver) (Some demo_event) = Some b"
  by (rule compiled_plan_never_panics [OF demo_NewCompiler demo_compileExpr])

text \<open>
  C2: a rule set implements its abstract specification. In every reachable set, \<^verbatim>\<open>Match\<close> returns the
  name of the first entry, in the order the rules were added, whose expression holds of the event
  (its source compiles and the plan evaluates to true), or no name when none holds; the entries
  stay as they are.
\<close>

theorem match_implements_first_match:
  assumes "rs_reachable L rs"
  shows "\<exists>rs'. Match L rs ev res = Some (spec_match (holds L (rs_compiler rs) res ev) (entries rs), rs') \<and>
    entries rs' = entries rs"
  using Match_refines [OF rs_reachable_ok [OF assms]] by blast

theorem match_implements_first_match_witness:
  "\<exists>rs'. Match golib0 demo_set (Some demo_event) (Some EnvelopeResolver) =
      Some (spec_match (holds golib0 demo_compiler (Some EnvelopeResolver) (Some demo_event)) [(''r1'', demo_expr)], rs')"
  using match_implements_first_match [OF demo_reachable, of "Some demo_event" "Some EnvelopeResolver"]
  by (auto simp: demo_set_def entries_def)

text \<open>
  C7: the invariant of all reachable rule sets: no name twice and none empty, every rule's plan is
  the compilation of its source, and the compiler is the one of the set's scheme.
\<close>

theorem ruleset_invariant:
  assumes "rs_reachable L rs"
  shows "rs_ok L rs"
  using assms by (rule rs_reachable_ok)

theorem ruleset_invariant_witness: "rs_ok golib0 demo_set"
  using demo_reachable by (rule ruleset_invariant)

text \<open>
  C8: the counters count. After any sequence of calls of \<^verbatim>\<open>Match\<close> on a good set, the counter of each
  rule has grown by the number of calls that returned its name, modulo \<open>2 ^ 64\<close>.
\<close>

theorem stats_count_matches:
  assumes "rs_ok L rs"
  shows "\<exists>vs rs'. match_all L rs res evs = Some (vs, rs') \<and> length vs = length evs \<and>
    Stats rs' n = map_option (\<lambda>c. c + of_nat (count_list vs (n, True))) (Stats rs n)"
  using assms by (rule match_all_counts)

theorem stats_count_matches_witness:
  "\<exists>vs rs'. match_all golib0 demo_set (Some EnvelopeResolver) [Some demo_event, None] = Some (vs, rs') \<and>
    length vs = length [Some demo_event, None] \<and>
    Stats rs' ''r1'' = map_option (\<lambda>c. c + of_nat (count_list vs (''r1'', True))) (Stats demo_set ''r1'')"
  using demo_ok by (rule stats_count_matches)

text \<open>
  C9: the parser returns on every input, with a tree or with an error: one unit of fuel more than
  there are tokens is always enough.
\<close>

theorem parse_returns: "\<exists>r. Parse L src = Some r"
  by (rule Parse_returns)

text \<open>
  C14: a plan reads the fields of its scheme and nothing else: two resolvers that agree on them
  give the same verdict.
\<close>

theorem verdict_depends_on_scheme_fields:
  assumes "NewCompiler (Some sch) = Inr C" "compileExpr L C e = Inr plan" "same_fields sch res res' ev"
  shows "Plan_Eval L (Some plan) (Some res) ev = Plan_Eval L (Some plan) (Some res') ev"
proof -
  have C: "compiler_ok C" "c_scheme C = sch" using NewCompiler_ok [OF assms(1)] by auto
  from C(1) assms(2) obtain root where "plan = \<lparr>plan_root = Some root, plan_Rev = sch_rev (c_scheme C)\<rparr>"
    "op_ok L (c_scheme C) root" by (rule compileExpr_ok)
  with eval_agree [OF assms(3)] C(2) show ?thesis by (simp add: Plan_Eval_def)
qed

theorem verdict_depends_on_scheme_fields_witness:
  "Plan_Eval golib0 (Some demo_plan) (Some EnvelopeResolver) (Some demo_event) =
   Plan_Eval golib0 (Some demo_plan)
     (Some (\<lambda>f ev. if f = ''http.path'' then Some (VString ''/'') else EnvelopeResolver f ev)) (Some demo_event)"
proof (rule verdict_depends_on_scheme_fields [OF demo_NewCompiler demo_compileExpr])
  show "same_fields demo_scheme EnvelopeResolver
      (\<lambda>f ev. if f = ''http.path'' then Some (VString ''/'') else EnvelopeResolver f ev) (Some demo_event)"
    by code_simp
qed

text \<open>
  C15: kinds are sound. If the resolver gives every field of the scheme a value of its declared type,
  then every operand of a compiled expression that has a statically known kind evaluates to a value
  of that kind.
\<close>

theorem operand_kinds_sound:
  assumes "\<forall>f \<in> set (sch_fields sch). \<forall>ev v. res (FullName f) ev = Some v \<longrightarrow> Kind_of v = kindFromFieldType (Type f)"
    "op_ok L sch o1" "evalValue L res ev o1 = Val v" "operand_kind o1 \<noteq> KindInvalid"
  shows "Kind_of v = operand_kind o1"
proof -
  have "field_resolver sch res" using assms(1) by unfold_locales blast
  then show ?thesis using assms(2-4) by (rule field_resolver.operand_value_kind)
qed

theorem operand_kinds_sound_witness:
  "Kind_of (VString ''error'') =
     operand_kind (opField \<lparr>f_pos = (1, 1), f_id = 0, f_name = ''core.level'', f_type = TypeString\<rparr>)"
proof (rule operand_kinds_sound [of demo_scheme EnvelopeResolver golib0 _ "Some demo_event"])
  show "\<forall>f \<in> set (sch_fields demo_scheme). \<forall>ev v.
      EnvelopeResolver (FullName f) ev = Some v \<longrightarrow> Kind_of v = kindFromFieldType (Type f)"
    unfolding demo_scheme_def using envelope.resolves_kind by blast
qed (use demo_op_ok in \<open>simp_all add: demo_root_def demo_event_def EnvelopeResolver_def CutPrefix_def HasPrefix_def
      corePrefix_def resolveCore_def NewString_def operand_kind_def unwrap_def strict_inner_def isBracketOp_def
      kindFromFieldType_def FieldType_defs\<close>)



text \<open>
  The comparison operators order the values of each orderable kind: of two values of one such
  kind, neither of them NaN, exactly one of less, equal and greater holds.
\<close>

theorem comparison_trichotomy:
  assumes "Kind_of v = Kind_of w" "isOrderable (Kind_of v)" "self_equal v" "self_equal w"
  shows "compareLess v w \<and> \<not> Equal v w \<and> \<not> compareLess w v \<or>
    \<not> compareLess v w \<and> Equal v w \<and> \<not> compareLess w v \<or>
    \<not> compareLess v w \<and> \<not> Equal v w \<and> compareLess w v"
  using assms by (rule compareLess_trichotomy)

theorem comparison_trichotomy_witness:
  "compareLess (VInt 1) (VInt (-1)) \<and> \<not> Equal (VInt 1) (VInt (-1)) \<and> \<not> compareLess (VInt (-1)) (VInt 1) \<or>
    \<not> compareLess (VInt 1) (VInt (-1)) \<and> Equal (VInt 1) (VInt (-1)) \<and> \<not> compareLess (VInt (-1)) (VInt 1) \<or>
    \<not> compareLess (VInt 1) (VInt (-1)) \<and> \<not> Equal (VInt 1) (VInt (-1)) \<and> compareLess (VInt (-1)) (VInt 1)"
  by (rule comparison_trichotomy) (simp_all add: isOrderable_def)

text \<open>
  C34: \<^verbatim>\<open>x in [a, b, ...]\<close> means \<^verbatim>\<open>x eq a or x eq b or ...\<close>, for addresses and ranges too, on every
  compiled membership test whose element, when it resolves, has the kind the compiler computed.
\<close>

theorem in_is_disjunction_of_eq:
  assumes "op_ok L sch (opIn p a b)"
    "\<And>v. evalValue L res ev a = Val v \<Longrightarrow> Kind_of v = nodeKind a"
  shows "eval L res ev (opIn p a b) =
    Some (list_ex (\<lambda>m. eval L res ev (opCmp p opCmpEq a m) = Some True) (set_members b))"
  using assms by (rule eval_In_eq)

definition demo_in :: op where
  "demo_in = opLitArray (1, 6) [opLitInt (1, 7) (VInt 1), opLitInt (1, 10) (VInt 2)]"

theorem in_is_disjunction_of_eq_witness:
  "eval golib0 EnvelopeResolver (Some demo_event) (opIn (1, 3) (opLitInt (1, 1) (VInt 2)) demo_in) =
    Some (list_ex (\<lambda>m. eval golib0 EnvelopeResolver (Some demo_event)
        (opCmp (1, 3) opCmpEq (opLitInt (1, 1) (VInt 2)) m) = Some True) (set_members demo_in))"
  by (rule in_is_disjunction_of_eq [of _ demo_scheme])
     (auto simp: demo_in_def literalValue_def array_elements_def)

text \<open>
  The comparison of an address with an IPv4 range literal is membership in the range: the
  address is an IPv4 address (or mapped to one) and agrees with the written one on the prefix.
\<close>

theorem cidr_eq_is_prefix_agreement:
  assumes "compileLitIP lp raw True v = Inr rhs" "Kind_of v = KindIP" "cidr_addr raw = Some a" "length a = 4"
  shows "evalCmp opCmpEq rhs (Val (VIP x)) (evalValue L res ev rhs) =
    Some (case To4 x of None \<Rightarrow> False | Some y \<Rightarrow> take (cidr_len raw) (ip_bits y) = take (cidr_len raw) (ip_bits a))"
proof -
  from assms(1) obtain ip net where net: "ParseCIDR raw = Some (ip, net)"
    and rhs: "rhs = opLitIP lp v True (mask_ones (net_mask net)) (Some net)"
    by (auto simp: compileLitIP_def split: option.splits)
  show ?thesis using Contains_v4 [OF net assms(3,4), of x] assms(2)
    by (auto simp: rhs evalCmp_def on_vals_def cmp_values_def cidr_literal_def AsIP_def split: option.splits)
qed

definition demo_cidr :: op where
  "demo_cidr = (case compileLitIP (1, 1) ''10.0.0.0/8'' True (VIP []) of Inr o1 \<Rightarrow> o1 | Inl _ \<Rightarrow> opLitArray (0, 0) [])"

theorem cidr_eq_is_prefix_agreement_witness:
  "evalCmp opCmpEq demo_cidr (Val (VIP [10, 1, 2, 3])) (evalValue golib0 EnvelopeResolver (Some demo_event) demo_cidr) =
    Some (case To4 [10, 1, 2, 3] of None \<Rightarrow> False
      | Some y \<Rightarrow> take (cidr_len ''10.0.0.0/8'') (ip_bits y) = take (cidr_len ''10.0.0.0/8'') (ip_bits [10, 0, 0, 0]))"
proof (rule cidr_eq_is_prefix_agreement [of "(1, 1)" _ "VIP []"])
  have "\<exists>ip net. ParseCIDR ''10.0.0.0/8'' = Some (ip, net)" by (rule exI, rule exI) code_simp
  then show "compileLitIP (1, 1) ''10.0.0.0/8'' True (VIP []) = Inr demo_cidr"
    by (auto simp: demo_cidr_def compileLitIP_def)
  show "cidr_addr ''10.0.0.0/8'' = Some [10, 0, 0, 0]" by code_simp
qed simp_all

text \<open>
  A wildcard pattern is the anchored regular expression in which \<^verbatim>\<open>*\<close> stands for any sequence and
  \<^verbatim>\<open>?\<close> for any character, and every other character for itself, quoted when it is special.
\<close>

theorem wildcard_translation:
  "compileWildcardPattern L pattern =
     (if pattern \<noteq> [] \<and> lib_re_compile L (''^'' @ concat (map wild_char pattern) @ ''$'')
      then Some (''^'' @ concat (map wild_char pattern) @ ''$'') else None)"
  by (simp add: compileWildcardPattern_def wildcard_loop_QuoteMeta Let_def)

text \<open>
  C37: the specialised op for \<^verbatim>\<open>cidr_matches\<close>, with its range parsed at compile time, gives the verdict of
  the registered function called on the same operands.
\<close>

theorem cidr_matcher_equals_call:
  assumes "NewCompiler (Some sch) = Inr C" "node_ok n" "compileNode L C n = Inr (opCIDRMatcher p a b t net)"
  shows "eval L res ev (opCIDRMatcher p a b t net) =
    eval L res ev (opFunc p ''cidr_matches'' [a, b]
      (func_spec ''cidr_matches'' [KindIP, KindString] KindBool False False evalCIDRMatches))"
  using compileNode_ok [OF _ assms(2,3)] NewCompiler_ok [OF assms(1)] cidr_matcher_as_call by blast

definition demo_ip_node :: Node where
  "demo_ip_node = LitIP 1 14 ''10.1.2.3'' False (VIP [0, 0, 0, 0, 0, 0, 0, 0, 0, 0, 255, 255, 10, 1, 2, 3])"

definition demo_call :: Node where
  "demo_call = FuncCall 1 1 ''cidr_matches'' [demo_ip_node, LitString 1 30 (VString ''10.0.0.0/8'')]"

lemma demo_call_compile:
  "compileNode golib0 demo_compiler demo_call =
     Inr (opCIDRMatcher (1, 1)
       (opLitIP (1, 14) (VIP [0, 0, 0, 0, 0, 0, 0, 0, 0, 0, 255, 255, 10, 1, 2, 3]) False 0 None)
       (opLitString (1, 30) (VString ''10.0.0.0/8'')) ''10.0.0.0/8''
       (Some \<lparr>net_ip = [10, 0, 0, 0], net_mask = [255, 0, 0, 0]\<rparr>))"
proof -
  have "ParseCIDR ''10.0.0.0/8'' = Some ([0, 0, 0, 0, 0, 0, 0, 0, 0, 0, 255, 255, 10, 0, 0, 0],
      \<lparr>net_ip = [10, 0, 0, 0], net_mask = [255, 0, 0, 0]\<rparr>)" by code_simp
  then show ?thesis
    by (simp add: demo_call_def demo_ip_node_def compileFuncCall_def compileCIDRMatcher_def Lookup_cidr_matches
        func_spec_def compileLitIP_def cidr_matcher_op_def lit_string_def AsString_def)
qed

theorem cidr_matcher_equals_call_witness:
  "eval golib0 EnvelopeResolver (Some demo_event) (opCIDRMatcher (1, 1)
       (opLitIP (1, 14) (VIP [0, 0, 0, 0, 0, 0, 0, 0, 0, 0, 255, 255, 10, 1, 2, 3]) False 0 None)
       (opLitString (1, 30) (VString ''10.0.0.0/8'')) ''10.0.0.0/8''
       (Some \<lparr>net_ip = [10, 0, 0, 0], net_mask = [255, 0, 0, 0]\<rparr>)) =
   eval golib0 EnvelopeResolver (Some demo_event) (opFunc (1, 1) ''cidr_matches''
       [opLitIP (1, 14) (VIP [0, 0, 0, 0, 0, 0, 0, 0, 0, 0, 255, 255, 10, 1, 2, 3]) False 0 None,
        opLitString (1, 30) (VString ''10.0.0.0/8'')]
      (func_spec ''cidr_matches'' [KindIP, KindString] KindBool False False evalCIDRMatches))"
proof (rule cidr_matcher_equals_call [OF demo_NewCompiler _ demo_call_compile])
  show "node_ok demo_call" by code_simp
qed

text \<open>
  The specialised op for \<^verbatim>\<open>regex_replace\<close>, with a literal pattern compiled once, gives the value of
  the registered function called on the same operands.
\<close>

theorem regex_replace_equals_call:
  assumes "NewCompiler (Some sch) = Inr C" "node_ok n" "compileNode L C n = Inr (opRegexReplace p s pat t re r)"
  shows "evalValue L res ev (opRegexReplace p s pat t re r) =
    evalValue L res ev (opFunc p ''regex_replace'' [s, pat, r]
      (func_spec ''regex_replace'' [KindString, KindString, KindString] KindString True False
        (evalRegexReplaceFallback L)))"
  using compileNode_ok [OF _ assms(2,3)] NewCompiler_ok [OF assms(1)] regex_replace_as_call by blast

definition demo_replace :: Node where
  "demo_replace = FuncCall 1 1 ''regex_replace''
     [LitString 1 15 (VString ''abc''), LitString 1 22 (VString ''b''), LitString 1 27 (VString ''x'')]"

lemma demo_replace_compile:
  "compileNode golib0 demo_compiler demo_replace =
     Inr (opRegexReplace (1, 1) (opLitString (1, 15) (VString ''abc'')) (opLitString (1, 22) (VString ''b'')) ''b''
       (Some ''b'') (opLitString (1, 27) (VString ''x'')))"
  by (simp add: demo_replace_def compileFuncCall_def compileRegexReplace_def Lookup_regex_replace func_spec_def
      string_arg_def regex_replace_op_def lit_string_def AsString_def golib0_def numeral_2_eq_2)

theorem regex_replace_equals_call_witness:
  "evalValue golib0 EnvelopeResolver (Some demo_event) (opRegexReplace (1, 1) (opLitString (1, 15) (VString ''abc''))
      (opLitString (1, 22) (VString ''b'')) ''b'' (Some ''b'') (opLitString (1, 27) (VString ''x''))) =
   evalValue golib0 EnvelopeResolver (Some demo_event) (opFunc (1, 1) ''regex_replace''
      [opLitString (1, 15) (VString ''abc''), opLitString (1, 22) (VString ''b''), opLitString (1, 27) (VString ''x'')]
      (func_spec ''regex_replace'' [KindString, KindString, KindString] KindString True False
        (evalRegexReplaceFallback golib0)))"
  by (rule regex_replace_equals_call [OF demo_NewCompiler _ demo_replace_compile]) (simp add: demo_replace_def)



text \<open>
  \<^verbatim>\<open>Add\<close> and \<^verbatim>\<open>Remove\<close> are inverse: removing a rule just added restores the set, counters included.
\<close>

theorem remove_undoes_add:
  assumes "rs_ok L rs" "Add L rs name e = Inr rs'"
  shows "Remove rs' name = rs"
proof -
  have "distinct (map cr_name (rs_rules rs'))" using Add_ok [OF assms] by (simp add: rs_ok_def)
  moreover have "filter (\<lambda>r. cr_name r \<noteq> name) (rs_rules rs) = rs_rules rs"
    using assms(2) by (auto simp: Add_Inr filter_id_conv)
  ultimately show ?thesis using assms(2) by (auto simp: Add_Inr Remove_eq)
qed

theorem remove_undoes_add_witness: "Remove demo_set ''r1'' = demo_set\<lparr>rs_rules := []\<rparr>"
proof (rule remove_undoes_add)
  show "rs_ok golib0 (demo_set\<lparr>rs_rules := []\<rparr>)" using demo_ok by (simp add: rs_ok_def)
  show "Add golib0 (demo_set\<lparr>rs_rules := []\<rparr>) ''r1'' demo_expr = Inr demo_set"
    by (simp add: Add_Inr demo_set_def demo_compileExpr)
qed

text \<open>
  \<^verbatim>\<open>Replace\<close> changes the source of one rule and nothing else: the order of the entries stays, and
  so does every counter, that of the replaced rule included.
\<close>

theorem replace_keeps_order_and_counters:
  assumes "rs_ok L rs" "Replace L rs name e = Inr rs'"
  shows "entries rs' = map (\<lambda>(n, x). if n = name then (n, e) else (n, x)) (entries rs) \<and> Stats rs' = Stats rs"
proof
  show "entries rs' = map (\<lambda>(n, x). if n = name then (n, e) else (n, x)) (entries rs)"
    using assms by (rule entries_Replace)
  have d: "distinct (map cr_name (rs_rules rs))" "distinct (map cr_name (rs_rules rs'))"
    using assms(1) Replace_ok [OF assms] by (simp_all add: rs_ok_def)
  have "map (\<lambda>r. (cr_name r, cr_matches r)) (rs_rules rs') = map (\<lambda>r. (cr_name r, cr_matches r)) (rs_rules rs)"
    using assms(2) by (auto simp: Replace_Inr [OF d(1)])
  then show "Stats rs' = Stats rs" by (simp add: fun_eq_iff Stats_eq d)
qed

theorem replace_keeps_order_and_counters_witness:
  "entries demo_set = map (\<lambda>(n, x). if n = ''r1'' then (n, demo_expr) else (n, x)) (entries demo_set) \<and>
   Stats demo_set = Stats demo_set"
  by (rule replace_keeps_order_and_counters [OF demo_ok])
     (simp add: Replace_def demo_set_def demo_compileExpr)

text \<open>
  C39: the tokens of every source: the lexer never panics, the last token and no other is the end
  marker, its line is the last line of the source, and the lines of the tokens never decrease.
\<close>

theorem lex_token_stream: "\<exists>toks. Lex src = Some toks \<and> tokens_ok 1 (Suc (count_list src nl)) toks"
  using Lex_eq Lex_tokens by blast

text \<open>
  C40: every registered function, called with as many arguments as the compiler lets through and
  whatever their kinds, returns without a panic a value of its declared kind.
\<close>

theorem builtins_are_total_and_typed:
  assumes "Lookup (funcs L) name = Some spec" "arity_ok spec (length args)"
  shows "\<exists>f v. fs_Eval spec = Some f \<and> f args = Some v \<and> Kind_of v = fs_ReturnKind spec"
  using builtin_total Lookup_builtin [OF assms(1)] assms(2) by blast

theorem builtins_are_total_and_typed_witness:
  "\<exists>f v. fs_Eval (func_spec ''cidr_matches'' [KindIP, KindString] KindBool False False evalCIDRMatches) = Some f \<and>
     f [VInt 1, VInvalid] = Some v \<and>
     Kind_of v = fs_ReturnKind (func_spec ''cidr_matches'' [KindIP, KindString] KindBool False False evalCIDRMatches)"
  by (rule builtins_are_total_and_typed [OF Lookup_cidr_matches [of golib0]])
     (simp add: arity_ok_def func_spec_def)

text \<open>The \<^verbatim>\<open>init\<close> functions of the package register every built-in without a panic, each under its name.\<close>

theorem registration_succeeds:
  "register_all (builtin_specs L) [] = Some (funcs L) \<and> Names (funcs L) = map fs_Name (builtin_specs L) \<and>
   distinct (Names (funcs L))"
proof -
  have "distinct (map fs_Name (builtin_specs L))"
    by (simp add: builtin_specs_def init_defs func_spec_def)
  then show ?thesis by (simp add: builtin_register funcs_eq Names_def comp_def)
qed

text \<open>\<^verbatim>\<open>url_decode(url_encode(s))\<close> is \<^verbatim>\<open>s\<close>, for every byte string.\<close>

theorem url_round_trip: "Option.bind (evalURLEncode [VString s]) (\<lambda>v. evalURLDecode [v]) = Some (VString s)"
  by (simp add: evalURLEncode_def evalURLDecode_def arg_def go_simps QueryUnescape_QueryEscape)

text \<open>\<^verbatim>\<open>to_int(to_string(n))\<close> is \<^verbatim>\<open>n\<close>, for every 64-bit integer.\<close>

theorem int_round_trip: "Option.bind (evalToString L [VInt n]) (\<lambda>v. evalToInt L [v]) = Some (VInt n)"
  by (simp add: evalToString_def evalToInt_def arg_def go_simps to_int_value_def ParseInt_FormatInt_sint)

text \<open>
  \<^verbatim>\<open>substring\<close> is the slice between its bounds, with both clamped to the string: any pair of bounds
  is safe.
\<close>

theorem substring_clamps:
  assumes "length s < 2 ^ 63"
  shows "evalSubstring [VString s, VInt i, VInt j] =
    Some (VString (take (nat (sint j) - nat (sint i)) (drop (nat (sint i)) s)))"
  using assms by (rule evalSubstring_eq)

theorem substring_clamps_witness:
  "evalSubstring [VString ''hello'', VInt (-2), VInt 3] =
    Some (VString (take (nat (sint (3 :: i64)) - nat (sint (-2 :: i64))) (drop (nat (sint (-2 :: i64))) ''hello'')))"
  by (rule substring_clamps) simp

text \<open>
  \<^verbatim>\<open>Value.Equal\<close> on well-formed values is symmetric and transitive, and reflexive exactly on the
  values with no NaN and no invalid value inside.
\<close>

theorem value_equality:
  assumes "wf_value u" "wf_value v" "wf_value w" "Equal u v"
  shows "Equal v u \<and> (Equal u w \<longleftrightarrow> Equal v w) \<and> (Equal w w \<longleftrightarrow> self_equal w)"
  using assms Equal_sym_imp Equal_trans_imp Equal_refl_iff by blast

theorem value_equality_witness:
  "Equal (VMap [(''b'', VInt 2), (''a'', VInt 1)]) (VMap [(''a'', VInt 1), (''b'', VInt 2)]) \<and>
   (Equal (VMap [(''a'', VInt 1), (''b'', VInt 2)]) (VArray [VInvalid]) \<longleftrightarrow>
    Equal (VMap [(''b'', VInt 2), (''a'', VInt 1)]) (VArray [VInvalid])) \<and>
   (Equal (VArray [VInvalid]) (VArray [VInvalid]) \<longleftrightarrow> self_equal (VArray [VInvalid]))"
  by (rule value_equality) simp_all

text \<open>
  The catalog. Every catalog a program can build has no full name twice, holds only valid names
  of known types, each under its full name, and its revision counts the registrations.
\<close>

theorem catalog_invariant:
  assumes "catalog_reachable c"
  shows "wf_catalog c"
  using assms by (rule catalog_reachable_wf)

theorem catalog_invariant_witness: "wf_catalog core_catalog"
  using core_catalog_reachable by (rule catalog_invariant)

text \<open>
  A scheme holds the fields of the requested namespaces, all of them and no others, sorted by
  full name, and does not depend on the order in which the catalog was filled.
\<close>

theorem project_is_sorted_selection:
  assumes "wf_catalog c" "wf_catalog c'" "mset (cat_fields c) = mset (cat_fields c')"
  shows "set (sch_fields (Project c nss)) = {f. map_of (cat_fields c) (FullName f) = Some f \<and> Namespace f \<in> set nss} \<and>
    sorted_names (sch_fields (Project c nss)) \<and> sch_fields (Project c nss) = sch_fields (Project c' nss)"
proof -
  have "mset (in_namespaces c nss) = mset (in_namespaces c' nss)"
    using arg_cong [OF assms(3), of "image_mset snd"] by (simp add: in_namespaces_def mset_filter)
  then have "sch_fields (Project c nss) = sch_fields (Project c' nss)"
    using sortFieldInfos_unique distinct_in_namespaces [OF assms(1)] by (simp add: Project_eq)
  moreover have "sorted_names (sch_fields (Project c nss))" by (simp add: Project_eq sorted_sortFieldInfos)
  ultimately show ?thesis using set_Project [OF assms(1), of nss] by simp
qed

theorem project_is_sorted_selection_witness:
  "set (sch_fields (Project core_catalog [''core''])) =
     {f. map_of (cat_fields core_catalog) (FullName f) = Some f \<and> Namespace f \<in> set [''core'']} \<and>
   sorted_names (sch_fields (Project core_catalog [''core''])) \<and>
   sch_fields (Project core_catalog [''core'']) =
     sch_fields (Project \<lparr>cat_rev = cat_rev core_catalog, cat_fields = rev (cat_fields core_catalog)\<rparr> [''core''])"
proof (rule project_is_sorted_selection)
  show "wf_catalog core_catalog" by (rule catalog_reachable_wf [OF core_catalog_reachable])
  then show "wf_catalog \<lparr>cat_rev = cat_rev core_catalog, cat_fields = rev (cat_fields core_catalog)\<rparr>"
    by (simp add: wf_catalog_def list_all_iff flip: rev_map)
qed simp

text \<open>
  The byte mask operator: \<^verbatim>\<open>a & m\<close> holds of two byte strings exactly when they have the same
  length and every bit set in the mask is set in the value.
\<close>

theorem bit_and_is_mask_test:
  "evalBitAnd (Val (VBytes a)) (Val (VBytes m)) =
     Some (list_all2 (\<lambda>x y. {k. bit y k} \<subseteq> {k. bit x k}) a m)"
  by (auto simp: evalBitAnd_def on_vals_def go_simps Let_def bytes_masked_iff list_all2_conv_all_nth)

text \<open>
  C10: a validated configuration runs. If the wiring of the executors has no error and every declared
  channel has a writer attached, then every executor finds, under every name it reads, an open queue
  with at least one writer; and every declared channel has an executor that reads it.
\<close>

theorem wired_executors_find_open_queues:
  fixes b :: ExecutorBinding
  assumes "ValidateExecutorWiring bindings channelTypes = []" "ncs_run B R es s"
    "list_all (\<lambda>(n, t). 0 < writers es n) channelTypes"
    "b \<in> set bindings" "n \<in> set (SourceNames b)"
  shows "\<exists>i. AttachReader n s = Inr i \<and> \<not> nq_closed (ncsHeap s ! i) \<and> 0 < refs_of s n"
proof -
  have "wiring_ok bindings channelTypes"
    using assms(1) by (simp add: ValidateExecutorWiring_Nil)
  then obtain t where "map_of channelTypes n = Some t" using assms(4,5) unfolding wiring_ok_def by blast
  then have w: "0 < writers es n" using assms(3) by (auto dest!: map_of_SomeD simp: list_all_iff)
  note ok = ncs_run_ok [OF assms(2)]
  from w obtain i where i: "ncsQueues s n = Some i" using ncs_okD(2) [OF ok, of n] by auto
  show ?thesis using i ncs_okD(3) [OF ok i] ncs_okD(6) [OF ok, of n] w by (simp add: AttachReader_def)
qed

lemma demo_switch_run:
  "ncs_run mem_lib R [Attached ''threats''] (snd (AttachWriter ''threats'' 0 ncs0))"
  by (intro ncs_run.attach ncs_run.start)

theorem wired_executors_find_open_queues_witness:
  "\<exists>i. AttachReader ''threats'' (snd (AttachWriter ''threats'' 0
        (ncs0 :: (bytes \<Rightarrow> (bytes \<Rightarrow> bytes option) option, unit) Switch))) = Inr i"
proof -
  have "\<exists>i. AttachReader ''threats'' (snd (AttachWriter ''threats'' 0
          (ncs0 :: (bytes \<Rightarrow> (bytes \<Rightarrow> bytes option) option, unit) Switch))) = Inr i \<and>
      \<not> nq_closed (ncsHeap (snd (AttachWriter ''threats'' 0 (ncs0 :: (bytes \<Rightarrow> (bytes \<Rightarrow> bytes option) option, unit) Switch))) ! i) \<and>
      0 < refs_of (snd (AttachWriter ''threats'' 0 (ncs0 :: (bytes \<Rightarrow> (bytes \<Rightarrow> bytes option) option, unit) Switch))) ''threats''"
    by (rule wired_executors_find_open_queues [OF _ demo_switch_run,
          of "[\<lparr>eb_Name = ''ban'', eb_InputType = TypeAny, SourceNames = [''threats'']\<rparr>]" "[(''threats'', TypeScoredEvent)]"
          "\<lparr>eb_Name = ''ban'', eb_InputType = TypeAny, SourceNames = [''threats'']\<rparr>"])
       (simp_all add: ValidateExecutorWiring_def binding_errors_def wire_errors_def)
  then show ?thesis by blast
qed

section \<open>Where the code and its documentation part\<close>

definition accepted :: "string \<Rightarrow> bool" where
  "accepted e = (case compileExpr golib0 demo_compiler e of Inl _ \<Rightarrow> False | Inr _ \<Rightarrow> True)"

text \<open>
  The modifier \<^verbatim>\<open>strict\<close> on the left operand: it is refused before a field, and before a literal it
  counts as a boolean, so \<^verbatim>\<open>strict 5 in [5]\<close> is refused and \<^verbatim>\<open>strict 5 in [true]\<close> accepted.
\<close>

lemma strict_left_operands:
  "map accepted [''strict core.level eq \"a\"'', ''core.level eq strict \"a\"'', ''strict \"a\" contains \"b\"'',
     ''strict 5 in [5]'', ''strict 5 in [true]''] = [False, True, False, False, True]"
  by code_simp

end
